(* ===== verification/Prelude.thy ===== *)
theory Prelude
  imports Main "HOL-Library.Word" "HOL-Library.Sublist"
begin

text \<open>
  Shared ground of the development: bytes and text, the result type that carries Python
  exceptions as values, and the generic lemmas on lists and words that the component
  theories use.  Nothing here is specific to CypherSyntax.

  \<^item> \<open>bytes\<close> is Python's \<open>bytes\<close>: a list of 8-bit words.
  \<^item> \<open>pystr\<close> is Python's \<open>str\<close>: a list of code points (natural numbers), so that lone
    surrogates, which a \<open>str\<close> may hold, are values too.
  \<^item> A computation that may raise has type \<open>'e + 'a\<close>: \<open>Inl\<close> the exception, \<open>Inr\<close> the value.
    \<open>bindE\<close> is the sequencing of two statements, \<open>raise_if\<close> is \<open>if c: raise e\<close>, and
    \<open>catchE\<close> is \<open>try: ... except\<close>.
\<close>

named_theorems res_simps "characterisations of results of sequenced statements"

type_synonym byte = "8 word"
type_synonym bytes = "byte list"
type_synonym pystr = "nat list"

section \<open>Results\<close>

definition bindE :: "'e + 'a \<Rightarrow> ('a \<Rightarrow> 'e + 'b) \<Rightarrow> 'e + 'b" where
  "bindE m f = (case m of Inl e \<Rightarrow> Inl e | Inr x \<Rightarrow> f x)"

definition thenE :: "'e + 'a \<Rightarrow> 'e + 'b \<Rightarrow> 'e + 'b" where
  "thenE m n = bindE m (\<lambda>_. n)"

definition raise_if :: "bool \<Rightarrow> 'e \<Rightarrow> 'e + unit" where
  "raise_if c e = (if c then Inl e else Inr ())"

definition catchE :: "'e + 'a \<Rightarrow> ('e \<Rightarrow> 'e + 'a) \<Rightarrow> 'e + 'a" where
  "catchE m h = (case m of Inl e \<Rightarrow> h e | Inr x \<Rightarrow> Inr x)"

definition opt_else :: "'a option \<Rightarrow> 'e \<Rightarrow> 'e + 'a" where
  "opt_else m e = (case m of None \<Rightarrow> Inl e | Some x \<Rightarrow> Inr x)"

fun sequenceE :: "('e + 'a) list \<Rightarrow> 'e + 'a list" where
  "sequenceE [] = Inr []"
| "sequenceE (m # ms) = bindE m (\<lambda>x. bindE (sequenceE ms) (\<lambda>xs. Inr (x # xs)))"

lemma bindE_simps [simp]:
  "bindE (Inl e) f = Inl e"
  "bindE (Inr x) f = f x"
  by (simp_all add: bindE_def)

lemma thenE_simps [simp]:
  "thenE (Inl e) n = Inl e"
  "thenE (Inr x) n = n"
  by (simp_all add: thenE_def)

lemma raise_if_simps [simp]:
  "raise_if True e = Inl e"
  "raise_if False e = Inr ()"
  by (simp_all add: raise_if_def)

lemma catchE_simps [simp]:
  "catchE (Inl e) h = h e"
  "catchE (Inr x) h = Inr x"
  by (simp_all add: catchE_def)

lemma opt_else_simps [simp]:
  "opt_else None e = Inl e"
  "opt_else (Some x) e = Inr x"
  by (simp_all add: opt_else_def)

lemma bindE_cong [fundef_cong]:
  assumes "m = m'" and "\<And>x. m' = Inr x \<Longrightarrow> f x = g x"
  shows "bindE m f = bindE m' g"
  using assms by (cases m') auto

lemma bindE_eq_Inr [res_simps]:
  "bindE m f = Inr y \<longleftrightarrow> (\<exists>x. m = Inr x \<and> f x = Inr y)"
  by (cases m) auto

lemma bindE_eq_Inl [res_simps]:
  "bindE m f = Inl e \<longleftrightarrow> m = Inl e \<or> (\<exists>x. m = Inr x \<and> f x = Inl e)"
  by (cases m) auto

lemma thenE_eq_Inr [res_simps]:
  "thenE m n = Inr y \<longleftrightarrow> (\<exists>x. m = Inr x) \<and> n = Inr y"
  by (cases m) auto

lemma thenE_eq_Inl [res_simps]:
  "thenE m n = Inl e \<longleftrightarrow> m = Inl e \<or> (\<exists>x. m = Inr x) \<and> n = Inl e"
  by (cases m) auto

lemma raise_if_eq_Inr [res_simps]: "raise_if c e = Inr u \<longleftrightarrow> \<not> c"
  by (cases c) auto

lemma raise_if_eq_Inl [res_simps]: "raise_if c e = Inl e' \<longleftrightarrow> c \<and> e' = e"
  by (cases c) auto

lemma catchE_eq_Inr [res_simps]:
  "catchE m h = Inr y \<longleftrightarrow> m = Inr y \<or> (\<exists>e. m = Inl e \<and> h e = Inr y)"
  by (cases m) auto

lemma catchE_eq_Inl [res_simps]:
  "catchE m h = Inl e' \<longleftrightarrow> (\<exists>e. m = Inl e \<and> h e = Inl e')"
  by (cases m) auto

lemma opt_else_eq_Inr [res_simps]: "opt_else m e = Inr x \<longleftrightarrow> m = Some x"
  by (cases m) auto

lemma opt_else_eq_Inl [res_simps]: "opt_else m e = Inl e' \<longleftrightarrow> m = None \<and> e' = e"
  by (cases m) auto

lemma bindE_assoc [simp]: "bindE (bindE m f) g = bindE m (\<lambda>x. bindE (f x) g)"
  by (cases m) auto

lemma sequenceE_map_Inr [simp]: "sequenceE (map (\<lambda>x. Inr (f x)) xs) = Inr (map f xs)"
  by (induction xs) auto

section \<open>Lists\<close>

lemma append_eq_same_length:
  "length a = length b \<Longrightarrow> a @ r = b @ s \<longleftrightarrow> a = b \<and> r = s"
  by simp

lemma map_eq_imp_nth: "map f xs = map f ys \<Longrightarrow> inj f \<Longrightarrow> xs = ys"
  by (simp add: inj_map_eq_map)

lemma dropWhile_hd_False: "xs \<noteq> [] \<Longrightarrow> \<not> P (hd xs) \<Longrightarrow> dropWhile P xs = xs"
  by (cases xs) auto

section \<open>Bytes and words\<close>

lemma unat_byte_less [simp]: "unat (b :: byte) < 256"
  using unsigned_less [of b] by simp

text \<open>The byte of a number below 256; a number above is taken modulo 256.\<close>

definition to_byte :: "nat \<Rightarrow> byte" where
  "to_byte n = of_nat n"

lemma unat_to_byte [simp]: "n < 256 \<Longrightarrow> unat (to_byte n) = n"
  by (simp add: to_byte_def unsigned_of_nat take_bit_nat_eq_self)

lemma to_byte_eq_iff [simp]: "m < 256 \<Longrightarrow> n < 256 \<Longrightarrow> to_byte m = to_byte n \<longleftrightarrow> m = n"
  by (metis unat_to_byte)

lemma to_byte_unat [simp]: "to_byte (unat b) = b"
  by (simp add: to_byte_def)

subsection \<open>Big-endian integers\<close>

text \<open>
  \<open>be_bytes k n\<close> are the \<open>k\<close> low bytes of \<open>n\<close>, most significant first;
  \<open>be_value\<close> reads them back.
\<close>

fun be_bytes :: "nat \<Rightarrow> nat \<Rightarrow> bytes" where
  "be_bytes 0 n = []"
| "be_bytes (Suc k) n = be_bytes k (n div 256) @ [to_byte (n mod 256)]"

definition be_value :: "bytes \<Rightarrow> nat" where
  "be_value bs = foldl (\<lambda>a b. a * 256 + unat b) 0 bs"

lemma length_be_bytes [simp]: "length (be_bytes k n) = k"
  by (induction k arbitrary: n) auto

lemma be_value_append: "be_value (xs @ [b]) = be_value xs * 256 + unat b"
  by (simp add: be_value_def)

lemma be_value_bytes: "n < 256 ^ k \<Longrightarrow> be_value (be_bytes k n) = n"
proof (induction k arbitrary: n)
  case 0
  then show ?case by (simp add: be_value_def)
next
  case (Suc k)
  from Suc.prems have "n div 256 < 256 ^ k"
    by (simp add: less_mult_imp_div_less mult.commute)
  with Suc.IH show ?case
    by (simp add: be_value_append)
qed

lemma be_bytes_inj: "m < 256 ^ k \<Longrightarrow> n < 256 ^ k \<Longrightarrow> be_bytes k m = be_bytes k n \<longleftrightarrow> m = n"
  by (metis be_value_bytes)

end
