(* ===== verification/Errors.thy ===== *)
theory Errors
  imports Prelude
begin

text \<open>
  The exceptions the program raises or catches.  \<open>exn_class\<close> lists the classes of
  \<^verbatim>\<open>src/cyphersyntax/errors.py\<close> and the classes of Python and of the
  \<^verbatim>\<open>cryptography\<close> package that the sources name.  \<open>base_class\<close> gives each class its base,
  one equation per \<^verbatim>\<open>class\<close> statement; \<open>is_subclass\<close> is its reflexive and transitive
  closure, which an \<^verbatim>\<open>except\<close> clause tests.  An exception value is its class and its
  message.
\<close>

datatype exn_class =
    Exception
  | TypeError
  | ValueError
  | UnicodeError
  | UnicodeEncodeError
  | UnicodeDecodeError
  | JSONDecodeError
  | RuntimeError
  | RecursionError
  | ArithmeticError
  | OverflowError
  | AttributeError
  | LookupError
  | KeyError
  | OSError
  | FileNotFoundError
  | FileExistsError
  | InvalidTag
  | InvalidSignature
  | CypherSyntaxError
  | InvalidSignatureError
  | KeyConfirmationError
  | ReplayDetectedError
  | EnvelopeError
  | HandshakeError
  | PersistenceError
  | StoreError
  | IdentityError
  | GreenCheckError
  | BadZipFile
  | CsvError
  | SyntaxError

fun base_class :: "exn_class \<Rightarrow> exn_class option" where
  "base_class Exception = None"
| "base_class UnicodeError = Some ValueError"
| "base_class UnicodeEncodeError = Some UnicodeError"
| "base_class UnicodeDecodeError = Some UnicodeError"
| "base_class JSONDecodeError = Some ValueError"
| "base_class RecursionError = Some RuntimeError"
| "base_class OverflowError = Some ArithmeticError"
| "base_class KeyError = Some LookupError"
| "base_class FileNotFoundError = Some OSError"
| "base_class FileExistsError = Some OSError"
| "base_class InvalidSignatureError = Some CypherSyntaxError"
| "base_class KeyConfirmationError = Some CypherSyntaxError"
| "base_class ReplayDetectedError = Some CypherSyntaxError"
| "base_class EnvelopeError = Some CypherSyntaxError"
| "base_class HandshakeError = Some CypherSyntaxError"
| "base_class PersistenceError = Some CypherSyntaxError"
| "base_class StoreError = Some PersistenceError"
| "base_class IdentityError = Some PersistenceError"
| "base_class GreenCheckError = Some RuntimeError"
| "base_class _ = Some Exception"

text \<open>The distance to \<open>Exception\<close>, the measure that ends the walk up the bases.\<close>

fun class_depth :: "exn_class \<Rightarrow> nat" where
  "class_depth Exception = 0"
| "class_depth UnicodeError = 2"
| "class_depth UnicodeEncodeError = 3"
| "class_depth UnicodeDecodeError = 3"
| "class_depth JSONDecodeError = 2"
| "class_depth RecursionError = 2"
| "class_depth OverflowError = 2"
| "class_depth KeyError = 2"
| "class_depth FileNotFoundError = 2"
| "class_depth FileExistsError = 2"
| "class_depth InvalidSignatureError = 2"
| "class_depth KeyConfirmationError = 2"
| "class_depth ReplayDetectedError = 2"
| "class_depth EnvelopeError = 2"
| "class_depth HandshakeError = 2"
| "class_depth PersistenceError = 2"
| "class_depth StoreError = 3"
| "class_depth IdentityError = 3"
| "class_depth GreenCheckError = 2"
| "class_depth _ = 1"

lemma base_class_depth: "base_class c = Some b \<Longrightarrow> class_depth b < class_depth c"
  by (cases c) auto

function is_subclass :: "exn_class \<Rightarrow> exn_class \<Rightarrow> bool" where
  "is_subclass c d =
     (c = d \<or> (case base_class c of None \<Rightarrow> False | Some b \<Rightarrow> is_subclass b d))"
  by pat_completeness auto
termination
  by (relation "measure (\<lambda>(c, d). class_depth c)") (auto dest: base_class_depth)

declare is_subclass.simps [simp del]

lemma is_subclass_refl [simp]: "is_subclass c c"
  by (simp add: is_subclass.simps)

lemma is_subclass_base: "base_class c = Some b \<Longrightarrow> is_subclass b d \<Longrightarrow> is_subclass c d"
  by (subst is_subclass.simps) simp

lemma is_subclass_trans: "is_subclass c d \<Longrightarrow> is_subclass d e \<Longrightarrow> is_subclass c e"
proof (induction c d rule: is_subclass.induct)
  case (1 c d)
  show ?case
  proof (cases "c = d")
    case True
    with "1.prems" show ?thesis by simp
  next
    case False
    with "1.prems" obtain b where b: "base_class c = Some b" "is_subclass b d"
      by (auto simp: is_subclass.simps [of c d] split: option.splits)
    from "1.IH" [OF b(1) b(2) "1.prems"(2)] b(1) show ?thesis
      by (rule is_subclass_base [rotated])
  qed
qed

lemma everything_is_an_exception: "is_subclass c Exception"
  by (cases c) (simp_all add: is_subclass.simps)

text \<open>Exceptions as values; \<open>isinstance_of\<close> is the test of an \<^verbatim>\<open>except\<close> clause.\<close>

datatype exn = Exn (cls: exn_class) (msg: pystr)

definition isinstance_of :: "exn \<Rightarrow> exn_class list \<Rightarrow> bool" where
  "isinstance_of e cs = (\<exists>c \<in> set cs. is_subclass (cls e) c)"

type_synonym 'a res = "exn + 'a"

text \<open>\<^verbatim>\<open>try: m except cs as exc: raise new\<close> for the common case of one clause.\<close>

definition wrap_exn :: "exn_class list \<Rightarrow> (exn \<Rightarrow> exn) \<Rightarrow> 'a res \<Rightarrow> 'a res" where
  "wrap_exn cs new m = catchE m (\<lambda>e. Inl (if isinstance_of e cs then new e else e))"

lemma wrap_exn_simps [simp]:
  "wrap_exn cs new (Inr x) = Inr x"
  "isinstance_of e cs \<Longrightarrow> wrap_exn cs new (Inl e) = Inl (new e)"
  "\<not> isinstance_of e cs \<Longrightarrow> wrap_exn cs new (Inl e) = Inl e"
  by (simp_all add: wrap_exn_def)

lemma wrap_exn_eq_Inr [res_simps]: "wrap_exn cs new m = Inr y \<longleftrightarrow> m = Inr y"
  by (cases m) (auto simp: wrap_exn_def)

lemma wrap_exn_eq_Inl [res_simps]:
  "wrap_exn cs new m = Inl e' \<longleftrightarrow>
     (\<exists>e. m = Inl e \<and> e' = (if isinstance_of e cs then new e else e))"
  by (cases m) (auto simp: wrap_exn_def)

text \<open>
  \<open>raises_only c m\<close>: if \<open>m\<close> raises, it raises an instance of \<open>c\<close>.  The contract of the
  parsers is stated with it.
\<close>

definition raises_only :: "exn_class \<Rightarrow> 'a res \<Rightarrow> bool" where
  "raises_only c m = (case m of Inl e \<Rightarrow> is_subclass (cls e) c | Inr _ \<Rightarrow> True)"

named_theorems raises_intros "rules for raises_only"

lemma raises_only_Inr [simp]: "raises_only c (Inr x)"
  by (simp add: raises_only_def)

lemma raises_only_Inl [simp]: "raises_only c (Inl e) \<longleftrightarrow> is_subclass (cls e) c"
  by (simp add: raises_only_def)

lemma raises_only_bindE [raises_intros]:
  "raises_only c m \<Longrightarrow> (\<And>x. m = Inr x \<Longrightarrow> raises_only c (f x)) \<Longrightarrow> raises_only c (bindE m f)"
  by (cases m) auto

lemma raises_only_thenE [raises_intros]:
  "raises_only c m \<Longrightarrow> (\<And>x. m = Inr x \<Longrightarrow> raises_only c n) \<Longrightarrow> raises_only c (thenE m n)"
  by (cases m) auto

lemma raises_only_raise_if [raises_intros]:
  "is_subclass (cls e) c \<Longrightarrow> raises_only c (raise_if b e)"
  by (cases b) auto

lemma raises_only_opt_else [raises_intros]:
  "is_subclass (cls e) c \<Longrightarrow> raises_only c (opt_else m e)"
  by (cases m) auto

lemma raises_only_Inl_D: "raises_only c m \<Longrightarrow> m = Inl e \<Longrightarrow> is_subclass (cls e) c"
  by simp

text \<open>The same for a list of classes, the ones an \<^verbatim>\<open>except\<close> clause names.\<close>

definition raises_among :: "exn_class list \<Rightarrow> 'a res \<Rightarrow> bool" where
  "raises_among cs m = (case m of Inl e \<Rightarrow> isinstance_of e cs | Inr _ \<Rightarrow> True)"

lemma raises_among_Inr [simp]: "raises_among cs (Inr x)"
  by (simp add: raises_among_def)

lemma raises_among_Inl [simp]: "raises_among cs (Inl e) \<longleftrightarrow> isinstance_of e cs"
  by (simp add: raises_among_def)

lemma raises_among_bindE [raises_intros]:
  "raises_among cs m \<Longrightarrow> (\<And>x. m = Inr x \<Longrightarrow> raises_among cs (f x)) \<Longrightarrow> raises_among cs (bindE m f)"
  by (cases m) auto

lemma raises_among_thenE [raises_intros]:
  "raises_among cs m \<Longrightarrow> (\<And>x. m = Inr x \<Longrightarrow> raises_among cs n) \<Longrightarrow> raises_among cs (thenE m n)"
  by (cases m) auto

lemma raises_among_raise_if [raises_intros]: "isinstance_of e cs \<Longrightarrow> raises_among cs (raise_if b e)"
  by (cases b) auto

lemma raises_among_mono: "raises_among cs m \<Longrightarrow> set cs \<subseteq> set ds \<Longrightarrow> raises_among ds m"
  by (cases m) (auto simp: isinstance_of_def)

text \<open>A clause that catches everything the block raises leaves only its own exception.\<close>

lemma raises_only_wrap_exn [raises_intros]:
  "raises_among cs m \<Longrightarrow> (\<And>e. is_subclass (cls (new e)) c) \<Longrightarrow> raises_only c (wrap_exn cs new m)"
  by (cases m) auto

end
