(* ===== verification/PyValues.thy ===== *)
theory PyValues
  imports Errors "HOL-Library.List_Lexorder"
begin

unbundle bit_operations_syntax

text \<open>
  The Python values and the parts of the standard library the sources use on \<open>str\<close> and
  \<open>bytes\<close>: literals, UTF-8, \<^verbatim>\<open>str.strip\<close>, \<^verbatim>\<open>str.isprintable\<close>, decimal and hexadecimal
  conversion.

  \<open>pyval\<close> is a value of unknown type, as a parameter annotated \<^verbatim>\<open>object\<close> or a decoded JSON
  field is: the type tests of the sources (\<^verbatim>\<open>type(x) is not int\<close>) are case distinctions on it.
  \<open>PObj\<close> is any object of another type.  A dictionary is the list of its items in insertion
  order.

  \<open>runtime\<close> holds what a Python interpreter fixes and the program does not: which non-ASCII
  code points the interpreter's Unicode database calls printable, how deep the JSON scanner
  and encoder may recurse, and the decimal notation of floats.
\<close>

datatype pyval =
    PNone
  | PBool bool
  | PInt int
  | PFloat "64 word"
  | PStr pystr
  | PBytes bytes
  | PList "pyval list"
  | PTuple "pyval list"
  | PDict "(pyval \<times> pyval) list"
  | PObj

record runtime =
  nonascii_printable :: "nat \<Rightarrow> bool"
  loads_depth :: nat
  dumps_depth :: nat
  float_repr :: "64 word \<Rightarrow> pystr"
  float_parse :: "pystr \<Rightarrow> 64 word"

section \<open>Literals\<close>

definition lit :: "string \<Rightarrow> pystr" where
  "lit s = map of_char s"

definition blit :: "string \<Rightarrow> bytes" where
  "blit s = map of_char s"

lemma lit_eq_iff [simp]: "lit s = lit t \<longleftrightarrow> s = t"
  by (simp add: lit_def inj_map_eq_map inj_def)

lemma length_lit [simp]: "length (lit s) = length s"
  by (simp add: lit_def)

lemma length_blit [simp]: "length (blit s) = length s"
  by (simp add: blit_def)

lemma lit_append: "lit (s @ t) = lit s @ lit t"
  by (simp add: lit_def)

lemma lit_eq_Nil [simp]: "lit s = [] \<longleftrightarrow> s = []"
  by (simp add: lit_def)

section \<open>Code points\<close>

definition is_surrogate :: "nat \<Rightarrow> bool" where
  "is_surrogate c \<longleftrightarrow> 0xD800 \<le> c \<and> c \<le> 0xDFFF"

definition is_scalar :: "nat \<Rightarrow> bool" where
  "is_scalar c \<longleftrightarrow> c \<le> 0x10FFFF \<and> \<not> is_surrogate c"

text \<open>The white space of \<^verbatim>\<open>str.strip\<close>: the code points with \<^verbatim>\<open>str.isspace\<close>.\<close>

definition is_space :: "nat \<Rightarrow> bool" where
  "is_space c \<longleftrightarrow>
     9 \<le> c \<and> c \<le> 13 \<or> 28 \<le> c \<and> c \<le> 32 \<or> c = 0x85 \<or> c = 0xA0 \<or> c = 0x1680 \<or>
     0x2000 \<le> c \<and> c \<le> 0x200A \<or> c = 0x2028 \<or> c = 0x2029 \<or> c = 0x202F \<or>
     c = 0x205F \<or> c = 0x3000"

definition strip :: "pystr \<Rightarrow> pystr" where
  "strip s = rev (dropWhile is_space (rev (dropWhile is_space s)))"

lemma strip_id: "s = [] \<or> \<not> is_space (hd s) \<and> \<not> is_space (last s) \<Longrightarrow> strip s = s"
  by (cases "s = []") (auto simp: strip_def dropWhile_hd_False hd_rev)

text \<open>
  \<^verbatim>\<open>str.isprintable\<close>: in ASCII the characters from space to tilde, elsewhere what the
  Unicode database of the interpreter says.
\<close>

definition char_printable :: "runtime \<Rightarrow> nat \<Rightarrow> bool" where
  "char_printable rt c \<longleftrightarrow>
     (if c < 128 then 32 \<le> c \<and> c \<le> 126 else nonascii_printable rt c)"

definition isprintable :: "runtime \<Rightarrow> pystr \<Rightarrow> bool" where
  "isprintable rt s \<longleftrightarrow> list_all (char_printable rt) s"

section \<open>UTF-8\<close>

definition utf8_char :: "nat \<Rightarrow> bytes" where
  "utf8_char c =
     (if c < 0x80 then [to_byte c]
      else if c < 0x800 then [to_byte (0xC0 + c div 64), to_byte (0x80 + c mod 64)]
      else if c < 0x10000 then
        [to_byte (0xE0 + c div 4096), to_byte (0x80 + c div 64 mod 64), to_byte (0x80 + c mod 64)]
      else
        [to_byte (0xF0 + c div 262144), to_byte (0x80 + c div 4096 mod 64),
         to_byte (0x80 + c div 64 mod 64), to_byte (0x80 + c mod 64)])"

text \<open>\<^verbatim>\<open>s.encode("utf-8")\<close>: a surrogate cannot be encoded.\<close>

definition utf8_encode :: "pystr \<Rightarrow> bytes res" where
  "utf8_encode s =
     (if list_all is_scalar s then Inr (concat (map utf8_char s))
      else Inl (Exn UnicodeEncodeError (lit ''surrogates not allowed'')))"

definition cont_byte :: "byte \<Rightarrow> bool" where
  "cont_byte b \<longleftrightarrow> 0x80 \<le> unat b \<and> unat b \<le> 0xBF"

text \<open>
  \<^verbatim>\<open>b.decode("utf-8")\<close>, strict: shortest forms only, no surrogates, nothing above
  \<open>0x10FFFF\<close>.
\<close>

fun utf8_decode :: "bytes \<Rightarrow> pystr option" where
  "utf8_decode [] = Some []"
| "utf8_decode (b0 # bs) =
     (let n0 = unat b0 in
      if n0 < 0x80 then map_option ((#) n0) (utf8_decode bs)
      else if 0xC2 \<le> n0 \<and> n0 \<le> 0xDF then
        (case bs of
           b1 # r \<Rightarrow>
             if cont_byte b1
             then map_option ((#) ((n0 - 0xC0) * 64 + (unat b1 - 0x80))) (utf8_decode r)
             else None
         | _ \<Rightarrow> None)
      else if 0xE0 \<le> n0 \<and> n0 \<le> 0xEF then
        (case bs of
           b1 # b2 # r \<Rightarrow>
             if cont_byte b1 \<and> cont_byte b2 \<and> (n0 = 0xE0 \<longrightarrow> 0xA0 \<le> unat b1) \<and>
                (n0 = 0xED \<longrightarrow> unat b1 \<le> 0x9F)
             then map_option
                    ((#) ((n0 - 0xE0) * 4096 + (unat b1 - 0x80) * 64 + (unat b2 - 0x80)))
                    (utf8_decode r)
             else None
         | _ \<Rightarrow> None)
      else if 0xF0 \<le> n0 \<and> n0 \<le> 0xF4 then
        (case bs of
           b1 # b2 # b3 # r \<Rightarrow>
             if cont_byte b1 \<and> cont_byte b2 \<and> cont_byte b3 \<and>
                (n0 = 0xF0 \<longrightarrow> 0x90 \<le> unat b1) \<and> (n0 = 0xF4 \<longrightarrow> unat b1 \<le> 0x8F)
             then map_option
                    ((#) ((n0 - 0xF0) * 262144 + (unat b1 - 0x80) * 4096 +
                          (unat b2 - 0x80) * 64 + (unat b3 - 0x80)))
                    (utf8_decode r)
             else None
         | _ \<Rightarrow> None)
      else None)"

declare utf8_decode.simps(2) [simp del]

lemma utf8_encode_eq_Inr [res_simps]:
  "utf8_encode s = Inr b \<longleftrightarrow> list_all is_scalar s \<and> b = concat (map utf8_char s)"
  by (auto simp: utf8_encode_def)

text \<open>The decoder on the two, three and four bytes of a code point, given its digits.\<close>

lemma utf8_decode_2:
  assumes "2 \<le> x" "x < 32" "y < 64"
  shows "utf8_decode (to_byte (0xC0 + x) # to_byte (0x80 + y) # bs) =
           map_option ((#) (x * 64 + y)) (utf8_decode bs)"
proof -
  have "unat (to_byte (0xC0 + x)) = 0xC0 + x" "unat (to_byte (0x80 + y)) = 0x80 + y"
    using assms by auto
  then show ?thesis
    using assms by (simp add: utf8_decode.simps(2) cont_byte_def del: unat_to_byte)
qed

lemma utf8_decode_3:
  assumes "x < 16" "y < 64" "z < 64" "x = 0 \<longrightarrow> 32 \<le> y" "x = 13 \<longrightarrow> y < 32"
  shows "utf8_decode (to_byte (0xE0 + x) # to_byte (0x80 + y) # to_byte (0x80 + z) # bs) =
           map_option ((#) (x * 4096 + y * 64 + z)) (utf8_decode bs)"
proof -
  have "unat (to_byte (0xE0 + x)) = 0xE0 + x" "unat (to_byte (0x80 + y)) = 0x80 + y"
    "unat (to_byte (0x80 + z)) = 0x80 + z"
    using assms by auto
  then show ?thesis
    using assms by (auto simp: utf8_decode.simps(2) cont_byte_def simp del: unat_to_byte)
qed

lemma utf8_decode_4:
  assumes "w < 5" "x < 64" "y < 64" "z < 64" "w = 0 \<longrightarrow> 16 \<le> x" "w = 4 \<longrightarrow> x < 16"
  shows "utf8_decode
           (to_byte (0xF0 + w) # to_byte (0x80 + x) # to_byte (0x80 + y) # to_byte (0x80 + z) # bs) =
         map_option ((#) (w * 262144 + x * 4096 + y * 64 + z)) (utf8_decode bs)"
proof -
  have "unat (to_byte (0xF0 + w)) = 0xF0 + w" "unat (to_byte (0x80 + x)) = 0x80 + x"
    "unat (to_byte (0x80 + y)) = 0x80 + y" "unat (to_byte (0x80 + z)) = 0x80 + z"
    using assms by auto
  then show ?thesis
    using assms by (auto simp: utf8_decode.simps(2) cont_byte_def simp del: unat_to_byte)
qed

lemma base64_digits:
  fixes c :: nat
  shows "c = c div 64 * 64 + c mod 64"
    and "c = c div 4096 * 4096 + c div 64 mod 64 * 64 + c mod 64"
    and "c = c div 262144 * 262144 + c div 4096 mod 64 * 4096 + c div 64 mod 64 * 64 + c mod 64"
proof -
  have d: "c div 64 div 64 = c div 4096" "c div 4096 div 64 = c div 262144"
    by (simp_all add: div_mult2_eq [symmetric])
  show 1: "c = c div 64 * 64 + c mod 64"
    by (simp add: div_mult_mod_eq)
  have "c div 64 = c div 4096 * 64 + c div 64 mod 64"
    using div_mult_mod_eq [of "c div 64" 64] d by simp
  with 1 show 2: "c = c div 4096 * 4096 + c div 64 mod 64 * 64 + c mod 64"
    by linarith
  have "c div 4096 = c div 262144 * 64 + c div 4096 mod 64"
    using div_mult_mod_eq [of "c div 4096" 64] d by simp
  with 2 show "c = c div 262144 * 262144 + c div 4096 mod 64 * 4096 + c div 64 mod 64 * 64 + c mod 64"
    by linarith
qed

lemma utf8_decode_char:
  assumes "is_scalar c"
  shows "utf8_decode (utf8_char c @ bs) = map_option ((#) c) (utf8_decode bs)"
proof -
  consider "c < 0x80" | "0x80 \<le> c" "c < 0x800" | "0x800 \<le> c" "c < 0x10000"
    | "0x10000 \<le> c" "c \<le> 0x10FFFF"
    using assms by (force simp: is_scalar_def)
  then show ?thesis
  proof cases
    case 1
    then show ?thesis
      by (simp add: utf8_char_def utf8_decode.simps)
  next
    case 2
    define x y where xy: "x = c div 64" "y = c mod 64"
    have c: "c = x * 64 + y" unfolding xy by (rule base64_digits)
    have "2 \<le> x" "x < 32" "y < 64" using 2 unfolding xy by auto
    then have "utf8_decode (utf8_char c @ bs) = map_option ((#) (x * 64 + y)) (utf8_decode bs)"
      using 2 utf8_decode_2 [of x y bs] by (simp add: utf8_char_def xy)
    then show ?thesis unfolding c .
  next
    case 3
    define x y z where xyz: "x = c div 4096" "y = c div 64 mod 64" "z = c mod 64"
    have c: "c = x * 4096 + y * 64 + z" unfolding xyz by (rule base64_digits)
    have "x < 16" "y < 64" "z < 64" using 3 unfolding xyz by auto
    moreover have "x = 0 \<longrightarrow> 32 \<le> y" "x = 13 \<longrightarrow> y < 32"
      using 3 assms \<open>y < 64\<close> \<open>z < 64\<close> unfolding c is_scalar_def is_surrogate_def by auto
    ultimately have "utf8_decode (utf8_char c @ bs) =
        map_option ((#) (x * 4096 + y * 64 + z)) (utf8_decode bs)"
      using 3 utf8_decode_3 [of x y z bs] by (simp add: utf8_char_def xyz)
    then show ?thesis unfolding c .
  next
    case 4
    define w x y z where wxyz: "w = c div 262144" "x = c div 4096 mod 64"
      "y = c div 64 mod 64" "z = c mod 64"
    have c: "c = w * 262144 + x * 4096 + y * 64 + z" unfolding wxyz by (rule base64_digits)
    have "w < 5" "x < 64" "y < 64" "z < 64" using 4 unfolding wxyz by auto
    moreover from this have "w = 0 \<longrightarrow> 16 \<le> x" "w = 4 \<longrightarrow> x < 16"
      using 4 unfolding c by auto
    ultimately have "utf8_decode (utf8_char c @ bs) =
        map_option ((#) (w * 262144 + x * 4096 + y * 64 + z)) (utf8_decode bs)"
      using 4 utf8_decode_4 [of w x y z bs] by (simp add: utf8_char_def wxyz)
    then show ?thesis unfolding c .
  qed
qed

lemma utf8_decode_encode: "utf8_encode s = Inr b \<Longrightarrow> utf8_decode b = Some s"
  unfolding utf8_encode_eq_Inr
  by (induction s arbitrary: b) (auto simp: utf8_decode_char)

lemma utf8_encode_inj: "utf8_encode s = Inr b \<Longrightarrow> utf8_encode t = Inr b \<Longrightarrow> s = t"
  by (metis utf8_decode_encode option.inject)

lemma ascii_is_scalar: "list_all (\<lambda>c. c < 0x80) s \<Longrightarrow> list_all is_scalar s"
  by (induction s) (auto simp: is_scalar_def is_surrogate_def)

lemma utf8_encode_ascii:
  assumes "list_all (\<lambda>c. c < 0x80) s"
  shows "utf8_encode s = Inr (map to_byte s)"
proof -
  from assms have "concat (map utf8_char s) = map to_byte s"
    by (induction s) (auto simp: utf8_char_def)
  with ascii_is_scalar [OF assms] show ?thesis by (simp add: utf8_encode_def)
qed

text \<open>\<^verbatim>\<open>s.encode("ascii")\<close>\<close>

definition ascii_encode :: "pystr \<Rightarrow> bytes res" where
  "ascii_encode s =
     (if list_all (\<lambda>c. c < 0x80) s then Inr (map to_byte s)
      else Inl (Exn UnicodeEncodeError (lit ''ordinal not in range(128)'')))"

lemma ascii_encode_utf8: "ascii_encode s = Inr b \<Longrightarrow> utf8_encode s = Inr b"
  by (auto simp: ascii_encode_def utf8_encode_ascii split: if_splits)

lemma ascii_encode_inj: "ascii_encode s = Inr b \<Longrightarrow> ascii_encode t = Inr b \<Longrightarrow> s = t"
  by (blast intro: utf8_encode_inj ascii_encode_utf8)

lemma length_utf8_char: "1 \<le> length (utf8_char c)" "length (utf8_char c) \<le> 4"
  by (auto simp: utf8_char_def)

end
