(* ===== verification/PyText.thy ===== *)
theory PyText
  imports PyValues
begin

text \<open>
  Decimal and hexadecimal notation: \<^verbatim>\<open>str(int)\<close>, the digits \<^verbatim>\<open>int\<close> reads, \<^verbatim>\<open>bytes.hex\<close> and
  \<^verbatim>\<open>bytes.fromhex\<close>, with their round trips.
\<close>

section \<open>Decimal\<close>

fun dec_nat :: "nat \<Rightarrow> pystr" where
  "dec_nat n = (if n < 10 then [48 + n] else dec_nat (n div 10) @ [48 + n mod 10])"

declare dec_nat.simps [simp del]

definition dec_int :: "int \<Rightarrow> pystr" where
  "dec_int i = (if i < 0 then 45 # dec_nat (nat (- i)) else dec_nat (nat i))"

text \<open>
  CPython refuses to convert integers of more than 4300 digits from or to decimal text
  (\<^verbatim>\<open>sys.get_int_max_str_digits\<close>).
\<close>

definition max_str_digits :: nat where
  "max_str_digits = 4300"

definition int_text :: "int \<Rightarrow> pystr res" where
  "int_text i =
     (if length (dec_nat (nat \<bar>i\<bar>)) > max_str_digits
      then Inl (Exn ValueError (lit ''Exceeds the limit for integer string conversion''))
      else Inr (dec_int i))"

definition is_digit :: "nat \<Rightarrow> bool" where
  "is_digit c \<longleftrightarrow> 48 \<le> c \<and> c \<le> 57"

definition digits_value :: "pystr \<Rightarrow> nat" where
  "digits_value ds = foldl (\<lambda>a d. a * 10 + (d - 48)) 0 ds"

lemma dec_nat_nonempty [simp]: "dec_nat n \<noteq> []"
  by (subst dec_nat.simps) simp

lemma dec_nat_digits: "list_all is_digit (dec_nat n)"
proof (induction n rule: dec_nat.induct)
  case (1 n)
  have "is_digit (48 + n mod 10)" "n < 10 \<Longrightarrow> is_digit (48 + n)"
    by (auto simp: is_digit_def)
  with 1 show ?case
    by (subst dec_nat.simps) auto
qed

lemma digits_value_dec_nat [simp]: "digits_value (dec_nat n) = n"
proof (induction n rule: dec_nat.induct)
  case (1 n)
  show ?case
  proof (cases "n < 10")
    case True
    then show ?thesis by (simp add: dec_nat.simps [of n] digits_value_def)
  next
    case False
    with "1.IH" have "digits_value (dec_nat (n div 10)) = n div 10" by simp
    with False show ?thesis
      by (simp add: dec_nat.simps [of n] digits_value_def)
  qed
qed

text \<open>No leading zero, but for zero itself.\<close>

lemma hd_dec_nat: "n \<noteq> 0 \<Longrightarrow> hd (dec_nat n) \<noteq> 48"
proof (induction n rule: dec_nat.induct)
  case (1 n)
  show ?case
  proof (cases "n < 10")
    case True
    with "1.prems" show ?thesis by (simp add: dec_nat.simps [of n])
  next
    case False
    then have "n div 10 \<noteq> 0" by auto
    with "1.IH" False show ?thesis by (simp add: dec_nat.simps [of n])
  qed
qed

lemma dec_nat_0 [simp]: "dec_nat 0 = [48]"
  by (simp add: dec_nat.simps)

lemma length_dec_nat: "n < 10 ^ k \<Longrightarrow> 0 < k \<Longrightarrow> length (dec_nat n) \<le> k"
proof (induction k arbitrary: n)
  case 0
  then show ?case by simp
next
  case (Suc k)
  show ?case
  proof (cases "n < 10")
    case True
    then show ?thesis by (simp add: dec_nat.simps [of n])
  next
    case False
    with Suc.prems have "n div 10 < 10 ^ k" "0 < k"
      by (auto intro: Nat.gr0I)
    with Suc.IH [of "n div 10"] False show ?thesis
      by (simp add: dec_nat.simps [of n])
  qed
qed

lemma dec_int_nonneg: "0 \<le> i \<Longrightarrow> dec_int i = dec_nat (nat i)"
  by (simp add: dec_int_def)

lemma int_text_small:
  assumes "0 \<le> i" "nat i < 10 ^ k" "0 < k" "k \<le> max_str_digits"
  shows "int_text i = Inr (dec_nat (nat i))"
proof -
  have "length (dec_nat (nat i)) \<le> max_str_digits"
    using length_dec_nat [OF assms(2,3)] assms(4) by simp
  with assms(1) show ?thesis by (simp add: int_text_def dec_int_def)
qed

lemma is_digit_ascii: "is_digit c \<Longrightarrow> c < 0x80"
  by (simp add: is_digit_def)

section \<open>Hexadecimal\<close>

definition hex_digit :: "nat \<Rightarrow> nat" where
  "hex_digit n = (if n < 10 then 48 + n else 87 + n)"

definition hex_value :: "nat \<Rightarrow> nat option" where
  "hex_value c =
     (if 48 \<le> c \<and> c \<le> 57 then Some (c - 48)
      else if 97 \<le> c \<and> c \<le> 102 then Some (c - 87)
      else if 65 \<le> c \<and> c \<le> 70 then Some (c - 55)
      else None)"

definition is_lower_hex :: "nat \<Rightarrow> bool" where
  "is_lower_hex c \<longleftrightarrow> 48 \<le> c \<and> c \<le> 57 \<or> 97 \<le> c \<and> c \<le> 102"

text \<open>\<^verbatim>\<open>b.hex()\<close>\<close>

fun bytes_hex :: "bytes \<Rightarrow> pystr" where
  "bytes_hex [] = []"
| "bytes_hex (b # bs) = hex_digit (unat b div 16) # hex_digit (unat b mod 16) # bytes_hex bs"

text \<open>\<^verbatim>\<open>bytes.fromhex(s)\<close>: digits of either case, with white space between bytes.\<close>

definition ascii_space :: "nat \<Rightarrow> bool" where
  "ascii_space c \<longleftrightarrow> 9 \<le> c \<and> c \<le> 13 \<or> c = 32"

fun fromhex :: "pystr \<Rightarrow> bytes option" where
  "fromhex [] = Some []"
| "fromhex [a] = (if ascii_space a then Some [] else None)"
| "fromhex (a # b # s) =
     (if ascii_space a then fromhex (b # s)
      else
        (case (hex_value a, hex_value b) of
           (Some x, Some y) \<Rightarrow> map_option ((#) (to_byte (x * 16 + y))) (fromhex s)
         | _ \<Rightarrow> None))"

lemma hex_value_digit [simp]: "n < 16 \<Longrightarrow> hex_value (hex_digit n) = Some n"
  by (simp add: hex_value_def hex_digit_def)

lemma hex_digit_lower [simp]: "n < 16 \<Longrightarrow> is_lower_hex (hex_digit n)"
  by (auto simp: is_lower_hex_def hex_digit_def)

lemma lower_hex_not_space: "is_lower_hex c \<Longrightarrow> \<not> ascii_space c"
  by (auto simp: is_lower_hex_def ascii_space_def)

lemma lower_hex_digit: "is_lower_hex c \<Longrightarrow> \<exists>n < 16. c = hex_digit n"
proof -
  assume "is_lower_hex c"
  then have "c - 48 < 16 \<and> c = hex_digit (c - 48) \<or> c - 87 < 16 \<and> c = hex_digit (c - 87)"
    by (auto simp: is_lower_hex_def hex_digit_def)
  then show ?thesis by blast
qed

lemma length_bytes_hex [simp]: "length (bytes_hex b) = 2 * length b"
  by (induction b) auto

lemma bytes_hex_lower: "list_all is_lower_hex (bytes_hex b)"
  by (induction b) (auto simp: div_less_iff_less_mult)

lemma fromhex_bytes_hex [simp]: "fromhex (bytes_hex b) = Some b"
proof (induction b)
  case Nil
  then show ?case by simp
next
  case (Cons b bs)
  have "unat b div 16 < 16" "unat b mod 16 < 16"
    using unat_byte_less [of b] by (auto simp: div_less_iff_less_mult)
  with Cons show ?case by (simp add: lower_hex_not_space)
qed

lemma bytes_hex_inj: "bytes_hex a = bytes_hex b \<longleftrightarrow> a = b"
  by (metis fromhex_bytes_hex option.inject)

text \<open>On canonical digits, of even number, \<^verbatim>\<open>fromhex\<close> succeeds and \<^verbatim>\<open>hex\<close> undoes it.\<close>

lemma fromhex_lower:
  "list_all is_lower_hex s \<Longrightarrow> even (length s) \<Longrightarrow> \<exists>b. fromhex s = Some b \<and> bytes_hex b = s"
proof (induction s rule: fromhex.induct)
  case (3 x y s)
  from "3.prems" obtain m n where mn: "m < 16" "n < 16" "x = hex_digit m" "y = hex_digit n"
    using lower_hex_digit by (metis list.pred_inject(2))
  with "3.prems" "3.IH"(2) obtain b where "fromhex s = Some b" "bytes_hex b = s"
    by (auto simp: lower_hex_not_space)
  with mn show ?case by (simp add: lower_hex_not_space)
qed auto

end
