(* ===== verification/JsonEncode.thy ===== *)
theory JsonEncode
  imports PyText
begin

text \<open>
  \<^verbatim>\<open>json.dumps(obj, separators=(",", ":"), sort_keys=True)\<close> with the two options the sources
  vary, \<open>ensure_ascii\<close> (\<open>ea\<close>) and \<open>allow_nan\<close> (\<open>an\<close>).  The text is produced with the
  exceptions the encoder raises: a value that is not JSON serialisable, keys that cannot be
  ordered or are no JSON keys, a float that is not finite, an integer too long to print, and
  nesting deeper than the interpreter's recursion limit.
\<close>

section \<open>String literals\<close>

definition short_escape :: "nat \<Rightarrow> nat option" where
  "short_escape c =
     (if c = 34 then Some 34        \<comment> \<open>quotation mark\<close>
      else if c = 92 then Some 92   \<comment> \<open>backslash\<close>
      else if c = 10 then Some 110
      else if c = 13 then Some 114
      else if c = 9 then Some 116
      else if c = 12 then Some 102
      else if c = 8 then Some 98
      else None)"

definition u_escape :: "nat \<Rightarrow> pystr" where
  "u_escape n =
     [92, 117, hex_digit (n div 4096 mod 16), hex_digit (n div 256 mod 16),
      hex_digit (n div 16 mod 16), hex_digit (n mod 16)]"

definition escape_char :: "bool \<Rightarrow> nat \<Rightarrow> pystr" where
  "escape_char ea c =
     (case short_escape c of
        Some e \<Rightarrow> [92, e]
      | None \<Rightarrow>
          if ea then
            (if 32 \<le> c \<and> c \<le> 126 then [c]
             else if c < 0x10000 then u_escape c
             else u_escape (0xD800 + (c - 0x10000) div 1024 mod 1024) @
                  u_escape (0xDC00 + (c - 0x10000) mod 1024))
          else if c < 32 then u_escape c else [c])"

definition quote :: "bool \<Rightarrow> pystr \<Rightarrow> pystr" where
  "quote ea s = 34 # concat (map (escape_char ea) s) @ [34]"

section \<open>Floats\<close>

definition float_exponent :: "64 word \<Rightarrow> nat" where
  "float_exponent w = unat (drop_bit 52 w AND 0x7FF)"

definition float_mantissa :: "64 word \<Rightarrow> nat" where
  "float_mantissa w = unat (w AND 0xFFFFFFFFFFFFF)"

definition float_negative :: "64 word \<Rightarrow> bool" where
  "float_negative w \<longleftrightarrow> bit w 63"

definition float_finite :: "64 word \<Rightarrow> bool" where
  "float_finite w \<longleftrightarrow> float_exponent w \<noteq> 0x7FF"

text \<open>
  The numeric value in units of \<open>2^-1074\<close>, exact for finite floats; infinities lie beyond all
  finite values.
\<close>

definition float_units :: "64 word \<Rightarrow> int" where
  "float_units w =
     (if float_negative w then -1 else 1) *
     (if float_exponent w = 0 then int (float_mantissa w)
      else (int (float_mantissa w) + 2 ^ 52) * 2 ^ (float_exponent w - 1))"

definition nonfinite_text :: "64 word \<Rightarrow> pystr" where
  "nonfinite_text w =
     (if float_mantissa w \<noteq> 0 then lit ''NaN''
      else if float_negative w then lit ''-Infinity''
      else lit ''Infinity'')"

definition float_text :: "runtime \<Rightarrow> bool \<Rightarrow> 64 word \<Rightarrow> pystr res" where
  "float_text rt an w =
     (if float_finite w then Inr (float_repr rt w)
      else if an then Inr (nonfinite_text w)
      else Inl (Exn ValueError (lit ''Out of range float values are not JSON compliant'')))"

section \<open>Keys\<close>

text \<open>The text of a key: strings as they are, the other scalars in their JSON notation.\<close>

definition key_text :: "runtime \<Rightarrow> bool \<Rightarrow> pyval \<Rightarrow> pystr res" where
  "key_text rt an k =
     (case k of
        PStr s \<Rightarrow> Inr s
      | PFloat w \<Rightarrow> float_text rt an w
      | PBool b \<Rightarrow> Inr (if b then lit ''true'' else lit ''false'')
      | PNone \<Rightarrow> Inr (lit ''null'')
      | PInt i \<Rightarrow> int_text i
      | _ \<Rightarrow> Inl (Exn TypeError (lit ''keys must be str, int, float, bool or None'')))"

fun str_key :: "pyval \<Rightarrow> pystr option" where
  "str_key (PStr s) = Some s"
| "str_key _ = None"

fun num_key :: "pyval \<Rightarrow> int option" where
  "num_key (PInt i) = Some (i * 2 ^ 1074)"
| "num_key (PBool b) = Some (if b then 2 ^ 1074 else 0)"
| "num_key (PFloat w) = Some (float_units w)"
| "num_key _ = None"

text \<open>
  \<^verbatim>\<open>sorted(dct.items())\<close>: strings among themselves and numbers among themselves are ordered;
  a comparison across them, or with any other key, raises.
\<close>

definition sort_items :: "(pyval \<times> 'a) list \<Rightarrow> (pyval \<times> 'a) list res" where
  "sort_items kvs =
     (if length kvs \<le> 1 then Inr kvs
      else if list_all (\<lambda>(k, _). str_key k \<noteq> None) kvs
      then Inr (sort_key (\<lambda>(k, _). the (str_key k)) kvs)
      else if list_all (\<lambda>(k, _). num_key k \<noteq> None) kvs
      then Inr (sort_key (\<lambda>(k, _). the (num_key k)) kvs)
      else Inl (Exn TypeError (lit ''not supported between instances'')))"

section \<open>The encoder\<close>

fun join :: "pystr \<Rightarrow> pystr list \<Rightarrow> pystr" where
  "join sep [] = []"
| "join sep [t] = t"
| "join sep (t # u # us) = t @ sep @ join sep (u # us)"

definition encode_item :: "runtime \<Rightarrow> bool \<Rightarrow> bool \<Rightarrow> pyval \<times> pystr res \<Rightarrow> pystr res" where
  "encode_item rt ea an kv =
     bindE (key_text rt an (fst kv)) (\<lambda>kt.
     bindE (snd kv) (\<lambda>vt.
       Inr (quote ea kt @ lit '':'' @ vt)))"

definition not_serializable :: "exn" where
  "not_serializable = Exn TypeError (lit ''Object is not JSON serializable'')"

definition too_deep :: "exn" where
  "too_deep = Exn RecursionError (lit ''maximum recursion depth exceeded'')"

function dumps_value :: "runtime \<Rightarrow> bool \<Rightarrow> bool \<Rightarrow> nat \<Rightarrow> pyval \<Rightarrow> pystr res" where
  "dumps_value rt ea an d PNone = Inr (lit ''null'')"
| "dumps_value rt ea an d (PBool b) = Inr (if b then lit ''true'' else lit ''false'')"
| "dumps_value rt ea an d (PInt i) = int_text i"
| "dumps_value rt ea an d (PFloat w) = float_text rt an w"
| "dumps_value rt ea an d (PStr s) = Inr (quote ea s)"
| "dumps_value rt ea an d (PBytes b) = Inl not_serializable"
| "dumps_value rt ea an d PObj = Inl not_serializable"
| "dumps_value rt ea an 0 (PList xs) = Inl too_deep"
| "dumps_value rt ea an (Suc d) (PList xs) =
     bindE (sequenceE (map (dumps_value rt ea an d) xs)) (\<lambda>ts.
       Inr (lit ''['' @ join (lit '','') ts @ lit '']''))"
| "dumps_value rt ea an 0 (PTuple xs) = Inl too_deep"
| "dumps_value rt ea an (Suc d) (PTuple xs) =
     bindE (sequenceE (map (dumps_value rt ea an d) xs)) (\<lambda>ts.
       Inr (lit ''['' @ join (lit '','') ts @ lit '']''))"
| "dumps_value rt ea an 0 (PDict kvs) = Inl too_deep"
| "dumps_value rt ea an (Suc d) (PDict kvs) =
     bindE (sort_items (map (\<lambda>kv. (fst kv, dumps_value rt ea an d (snd kv))) kvs)) (\<lambda>its.
     bindE (sequenceE (map (encode_item rt ea an) its)) (\<lambda>ts.
       Inr (lit ''{'' @ join (lit '','') ts @ lit ''}'')))"
  by pat_completeness auto
termination
  by (relation "measure (\<lambda>(rt, ea, an, d, v). d)") auto

definition dumps :: "runtime \<Rightarrow> bool \<Rightarrow> bool \<Rightarrow> pyval \<Rightarrow> pystr res" where
  "dumps rt ea an v = dumps_value rt ea an (dumps_depth rt) v"

text \<open>A dictionary with string keys, as the decoder and the payload literals of the sources have.\<close>

definition str_dict :: "(pystr \<times> pyval) list \<Rightarrow> pyval" where
  "str_dict kvs = PDict (map (\<lambda>kv. (PStr (fst kv), snd kv)) kvs)"

section \<open>Lemmas\<close>

lemma sort_items_str:
  assumes "sorted_wrt (<) (map fst kvs)"
  shows "sort_items (map (\<lambda>kv. (PStr (fst kv), f (snd kv))) kvs) =
           Inr (map (\<lambda>kv. (PStr (fst kv), f (snd kv))) kvs)"
proof -
  let ?l = "map (\<lambda>kv. (PStr (fst kv), f (snd kv))) kvs"
  have "map (\<lambda>(k, _). the (str_key k)) ?l = map fst kvs"
    by (simp add: comp_def)
  moreover have "sorted (map fst kvs)"
    using assms by (simp add: strict_sorted_iff)
  ultimately have "sorted (map (\<lambda>(k, _). the (str_key k)) ?l)"
    by (simp only:)
  then have "sort_key (\<lambda>(k, _). the (str_key k)) ?l = ?l"
    by (rule sort_key_id_if_sorted)
  then show ?thesis
    by (simp add: sort_items_def list_all_iff)
qed

lemma join_Cons: "us \<noteq> [] \<Longrightarrow> join sep (t # us) = t @ sep @ join sep us"
  by (cases us) auto

lemma key_text_str [simp]: "key_text rt an (PStr s) = Inr s"
  by (simp add: key_text_def)

lemma encode_item_str:
  "encode_item rt ea an (PStr k, Inr t) = Inr (quote ea k @ lit '':'' @ t)"
  by (simp add: encode_item_def)

text \<open>With \<open>ensure_ascii\<close> a string literal is ASCII text, of at most twelve characters a code point.\<close>

lemma hex_digit_ascii: "n < 16 \<Longrightarrow> hex_digit n < 128"
  by (simp add: hex_digit_def)

lemma u_escape_ascii: "list_all (\<lambda>c. c < 128) (u_escape n)"
  by (simp add: u_escape_def hex_digit_ascii)

lemma escape_char_ascii: "list_all (\<lambda>c. c < 128) (escape_char True c)"
  by (auto simp: escape_char_def short_escape_def u_escape_ascii)

lemma quote_ascii: "list_all (\<lambda>c. c < 128) (quote True s)"
  by (induction s) (simp_all add: quote_def escape_char_ascii)

lemma length_u_escape [simp]: "length (u_escape n) = 6"
  by (simp add: u_escape_def)

end
