(* ===== verification/JsonDecode.thy ===== *)
theory JsonDecode
  imports JsonEncode
begin

text \<open>
  \<^verbatim>\<open>json.loads(text, object_pairs_hook=hook, parse_constant=pconst)\<close>: the scanner of the
  standard library on a decoded \<open>str\<close>.  An object is given to \<open>hook\<close> when its closing brace
  is read, innermost first, so that an exception of the hook wins over a syntax error further
  on; \<open>pconst\<close> receives \<^verbatim>\<open>NaN\<close>, \<^verbatim>\<open>Infinity\<close> and \<^verbatim>\<open>-Infinity\<close>.

  The recursion carries a fuel, one unit per scanned value or member.  \<open>loads\<close> starts it with
  twice the length of the text plus one, which is always enough: \<open>loads_fuel\<close> shows that the
  value \<open>out_of_fuel\<close> never comes out.  The depth argument is the interpreter's recursion
  limit: a container below it raises \<^verbatim>\<open>RecursionError\<close>.
\<close>

definition out_of_fuel :: "exn" where
  "out_of_fuel = Exn Exception (lit ''no fuel left'')"

definition json_error :: "exn" where
  "json_error = Exn JSONDecodeError (lit ''invalid JSON'')"

definition is_ws :: "nat \<Rightarrow> bool" where
  "is_ws c \<longleftrightarrow> c = 32 \<or> c = 9 \<or> c = 10 \<or> c = 13"

definition skip_ws :: "pystr \<Rightarrow> pystr" where
  "skip_ws s = dropWhile is_ws s"

section \<open>Strings\<close>

fun hex4 :: "nat \<Rightarrow> nat \<Rightarrow> nat \<Rightarrow> nat \<Rightarrow> nat option" where
  "hex4 a b c d =
     (case (hex_value a, hex_value b, hex_value c, hex_value d) of
        (Some w, Some x, Some y, Some z) \<Rightarrow> Some (((w * 16 + x) * 16 + y) * 16 + z)
      | _ \<Rightarrow> None)"

declare hex4.simps [simp del]

definition is_high :: "nat \<Rightarrow> bool" where
  "is_high u \<longleftrightarrow> 0xD800 \<le> u \<and> u \<le> 0xDBFF"

definition is_low :: "nat \<Rightarrow> bool" where
  "is_low u \<longleftrightarrow> 0xDC00 \<le> u \<and> u \<le> 0xDFFF"

definition simple_escape :: "nat \<Rightarrow> nat option" where
  "simple_escape e =
     (if e = 34 \<or> e = 92 \<or> e = 47 then Some e
      else if e = 98 then Some 8
      else if e = 102 then Some 12
      else if e = 110 then Some 10
      else if e = 114 then Some 13
      else if e = 116 then Some 9
      else None)"

text \<open>The characters of one escape, after the backslash: its code point and the rest.\<close>

definition scan_u :: "pystr \<Rightarrow> (nat \<times> pystr) option" where
  "scan_u s =
     (case s of
        a # b # c # d # r \<Rightarrow> (case hex4 a b c d of Some u \<Rightarrow> Some (u, r) | None \<Rightarrow> None)
      | _ \<Rightarrow> None)"

text \<open>A high surrogate takes a following \<^verbatim>\<open>\u\<close> escape of a low surrogate with it.\<close>

definition scan_pair :: "pystr \<Rightarrow> (nat \<times> pystr) option" where
  "scan_pair s =
     (case scan_u s of
        None \<Rightarrow> None
      | Some (u, r) \<Rightarrow>
          if is_high u then
            (case r of
               x # y # r' \<Rightarrow>
                 if x = 92 \<and> y = 117 then
                   (case scan_u r' of
                      None \<Rightarrow> None
                    | Some (v, r'') \<Rightarrow>
                        if is_low v
                        then Some (0x10000 + (u - 0xD800) * 1024 + (v - 0xDC00), r'')
                        else Some (u, r))
                 else Some (u, r)
             | _ \<Rightarrow> Some (u, r))
          else Some (u, r))"

definition scan_escape :: "pystr \<Rightarrow> (nat \<times> pystr) option" where
  "scan_escape s =
     (case s of
        [] \<Rightarrow> None
      | e # r \<Rightarrow>
          if e = 117 then scan_pair r
          else (case simple_escape e of None \<Rightarrow> None | Some c \<Rightarrow> Some (c, r)))"

lemma scan_u_length: "scan_u s = Some (u, r) \<Longrightarrow> length r < length s"
  by (auto simp: scan_u_def split: list.splits option.splits)

lemma scan_pair_length: "scan_pair s = Some (u, r) \<Longrightarrow> length r < length s"
  by (auto simp: scan_pair_def split: list.splits option.splits if_splits
      dest!: scan_u_length)

lemma scan_escape_length: "scan_escape s = Some (u, r) \<Longrightarrow> length r < length s"
  by (auto simp: scan_escape_def split: list.splits option.splits if_splits
      dest!: scan_pair_length)

text \<open>The rest of a string literal after its opening quotation mark.\<close>

function scanstring :: "pystr \<Rightarrow> (pystr \<times> pystr) option" where
  "scanstring [] = None"
| "scanstring (c # s) =
     (if c = 34 then Some ([], s)
      else if c < 32 then None
      else if c = 92 then
        (case scan_escape s of
           None \<Rightarrow> None
         | Some (u, r) \<Rightarrow> map_option (apfst ((#) u)) (scanstring r))
      else map_option (apfst ((#) c)) (scanstring s))"
  by pat_completeness auto
termination
  by (relation "measure length") (auto dest!: scan_escape_length)

declare scanstring.simps(2) [simp del]

section \<open>Numbers\<close>

definition digit_run :: "pystr \<Rightarrow> pystr \<times> pystr" where
  "digit_run s = (takeWhile is_digit s, dropWhile is_digit s)"

text \<open>
  The parts the scanner matches: sign, integer part, fraction with its point, exponent with
  its letter, and the rest; \<open>None\<close> when no number starts here.
\<close>

definition int_part :: "pystr \<Rightarrow> (pystr \<times> pystr) option" where
  "int_part s =
     (case s of
        [] \<Rightarrow> None
      | c # r \<Rightarrow> if c = 48 then Some ([48], r)
                 else if is_digit c then Some (digit_run s) else None)"

definition frac_part :: "pystr \<Rightarrow> pystr \<times> pystr" where
  "frac_part s =
     (case s of
        [] \<Rightarrow> ([], s)
      | c # r \<Rightarrow> if c = 46 \<and> fst (digit_run r) \<noteq> []
                 then (46 # fst (digit_run r), snd (digit_run r)) else ([], s))"

definition exp_sign :: "pystr \<Rightarrow> pystr \<times> pystr" where
  "exp_sign s =
     (case s of [] \<Rightarrow> ([], s) | c # r \<Rightarrow> if c = 43 \<or> c = 45 then ([c], r) else ([], s))"

definition exp_part :: "pystr \<Rightarrow> pystr \<times> pystr" where
  "exp_part s =
     (case s of
        [] \<Rightarrow> ([], s)
      | c # r \<Rightarrow>
          if (c = 101 \<or> c = 69) \<and> fst (digit_run (snd (exp_sign r))) \<noteq> []
          then (c # fst (exp_sign r) @ fst (digit_run (snd (exp_sign r))),
                snd (digit_run (snd (exp_sign r))))
          else ([], s))"

definition minus_part :: "pystr \<Rightarrow> pystr \<times> pystr" where
  "minus_part s = (case s of [] \<Rightarrow> ([], s) | c # r \<Rightarrow> if c = 45 then ([45], r) else ([], s))"

definition number_parts :: "pystr \<Rightarrow> (pystr \<times> pystr \<times> pystr \<times> pystr \<times> pystr) option" where
  "number_parts s =
     (let (sg, s1) = minus_part s in
      case int_part s1 of
        None \<Rightarrow> None
      | Some (ip, s2) \<Rightarrow>
          let (fr, s3) = frac_part s2; (ex, s4) = exp_part s3 in Some (sg, ip, fr, ex, s4))"

definition scan_number :: "runtime \<Rightarrow> pystr \<Rightarrow> (pyval \<times> pystr) res" where
  "scan_number rt s =
     (case number_parts s of
        None \<Rightarrow> Inl json_error
      | Some (sg, ip, fr, ex, r) \<Rightarrow>
          if fr \<noteq> [] \<or> ex \<noteq> [] then Inr (PFloat (float_parse rt (sg @ ip @ fr @ ex)), r)
          else if length ip > max_str_digits
          then Inl (Exn ValueError (lit ''Exceeds the limit for integer string conversion''))
          else Inr (PInt (if sg = [] then int (digits_value ip) else - int (digits_value ip)), r))"

section \<open>Values\<close>

text \<open>\<open>after p s\<close> is the rest of \<open>s\<close> when \<open>s\<close> starts with \<open>p\<close>.\<close>

definition after :: "pystr \<Rightarrow> pystr \<Rightarrow> pystr option" where
  "after p s = (if take (length p) s = p then Some (drop (length p) s) else None)"

type_synonym hook = "(pystr \<times> pyval) list \<Rightarrow> pyval res"
type_synonym constant_hook = "pystr \<Rightarrow> pyval res"

text \<open>Keywords, constants and numbers.\<close>

definition scan_scalar :: "runtime \<Rightarrow> constant_hook \<Rightarrow> pystr \<Rightarrow> (pyval \<times> pystr) res" where
  "scan_scalar rt pconst s =
     (case after (lit ''null'') s of Some r \<Rightarrow> Inr (PNone, r) | None \<Rightarrow>
     (case after (lit ''true'') s of Some r \<Rightarrow> Inr (PBool True, r) | None \<Rightarrow>
     (case after (lit ''false'') s of Some r \<Rightarrow> Inr (PBool False, r) | None \<Rightarrow>
     (case after (lit ''NaN'') s of
        Some r \<Rightarrow> bindE (pconst (lit ''NaN'')) (\<lambda>v. Inr (v, r)) | None \<Rightarrow>
     (case after (lit ''Infinity'') s of
        Some r \<Rightarrow> bindE (pconst (lit ''Infinity'')) (\<lambda>v. Inr (v, r)) | None \<Rightarrow>
     (case after (lit ''-Infinity'') s of
        Some r \<Rightarrow> bindE (pconst (lit ''-Infinity'')) (\<lambda>v. Inr (v, r)) | None \<Rightarrow>
     scan_number rt s))))))"

fun scan_once ::
    "runtime \<Rightarrow> hook \<Rightarrow> constant_hook \<Rightarrow> nat \<Rightarrow> nat \<Rightarrow> pystr \<Rightarrow> (pyval \<times> pystr) res"
and scan_elements ::
    "runtime \<Rightarrow> hook \<Rightarrow> constant_hook \<Rightarrow> nat \<Rightarrow> nat \<Rightarrow> pystr \<Rightarrow> (pyval list \<times> pystr) res"
and scan_members ::
    "runtime \<Rightarrow> hook \<Rightarrow> constant_hook \<Rightarrow> nat \<Rightarrow> nat \<Rightarrow> pystr \<Rightarrow>
       ((pystr \<times> pyval) list \<times> pystr) res" where
  "scan_once rt hook pconst 0 d s = Inl out_of_fuel"
| "scan_once rt hook pconst (Suc n) d s =
     (case s of
        [] \<Rightarrow> Inl json_error
      | c # r \<Rightarrow>
          if c = 34 then
            (case scanstring r of None \<Rightarrow> Inl json_error | Some (t, r') \<Rightarrow> Inr (PStr t, r'))
          else if c = 123 then
            (case d of
               0 \<Rightarrow> Inl too_deep
             | Suc d' \<Rightarrow>
                 (case after [125] (skip_ws r) of
                    Some r' \<Rightarrow> bindE (hook []) (\<lambda>v. Inr (v, r'))
                  | None \<Rightarrow>
                      bindE (scan_members rt hook pconst n d' (skip_ws r)) (\<lambda>(ps, r').
                      bindE (hook ps) (\<lambda>v. Inr (v, r')))))
          else if c = 91 then
            (case d of
               0 \<Rightarrow> Inl too_deep
             | Suc d' \<Rightarrow>
                 (case after [93] (skip_ws r) of
                    Some r' \<Rightarrow> Inr (PList [], r')
                  | None \<Rightarrow>
                      bindE (scan_elements rt hook pconst n d' (skip_ws r)) (\<lambda>(vs, r').
                        Inr (PList vs, r'))))
          else scan_scalar rt pconst s)"
| "scan_elements rt hook pconst 0 d s = Inl out_of_fuel"
| "scan_elements rt hook pconst (Suc n) d s =
     bindE (scan_once rt hook pconst n d s) (\<lambda>(v, r).
       case skip_ws r of
         [] \<Rightarrow> Inl json_error
       | c # r' \<Rightarrow>
           if c = 93 then Inr ([v], r')
           else if c = 44 then
             bindE (scan_elements rt hook pconst n d (skip_ws r')) (\<lambda>(vs, r''). Inr (v # vs, r''))
           else Inl json_error)"
| "scan_members rt hook pconst 0 d s = Inl out_of_fuel"
| "scan_members rt hook pconst (Suc n) d s =
     (case after [34] s of
        None \<Rightarrow> Inl json_error
      | Some r0 \<Rightarrow>
     (case scanstring r0 of
        None \<Rightarrow> Inl json_error
      | Some (k, r1) \<Rightarrow>
     (case after [58] (skip_ws r1) of
        None \<Rightarrow> Inl json_error
      | Some r2 \<Rightarrow>
          bindE (scan_once rt hook pconst n d (skip_ws r2)) (\<lambda>(v, r).
            case skip_ws r of
              [] \<Rightarrow> Inl json_error
            | c # r' \<Rightarrow>
                if c = 125 then Inr ([(k, v)], r')
                else if c = 44 then
                  bindE (scan_members rt hook pconst n d (skip_ws r')) (\<lambda>(ps, r'').
                    Inr ((k, v) # ps, r''))
                else Inl json_error))))"

definition loads_fuel_for :: "pystr \<Rightarrow> nat" where
  "loads_fuel_for s = 2 * length s + 1"

definition loads :: "runtime \<Rightarrow> hook \<Rightarrow> constant_hook \<Rightarrow> pystr \<Rightarrow> pyval res" where
  "loads rt hook pconst s =
     (if take 1 s = [0xFEFF] then Inl json_error
      else bindE (scan_once rt hook pconst (loads_fuel_for (skip_ws s)) (loads_depth rt) (skip_ws s))
             (\<lambda>(v, r). if skip_ws r = [] then Inr v else Inl json_error))"

section \<open>Scans consume input\<close>

lemma skip_ws_length: "length (skip_ws s) \<le> length s"
  by (simp add: skip_ws_def length_dropWhile_le)

lemma skip_ws_Cons_length: "skip_ws s = c # r \<Longrightarrow> length r < length s"
  using skip_ws_length [of s] by simp

lemma less_skip_ws: "n < length (skip_ws s) \<Longrightarrow> n < length s"
  using skip_ws_length [of s] by simp

lemma scanstring_length: "scanstring s = Some (t, r) \<Longrightarrow> length r < length s"
proof (induction s arbitrary: t r rule: scanstring.induct)
  case (2 c s)
  show ?case
  proof (cases "c = 92")
    case True
    with "2.prems" obtain u r0 t0 where e: "scan_escape s = Some (u, r0)"
      "scanstring r0 = Some (t0, r)"
      by (auto simp: scanstring.simps(2) split: option.splits)
    with True "2.IH"(1) have "length r < length r0" by auto
    with scan_escape_length [OF e(1)] show ?thesis by simp
  next
    case False
    then show ?thesis
      using 2 by (auto simp: scanstring.simps(2) less_SucI split: if_splits)
  qed
qed simp

lemma after_eq_Some: "after p s = Some r \<longleftrightarrow> s = p @ r"
  unfolding after_def using append_take_drop_id [of "length p" s] by (auto simp del: append_take_drop_id)

lemma int_part_length: "int_part s = Some (p, r) \<Longrightarrow> length r < length s"
  by (auto simp: int_part_def digit_run_def split: list.splits if_splits)
    (meson le_imp_less_Suc length_dropWhile_le)

lemma part_lengths:
  "length (snd (minus_part s)) \<le> length s"
  "length (snd (frac_part s)) \<le> length s"
  "length (snd (exp_sign s)) \<le> length s"
  by (auto simp: minus_part_def frac_part_def exp_sign_def digit_run_def split: list.splits)
    (meson le_SucI length_dropWhile_le)

lemma exp_part_length: "length (snd (exp_part s)) \<le> length s"
proof (cases s)
  case (Cons c r)
  have "length (dropWhile is_digit (snd (exp_sign r))) \<le> length r"
    using length_dropWhile_le part_lengths(3) order_trans by blast
  with Cons show ?thesis by (simp add: exp_part_def digit_run_def)
qed (simp add: exp_part_def)

lemma number_parts_length:
  assumes "number_parts s = Some (sg, ip, fr, ex, r)"
  shows "length r < length s"
proof -
  obtain s2 where 2: "int_part (snd (minus_part s)) = Some (ip, s2)"
    and r: "r = snd (exp_part (snd (frac_part s2)))"
    using assms by (auto simp: number_parts_def split: prod.splits option.splits)
  show ?thesis
    using part_lengths(1) [of s] int_part_length [OF 2] part_lengths(2) [of s2]
      exp_part_length [of "snd (frac_part s2)"] unfolding r by linarith
qed

lemma scan_number_length: "scan_number rt s = Inr (v, r) \<Longrightarrow> length r < length s"
  by (auto simp: scan_number_def split: option.splits prod.splits if_splits
      dest: number_parts_length)

lemma scan_scalar_length: "scan_scalar rt pc s = Inr (v, r) \<Longrightarrow> length r < length s"
  by (auto simp: scan_scalar_def res_simps split: option.splits
      simp: after_eq_Some dest!: scan_number_length)

lemma scan_elements_SucE:
  assumes "scan_elements rt hook pc (Suc n) d s = Inr (vs, r)"
  obtains (last) v r0 where "scan_once rt hook pc n d s = Inr (v, r0)" "skip_ws r0 = 93 # r" "vs = [v]"
  | (more) v r0 r' ws where "scan_once rt hook pc n d s = Inr (v, r0)" "skip_ws r0 = 44 # r'"
      "scan_elements rt hook pc n d (skip_ws r') = Inr (ws, r)" "vs = v # ws"
proof -
  obtain v r0 where o: "scan_once rt hook pc n d s = Inr (v, r0)"
    using assms by (auto simp: res_simps)
  obtain c r' where w: "skip_ws r0 = c # r'"
    using assms o by (cases "skip_ws r0") auto
  show thesis
    using assms o w that by (auto simp: res_simps split: if_splits)
qed

lemma scan_members_SucE:
  assumes "scan_members rt hook pc (Suc n) d s = Inr (ps, r)"
  obtains k s1 s2 v r0 c r' where
    "s = 34 # s1" "scanstring s1 = Some (k, s2)" "\<exists>s3. skip_ws s2 = 58 # s3 \<and>
     scan_once rt hook pc n d (skip_ws s3) = Inr (v, r0)" "skip_ws r0 = c # r'"
    "c = 125 \<and> ps = [(k, v)] \<and> r = r' \<or>
     c = 44 \<and> (\<exists>qs. scan_members rt hook pc n d (skip_ws r') = Inr (qs, r) \<and> ps = (k, v) # qs)"
proof -
  obtain s1 k s2 s3 v r0 where o: "s = 34 # s1" "scanstring s1 = Some (k, s2)"
    "skip_ws s2 = 58 # s3" "scan_once rt hook pc n d (skip_ws s3) = Inr (v, r0)"
    using assms by (auto simp: res_simps after_eq_Some split: option.splits)
  obtain c r' where w: "skip_ws r0 = c # r'"
    using assms o by (cases "skip_ws r0") (auto simp: after_def)
  show thesis
    using assms o w that [of s1 k s2 v r0 c r'] by (auto simp: res_simps after_def split: if_splits)
qed

text \<open>Every scan consumes input.\<close>

lemma scan_length:
  shows scan_once_length: "scan_once rt hook pc n d s = Inr (v, r) \<Longrightarrow> length r < length s"
    and scan_elements_length: "scan_elements rt hook pc n d s = Inr (vs, r) \<Longrightarrow> length r < length s"
    and scan_members_length: "scan_members rt hook pc n d s = Inr (ps, r) \<Longrightarrow> length r < length s"
proof (induction n arbitrary: d s v r vs ps)
  case (Suc n)
  {
    case 1
    then show ?case
      by (auto simp: res_simps after_eq_Some split: list.splits if_splits option.splits nat.splits
        dest!: Suc.IH scanstring_length scan_scalar_length skip_ws_Cons_length less_skip_ws)
  next
    case 2
    then show ?case
      by (cases rule: scan_elements_SucE) (auto dest!: Suc.IH skip_ws_Cons_length less_skip_ws)
  next
    case 3
    then show ?case
      by (rule scan_members_SucE)
        (auto dest!: Suc.IH scanstring_length skip_ws_Cons_length less_skip_ws)
  }
qed auto
text \<open>
  Enough fuel: a scan of a text of length \<open>l\<close> with more than \<open>2 * l\<close> units never runs out,
  provided the hooks do not raise the model's own \<open>out_of_fuel\<close>.
\<close>

lemma json_error_fuel [simp]: "json_error \<noteq> out_of_fuel" "too_deep \<noteq> out_of_fuel"
  by (simp_all add: json_error_def too_deep_def out_of_fuel_def)

lemma scan_number_fuel: "scan_number rt s \<noteq> Inl out_of_fuel"
  by (auto simp: scan_number_def out_of_fuel_def json_error_def split: option.splits prod.splits)

lemma scan_scalar_fuel: "(\<And>t. pc t \<noteq> Inl out_of_fuel) \<Longrightarrow> scan_scalar rt pc s \<noteq> Inl out_of_fuel"
  by (auto simp: scan_scalar_def res_simps scan_number_fuel split: option.splits)

lemma scan_fuel:
  assumes hooks: "\<And>ps. hook ps \<noteq> Inl out_of_fuel" "\<And>t. pc t \<noteq> Inl out_of_fuel"
  shows scan_once_fuel: "2 * length s < n \<Longrightarrow> scan_once rt hook pc n d s \<noteq> Inl out_of_fuel"
    and scan_elements_fuel:
      "2 * length s + 1 < n \<Longrightarrow> scan_elements rt hook pc n d s \<noteq> Inl out_of_fuel"
    and scan_members_fuel:
      "2 * length s + 1 < n \<Longrightarrow> scan_members rt hook pc n d s \<noteq> Inl out_of_fuel"
proof (induction n arbitrary: d s)
  case (Suc n)
  {
    case 1
    show ?case
    proof (cases s)
      case (Cons c r)
      with 1 have "2 * length (skip_ws r) + 1 < n"
        using skip_ws_length [of r] by simp
      with Suc.IH(2,3) Cons show ?thesis
        by (auto simp: res_simps hooks scan_scalar_fuel split: option.splits nat.splits)
    qed simp
  next
    case 2
    then have once: "scan_once rt hook pc n d s \<noteq> Inl out_of_fuel"
      by (intro Suc.IH) simp
    {
      fix v r0 c r'
      assume "scan_once rt hook pc n d s = Inr (v, r0)" "skip_ws r0 = c # r'"
      with 2 have "2 * length (skip_ws r') + 1 < n"
        using skip_ws_length [of r'] scan_once_length skip_ws_Cons_length by fastforce
      then have "scan_elements rt hook pc n d (skip_ws r') \<noteq> Inl out_of_fuel"
        by (rule Suc.IH)
    }
    with once show ?case
      by (auto simp: res_simps split: list.splits)
  next
    case 3
    {
      fix k s1 s2 s3
      assume *: "s = 34 # s1" "scanstring s1 = Some (k, s2)" "skip_ws s2 = 58 # s3"
      then have l: "length (skip_ws s3) < length s"
        using scanstring_length [OF *(2)] skip_ws_Cons_length [OF *(3)] skip_ws_length [of s3]
        by simp
      with 3 have "scan_once rt hook pc n d (skip_ws s3) \<noteq> Inl out_of_fuel"
        by (intro Suc.IH) simp
      moreover {
        fix v r0 c r'
        assume "scan_once rt hook pc n d (skip_ws s3) = Inr (v, r0)" "skip_ws r0 = c # r'"
        with l 3 have "2 * length (skip_ws r') + 1 < n"
          using skip_ws_length [of r'] scan_once_length skip_ws_Cons_length by fastforce
        then have "scan_members rt hook pc n d (skip_ws r') \<noteq> Inl out_of_fuel"
          by (rule Suc.IH)
      }
      ultimately have "bindE (scan_once rt hook pc n d (skip_ws s3)) (\<lambda>(v, r).
            case skip_ws r of
              [] \<Rightarrow> Inl json_error
            | c # r' \<Rightarrow>
                if c = 125 then Inr ([(k, v)], r')
                else if c = 44 then
                  bindE (scan_members rt hook pc n d (skip_ws r')) (\<lambda>(ps, r'').
                    Inr ((k, v) # ps, r''))
                else Inl json_error) \<noteq> Inl out_of_fuel"
        by (auto simp: res_simps split: list.splits)
    }
    then show ?case
      by (auto simp: after_eq_Some split: option.splits)
  }
qed auto

lemma loads_fuel:
  assumes "\<And>ps. hook ps \<noteq> Inl out_of_fuel" "\<And>t. pc t \<noteq> Inl out_of_fuel"
  shows "loads rt hook pc s \<noteq> Inl out_of_fuel"
proof -
  have "scan_once rt hook pc (loads_fuel_for u) d u \<noteq> Inl out_of_fuel" for u d
    by (rule scan_once_fuel [OF assms]) (simp add: loads_fuel_for_def)
  then show ?thesis
    by (auto simp: loads_def res_simps)
qed

text \<open>
  What the decoder raises: its own exceptions and those of the hooks.  \<open>P\<close> is any property of
  exceptions that holds of these.
\<close>

definition digits_error :: "exn" where
  "digits_error = Exn ValueError (lit ''Exceeds the limit for integer string conversion'')"

lemma scan_number_errors:
  "scan_number rt s = Inl e \<Longrightarrow> e = json_error \<or> e = digits_error"
  by (auto simp: scan_number_def digits_error_def split: option.splits prod.splits if_splits)

lemma scan_scalar_errors:
  "scan_scalar rt pc s = Inl e \<Longrightarrow> e = json_error \<or> e = digits_error \<or> (\<exists>t. pc t = Inl e)"
  using scan_number_errors
  by (fastforce simp: scan_scalar_def res_simps split: option.splits)

lemma scan_errors:
  assumes P: "P json_error" "P digits_error" "P too_deep" "P out_of_fuel"
    and hooks: "\<And>ps e. hook ps = Inl e \<Longrightarrow> P e" "\<And>t e. pc t = Inl e \<Longrightarrow> P e"
  shows "scan_once rt hook pc n d s = Inl e \<Longrightarrow> P e"
    and "scan_elements rt hook pc n d s = Inl e \<Longrightarrow> P e"
    and "scan_members rt hook pc n d s = Inl e \<Longrightarrow> P e"
proof (induction n arbitrary: d s e)
  case (Suc n)
  have tail: "P e" if "(case skip_ws r of [] \<Rightarrow> Inl json_error
        | c # r' \<Rightarrow> if c = q then Inr (f r') else if c = 44 then bindE (g (skip_ws r')) h
                     else Inl json_error) = Inl e"
      and "\<And>s e. g s = Inl e \<Longrightarrow> P e" "\<And>x. \<exists>y. h x = Inr y"
    for r q e and f :: "pystr \<Rightarrow> 'b" and g :: "pystr \<Rightarrow> 'c res" and h
  proof -
    have "h x \<noteq> Inl e" for x using that(3) [of x] by auto
    then show ?thesis
      using that(1,2) P(1) by (cases "skip_ws r") (auto simp: bindE_eq_Inl split: if_splits)
  qed
  {
    case 1
    with Suc.IH(2,3) P hooks scan_scalar_errors [of rt pc s] show ?case
      by (auto simp: res_simps split: option.splits nat.splits list.splits if_splits)
  next
    case 2
    show ?case
    proof (cases "scan_once rt hook pc n d s")
      case (Inr vr)
      with 2 show ?thesis
        by (cases vr) (auto intro: Suc.IH(2) elim!: tail)
    qed (use 2 Suc.IH(1) in auto)
  next
    case 3
    have "P e'" if "bindE (scan_once rt hook pc n d u) (\<lambda>(v, r). case skip_ws r of [] \<Rightarrow> Inl json_error
        | c # r' \<Rightarrow> if c = 125 then Inr ([(k, v)], r')
            else if c = 44 then bindE (scan_members rt hook pc n d (skip_ws r'))
                   (\<lambda>(ps, r''). Inr ((k, v) # ps, r''))
            else Inl json_error) = Inl e'" for u k e'
    proof (cases "scan_once rt hook pc n d u")
      case (Inr vr)
      with that show ?thesis
        by (cases vr) (auto intro: Suc.IH(3) elim!: tail)
    qed (use that Suc.IH(1) in auto)
    with 3 P show ?case
      by (auto split: option.splits)
  }
qed (use P in auto)

lemma loads_errors:
  assumes "loads rt hook pc s = Inl e"
    and "\<And>ps. hook ps \<noteq> Inl out_of_fuel" "\<And>t. pc t \<noteq> Inl out_of_fuel"
  shows "cls e \<in> {JSONDecodeError, ValueError, RecursionError} \<or> (\<exists>ps. hook ps = Inl e) \<or>
    (\<exists>t. pc t = Inl e)"
proof -
  let ?P = "\<lambda>e. e = out_of_fuel \<or> cls e \<in> {JSONDecodeError, ValueError, RecursionError} \<or>
    (\<exists>ps. hook ps = Inl e) \<or> (\<exists>t. pc t = Inl e)"
  have "?P e" if "scan_once rt hook pc n d u = Inl e" for n d u e
    by (rule scan_errors(1) [where P = ?P, OF _ _ _ _ _ _ that])
      (auto simp: json_error_def digits_error_def too_deep_def)
  then have "?P e"
    using assms(1) by (auto simp: loads_def res_simps json_error_def split: if_splits)
  moreover have "e \<noteq> out_of_fuel"
    using loads_fuel [OF assms(2,3), of rt] assms(1) by auto
  ultimately show ?thesis by blast
qed

end
