(* ===== verification/JsonRoundTrip.thy ===== *)
theory JsonRoundTrip
  imports JsonDecode
begin

text \<open>
  The decoder undoes the encoder on canonical values: those whose dictionaries have string keys
  in ascending order, whose strings hold no surrogates, whose integers print and whose floats
  are finite.  The contract of an \<^verbatim>\<open>object_pairs_hook\<close> is the locale \<open>pairs_hook\<close>; the three
  modules that parse JSON interpret it with their own \<^verbatim>\<open>_reject_duplicate_keys\<close>.
\<close>

section \<open>Duplicate keys\<close>

text \<open>
  The loop of the \<^verbatim>\<open>_reject_duplicate_keys\<close> functions, which differ only in the exception they
  raise: \<open>acc\<close> is the dictionary built so far.
\<close>

fun collect_pairs ::
    "(pystr \<Rightarrow> exn) \<Rightarrow> (pystr \<times> pyval) list \<Rightarrow> (pystr \<times> pyval) list \<Rightarrow> pyval res" where
  "collect_pairs dup acc [] = Inr (str_dict acc)"
| "collect_pairs dup acc ((key, val) # ps) =
     (if key \<in> fst ` set acc then Inl (dup key)
      else collect_pairs dup (acc @ [(key, val)]) ps)"

lemma collect_pairs_distinct:
  "distinct (map fst (acc @ ps)) \<Longrightarrow> collect_pairs dup acc ps = Inr (str_dict (acc @ ps))"
proof (induction ps arbitrary: acc)
  case (Cons p ps)
  obtain k v where p: "p = (k, v)" by (cases p)
  from Cons.prems p have "k \<notin> fst ` set acc" by (auto simp: rev_image_eqI)
  with Cons p show ?case by simp
qed simp

lemma collect_pairs_duplicate:
  "distinct (map fst acc) \<Longrightarrow> \<not> distinct (map fst (acc @ ps)) \<Longrightarrow>
     \<exists>k. collect_pairs dup acc ps = Inl (dup k)"
proof (induction ps arbitrary: acc)
  case (Cons p ps)
  obtain k v where p: "p = (k, v)" by (cases p)
  show ?case
  proof (cases "k \<in> fst ` set acc")
    case False
    with Cons.prems p have "distinct (map fst (acc @ [p]))"
      "\<not> distinct (map fst ((acc @ [p]) @ ps))" by auto
    from Cons.IH [OF this] p False show ?thesis by simp
  qed (auto simp: p)
qed simp

text \<open>What the callers of the parser rely on.\<close>

locale pairs_hook =
  fixes hook :: "(pystr \<times> pyval) list \<Rightarrow> pyval res"
    and err :: exn_class
  assumes hook_distinct: "distinct (map fst ps) \<Longrightarrow> hook ps = Inr (str_dict ps)"
    and hook_duplicate:
      "\<not> distinct (map fst ps) \<Longrightarrow> \<exists>m. hook ps = Inl (Exn err m)"
    and err_proper: "err \<noteq> Exception"

section \<open>Canonical values\<close>

definition float_canonical :: "runtime \<Rightarrow> 64 word \<Rightarrow> bool" where
  "float_canonical rt w \<longleftrightarrow>
     float_finite w \<and> float_parse rt (float_repr rt w) = w \<and>
     list_all (\<lambda>c. c < 128) (float_repr rt w) \<and>
     (case number_parts (float_repr rt w) of
        None \<Rightarrow> False
      | Some (sg, ip, fr, ex, r) \<Rightarrow>
          r = [] \<and> (fr \<noteq> [] \<or> ex \<noteq> []) \<and> sg @ ip @ fr @ ex = float_repr rt w)"

definition int_prints :: "int \<Rightarrow> bool" where
  "int_prints i \<longleftrightarrow> length (dec_nat (nat \<bar>i\<bar>)) \<le> max_str_digits"

function canonical :: "runtime \<Rightarrow> nat \<Rightarrow> pyval \<Rightarrow> bool" where
  "canonical rt d PNone = True"
| "canonical rt d (PBool b) = True"
| "canonical rt d (PInt i) = int_prints i"
| "canonical rt d (PFloat w) = float_canonical rt w"
| "canonical rt d (PStr s) = list_all is_scalar s"
| "canonical rt d (PBytes b) = False"
| "canonical rt d (PTuple xs) = False"
| "canonical rt d PObj = False"
| "canonical rt 0 (PList xs) = False"
| "canonical rt (Suc d) (PList xs) = list_all (canonical rt d) xs"
| "canonical rt 0 (PDict kvs) = False"
| "canonical rt (Suc d) (PDict kvs) =
     (list_all (\<lambda>kv. case str_key (fst kv) of None \<Rightarrow> False | Some s \<Rightarrow> list_all is_scalar s) kvs \<and>
      sorted_wrt (<) (map (\<lambda>kv. the (str_key (fst kv))) kvs) \<and>
      list_all (\<lambda>kv. canonical rt d (snd kv)) kvs)"
  by pat_completeness auto
termination
  by (relation "measure (\<lambda>(rt, d, v). d)") auto

lemma canonical_dictE:
  assumes "canonical rt (Suc d) (PDict kvs)"
  obtains ps where "kvs = map (\<lambda>kv. (PStr (fst kv), snd kv)) ps"
    "sorted_wrt (<) (map fst ps)" "\<forall>kv \<in> set ps. list_all is_scalar (fst kv)"
    "\<forall>kv \<in> set ps. canonical rt d (snd kv)"
proof -
  let ?ps = "map (\<lambda>kv. (the (str_key (fst kv)), snd kv)) kvs"
  have k: "\<exists>s. fst kv = PStr s \<and> list_all is_scalar s" if "kv \<in> set kvs" for kv
    using assms that by (cases "fst kv") (auto simp: list_all_iff split: option.splits)
  have "kvs = map (\<lambda>kv. (PStr (fst kv), snd kv)) ?ps"
    by (rule sym, simp add: comp_def, rule map_idI) (use k in force)
  moreover have "sorted_wrt (<) (map fst ?ps)"
    using assms by (simp add: comp_def)
  moreover have "\<forall>kv \<in> set ?ps. list_all is_scalar (fst kv)"
    using k by fastforce
  moreover have "\<forall>kv \<in> set ?ps. canonical rt d (snd kv)"
    using assms by (auto simp: list_all_iff)
  ultimately show thesis by (rule that)
qed

lemma canonical_str_dict:
  "canonical rt (Suc d) (str_dict ps) \<longleftrightarrow>
     list_all (\<lambda>kv. list_all is_scalar (fst kv)) ps \<and> sorted_wrt (<) (map fst ps) \<and>
     list_all (\<lambda>kv. canonical rt d (snd kv)) ps"
  by (simp add: str_dict_def list_all_iff comp_def)

section \<open>String literals\<close>

lemma is_scalar_not_surrogate: "is_scalar c \<Longrightarrow> \<not> is_high c" "is_scalar c \<Longrightarrow> \<not> is_low c"
  by (auto simp: is_scalar_def is_surrogate_def is_high_def is_low_def)

lemma hex4_u_escape:
  assumes "n < 0x10000"
  shows "hex4 (hex_digit (n div 4096 mod 16)) (hex_digit (n div 256 mod 16))
           (hex_digit (n div 16 mod 16)) (hex_digit (n mod 16)) = Some n"
proof -
  define w x y z where wxyz: "w = n div 4096 mod 16" "x = n div 256 mod 16"
    "y = n div 16 mod 16" "z = n mod 16"
  have 1: "n div 256 * 16 + y = n div 16"
    using div_mult_mod_eq [of "n div 16" 16] by (simp add: div_mult2_eq [symmetric] wxyz)
  have "n div 4096 * 16 + x = n div 256"
    using div_mult_mod_eq [of "n div 256" 16] by (simp add: div_mult2_eq [symmetric] wxyz)
  moreover have "n div 4096 = w" using assms by (simp add: wxyz)
  ultimately have 2: "w * 16 + x = n div 256" by simp
  have "((w * 16 + x) * 16 + y) * 16 + z = n"
    unfolding 2 1 using div_mult_mod_eq [of n 16] by (simp add: wxyz)
  moreover have "w < 16" "x < 16" "y < 16" "z < 16" by (simp_all add: wxyz)
  ultimately show ?thesis unfolding wxyz [symmetric] by (simp add: hex4.simps)
qed

lemma u_escapeE:
  assumes "n < 0x10000"
  obtains t where "u_escape n = 92 # 117 # t" "\<forall>r. scan_u (t @ r) = Some (n, r)"
  using hex4_u_escape [OF assms] by (auto simp: scan_u_def u_escape_def)

lemma scanstring_u_escape:
  assumes "n < 0x10000" "\<not> is_high n"
  shows "scanstring (u_escape n @ r) = map_option (apfst ((#) n)) (scanstring r)"
proof -
  obtain t where t: "u_escape n = 92 # 117 # t" "\<forall>r. scan_u (t @ r) = Some (n, r)"
    by (rule u_escapeE [OF assms(1)])
  with assms(2) show ?thesis
    by (simp add: scanstring.simps(2) scan_escape_def scan_pair_def)
qed

lemma scanstring_surrogate_pair:
  assumes "is_high u" "is_low v"
  shows "scanstring (u_escape u @ u_escape v @ r) =
           map_option (apfst ((#) (0x10000 + (u - 0xD800) * 1024 + (v - 0xDC00)))) (scanstring r)"
proof -
  have "u < 0x10000" "v < 0x10000" using assms by (auto simp: is_high_def is_low_def)
  then obtain s t where s: "u_escape u = 92 # 117 # s" "\<forall>r. scan_u (s @ r) = Some (u, r)"
    and t: "u_escape v = 92 # 117 # t" "\<forall>r. scan_u (t @ r) = Some (v, r)"
    using u_escapeE by metis
  with assms show ?thesis
    by (simp add: scanstring.simps(2) scan_escape_def scan_pair_def)
qed

lemma scanstring_escape_char:
  assumes "is_scalar c"
  shows "scanstring (escape_char ea c @ r) = map_option (apfst ((#) c)) (scanstring r)"
proof (cases "short_escape c")
  case (Some e)
  then show ?thesis
    by (auto simp: escape_char_def short_escape_def scanstring.simps(2) scan_escape_def
        simple_escape_def split: if_splits)
next
  case None
  then have ne: "c \<noteq> 34" "c \<noteq> 92" by (auto simp: short_escape_def split: if_splits)
  show ?thesis
  proof (cases "c < 0x10000")
    case True
    with assms ne None show ?thesis
      by (auto simp: escape_char_def scanstring_u_escape is_scalar_not_surrogate
          scanstring.simps(2))
  next
    case False
    define u v where uv: "u = 0xD800 + (c - 0x10000) div 1024 mod 1024"
      "v = 0xDC00 + (c - 0x10000) mod 1024"
    have uv_bounds: "is_high u" "is_low v" by (auto simp: uv is_high_def is_low_def)
    have "c - 0x10000 < 1024 * 1024" using assms False by (auto simp: is_scalar_def)
    then have "(c - 0x10000) div 1024 mod 1024 * 1024 + (c - 0x10000) mod 1024 = c - 0x10000"
      using div_mult_mod_eq [of "c - 0x10000" 1024] by (simp add: less_mult_imp_div_less)
    with False have c: "0x10000 + (u - 0xD800) * 1024 + (v - 0xDC00) = c"
      unfolding uv by simp
    have "escape_char ea c = (if ea then u_escape u @ u_escape v else [c])"
      using False None by (auto simp: escape_char_def uv)
    then show ?thesis
      using False ne scanstring_surrogate_pair [OF uv_bounds, of r]
      by (auto simp: scanstring.simps(2) c)
  qed
qed

lemma scanstring_quote:
  "list_all is_scalar s \<Longrightarrow> scanstring (concat (map (escape_char ea) s) @ 34 # r) = Some (s, r)"
  by (induction s) (simp_all add: scanstring.simps(2) scanstring_escape_char)

section \<open>Numbers\<close>

text \<open>What may follow a value in the encoder's output: nothing, a comma or a closing bracket.\<close>

definition follow :: "pystr \<Rightarrow> bool" where
  "follow r \<longleftrightarrow> r = [] \<or> hd r = 44 \<or> hd r = 93 \<or> hd r = 125"

lemma follow_simps [simp]: "follow []" "follow (44 # r)" "follow (93 # r)" "follow (125 # r)"
  by (simp_all add: follow_def)

lemma digit_run_append:
  assumes "follow r"
  shows "digit_run (s @ r) = (fst (digit_run s), snd (digit_run s) @ r)"
proof -
  have "takeWhile is_digit r = []" "dropWhile is_digit r = r"
    using assms by (cases r; auto simp: follow_def is_digit_def)+
  then show ?thesis by (induction s) (simp_all add: digit_run_def)
qed

lemma int_part_append:
  "int_part s = Some (p, q) \<Longrightarrow> follow r \<Longrightarrow> int_part (s @ r) = Some (p, q @ r)"
  using digit_run_append [of r s]
  by (cases s) (auto simp: int_part_def split: if_splits)

lemma follow_parts:
  assumes "follow r"
  shows "frac_part r = ([], r)" "exp_sign r = ([], r)" "exp_part r = ([], r)"
  using assms by (cases r; auto simp: follow_def frac_part_def exp_sign_def exp_part_def)+

lemma frac_part_append:
  assumes "follow r"
  shows "frac_part (s @ r) = (fst (frac_part s), snd (frac_part s) @ r)"
proof (cases s)
  case Nil
  with follow_parts [OF assms] show ?thesis by (simp add: frac_part_def [of "[]"])
qed (simp add: frac_part_def digit_run_append [OF assms])

lemma exp_sign_append:
  assumes "follow r"
  shows "exp_sign (s @ r) = (fst (exp_sign s), snd (exp_sign s) @ r)"
proof (cases s)
  case Nil
  with follow_parts [OF assms] show ?thesis by (simp add: exp_sign_def [of "[]"])
qed (simp add: exp_sign_def)

lemma exp_part_append:
  assumes "follow r"
  shows "exp_part (s @ r) = (fst (exp_part s), snd (exp_part s) @ r)"
proof (cases s)
  case Nil
  with follow_parts [OF assms] show ?thesis by (simp add: exp_part_def [of "[]"])
qed (simp add: exp_part_def exp_sign_append [OF assms] digit_run_append [OF assms])

lemma minus_part_append:
  "s \<noteq> [] \<Longrightarrow> minus_part (s @ r) = (fst (minus_part s), snd (minus_part s) @ r)"
  by (cases s) (auto simp: minus_part_def)

lemma number_parts_append:
  assumes "number_parts s = Some (sg, ip, fr, ex, q)" "follow r"
  shows "number_parts (s @ r) = Some (sg, ip, fr, ex, q @ r)"
proof -
  have "s \<noteq> []" using assms(1) by (auto simp: number_parts_def minus_part_def int_part_def)
  with assms show ?thesis
    by (auto simp: number_parts_def minus_part_append int_part_append frac_part_append
        exp_part_append split: option.splits prod.splits)
qed

lemma number_parts_dec_int:
  "number_parts (dec_int i) = Some (if i < 0 then [45] else [], dec_nat (nat \<bar>i\<bar>), [], [], [])"
proof -
  have d: "int_part (dec_nat n) = Some (dec_nat n, [])" for n
  proof (cases "n = 0")
    case True
    then show ?thesis by (simp add: int_part_def)
  next
    case False
    have "digit_run (dec_nat n) = (dec_nat n, [])"
      using dec_nat_digits [of n]
      by (simp add: digit_run_def list_all_iff)
    with False hd_dec_nat [of n] dec_nat_digits [of n] show ?thesis
      by (cases "dec_nat n") (auto simp: int_part_def)
  qed
  have m: "minus_part (dec_nat n) = ([], dec_nat n)" for n
    using dec_nat_digits [of n]
    by (cases "dec_nat n") (auto simp: minus_part_def is_digit_def)
  have "minus_part (45 # s) = ([45], s)" "frac_part [] = ([], [])" "exp_part [] = ([], [])" for s
    by (simp_all add: minus_part_def frac_part_def exp_part_def)
  then show ?thesis
    by (simp add: number_parts_def dec_int_def d m)
qed

text \<open>A number is read as one: it starts with no keyword.\<close>

lemma scan_scalar_number:
  assumes "number_parts s = Some p"
  shows "scan_scalar rt pc s = scan_number rt s" and "\<exists>c r. s = c # r \<and> (c = 45 \<or> is_digit c)"
proof -
  have dig: "\<exists>c r. u = c # r \<and> is_digit c" if "int_part u = Some q" for u q
    using that by (auto simp: int_part_def is_digit_def split: list.splits if_splits)
  obtain q where "int_part (snd (minus_part s)) = Some q"
    using assms by (auto simp: number_parts_def split: option.splits prod.splits)
  from dig [OF this] obtain c r where cr: "snd (minus_part s) = c # r" "is_digit c" by blast
  then have s: "s = c # r \<or> s = 45 # c # r"
    by (auto simp: minus_part_def split: list.splits if_splits)
  from s cr(2) show "scan_scalar rt pc s = scan_number rt s"
    by (auto simp: scan_scalar_def after_def lit_def is_digit_def)
  from s cr(2) show "\<exists>c r. s = c # r \<and> (c = 45 \<or> is_digit c)" by blast
qed

lemma scan_once_number:
  assumes "number_parts t = Some p"
  shows "scan_once rt hook pc (Suc n) d t = scan_number rt t"
  using scan_scalar_number [OF assms] by (auto simp: is_digit_def)

section \<open>Values\<close>

text \<open>
  \<open>reads_back\<close>: the text \<open>t\<close> starts a value and scanning it, whatever follows it in the
  encoder's output, gives \<open>v\<close>.
\<close>

definition value_start :: "pystr \<Rightarrow> bool" where
  "value_start t \<longleftrightarrow> t \<noteq> [] \<and> \<not> is_ws (hd t) \<and> hd t \<noteq> 93 \<and> hd t \<noteq> 0xFEFF"

definition reads_back ::
    "runtime \<Rightarrow> hook \<Rightarrow> constant_hook \<Rightarrow> nat \<Rightarrow> pystr \<Rightarrow> pyval \<Rightarrow> bool" where
  "reads_back rt hook pc d t v \<longleftrightarrow>
     value_start t \<and>
     (\<forall>n r. follow r \<longrightarrow> 2 * length (t @ r) < n \<longrightarrow>
        scan_once rt hook pc n d (t @ r) = Inr (v, r))"

lemma skip_ws_value: "value_start t \<Longrightarrow> skip_ws (t @ r) = t @ r"
  by (cases t) (auto simp: value_start_def skip_ws_def)

lemma skip_ws_follow: "follow r \<Longrightarrow> skip_ws r = r"
  by (cases r) (auto simp: follow_def skip_ws_def is_ws_def)

lemma after_93_value: "value_start t \<Longrightarrow> after [93] (t @ r) = None"
  by (cases t) (auto simp: value_start_def after_def)

lemma reads_back_elements:
  assumes "xs \<noteq> []" and "\<forall>x \<in> set xs. reads_back rt hook pc d (f x) x"
    and "2 * length (join [44] (map f xs) @ 93 # r) + 1 < n"
  shows "scan_elements rt hook pc n d (join [44] (map f xs) @ 93 # r) = Inr (xs, r)"
  using assms
proof (induction xs arbitrary: n)
  case (Cons x xs)
  then obtain m where n: "n = Suc m" by (cases n) auto
  from Cons.prems have x: "reads_back rt hook pc d (f x) x" by simp
  show ?case
  proof (cases "xs = []")
    case True
    with Cons.prems x n show ?thesis
      by (simp add: reads_back_def skip_ws_follow)
  next
    case False
    let ?rest = "join [44] (map f xs) @ 93 # r"
    have j: "join [44] (map f (x # xs)) @ 93 # r = f x @ 44 # ?rest"
      using False by (simp add: join_Cons)
    have "value_start (f (hd xs))"
      using Cons.prems False by (auto simp: reads_back_def)
    then have ws: "skip_ws ?rest = ?rest"
      using False skip_ws_value [of "f (hd xs)" "drop (length (f (hd xs))) ?rest"]
      by (cases xs; cases "tl xs") (auto simp: skip_ws_value)
    have "scan_elements rt hook pc m d ?rest = Inr (xs, r)"
      using Cons.prems n j False by (intro Cons.IH) auto
    moreover have "scan_once rt hook pc m d (f x @ 44 # ?rest) = Inr (x, 44 # ?rest)"
      using x Cons.prems(3) n unfolding j by (simp add: reads_back_def)
    ultimately show ?thesis
      unfolding j n by (simp add: skip_ws_follow ws)
  qed
qed simp

text \<open>A member: the quoted key, a colon and the value.\<close>

definition member_text :: "bool \<Rightarrow> (pyval \<Rightarrow> pystr) \<Rightarrow> pystr \<times> pyval \<Rightarrow> pystr" where
  "member_text ea f kv = quote ea (fst kv) @ [58] @ f (snd kv)"

lemma scan_member:
  assumes "list_all is_scalar k" "reads_back rt hook pc d t v" "follow r"
    and "2 * length (quote ea k @ 58 # t @ r) < n"
  shows "scan_members rt hook pc (Suc n) d (quote ea k @ 58 # t @ r) =
    (case r of
       [] \<Rightarrow> Inl json_error
     | c # r' \<Rightarrow>
         if c = 125 then Inr ([(k, v)], r')
         else if c = 44 then
           bindE (scan_members rt hook pc n d (skip_ws r')) (\<lambda>(ps, r''). Inr ((k, v) # ps, r''))
         else Inl json_error)"
proof -
  have q: "quote ea k @ 58 # t @ r = 34 # concat (map (escape_char ea) k) @ 34 # 58 # t @ r"
    by (simp add: quote_def)
  have t: "value_start t" "scan_once rt hook pc n d (t @ r) = Inr (v, r)"
    using assms by (auto simp: reads_back_def)
  have "skip_ws (58 # t @ r) = 58 # t @ r" by (simp add: skip_ws_def is_ws_def)
  then show ?thesis
    unfolding q using t assms(1,3)
    by (simp add: after_def scanstring_quote skip_ws_value skip_ws_follow del: append_assoc)
qed

lemma reads_back_members:
  assumes "kvs \<noteq> []"
    and "\<forall>kv \<in> set kvs. list_all is_scalar (fst kv) \<and> reads_back rt hook pc d (f (snd kv)) (snd kv)"
    and "2 * length (join [44] (map (member_text ea f) kvs) @ 125 # r) + 1 < n"
  shows "scan_members rt hook pc n d (join [44] (map (member_text ea f) kvs) @ 125 # r) = Inr (kvs, r)"
  using assms
proof (induction kvs arbitrary: n)
  case (Cons kv kvs)
  then obtain m where n: "n = Suc m" by (cases n) auto
  obtain k v where kv: "kv = (k, v)" by (cases kv)
  from Cons.prems kv have x: "list_all is_scalar k" "reads_back rt hook pc d (f v) v" by auto
  show ?case
  proof (cases "kvs = []")
    case True
    with Cons.prems(3) n show ?thesis
      unfolding kv by (simp add: scan_member [OF x] member_text_def del: scan_members.simps)
  next
    case False
    let ?rest = "join [44] (map (member_text ea f) kvs) @ 125 # r"
    have j: "join [44] (map (member_text ea f) (kv # kvs)) @ 125 # r =
        quote ea k @ 58 # f v @ 44 # ?rest"
      using False by (simp add: join_Cons member_text_def kv)
    have ws: "skip_ws ?rest = ?rest"
      using False by (cases kvs; cases "tl kvs")
        (auto simp: skip_ws_def is_ws_def member_text_def quote_def)
    have "scan_members rt hook pc m d ?rest = Inr (kvs, r)"
      using Cons.prems n j False by (intro Cons.IH) auto
    moreover have "2 * length (quote ea k @ 58 # f v @ 44 # ?rest) < m"
      using Cons.prems(3) n unfolding j by simp
    ultimately show ?thesis
      unfolding j n by (simp add: scan_member [OF x] ws kv del: scan_members.simps)
  qed
qed simp

subsection \<open>Decoding what was encoded\<close>

lemma scan_scalar_literal:
  "scan_once rt hook pc (Suc n) d (lit ''null'' @ r) = Inr (PNone, r)"
  "scan_once rt hook pc (Suc n) d (lit ''true'' @ r) = Inr (PBool True, r)"
  "scan_once rt hook pc (Suc n) d (lit ''false'' @ r) = Inr (PBool False, r)"
  by (simp_all add: scan_scalar_def after_def lit_def)

lemma sequenceE_map_Inr_eq:
  "\<forall>x \<in> set xs. g x = Inr (f x) \<Longrightarrow> sequenceE (map g xs) = Inr (map f xs)"
  by (induction xs) auto

lemma reads_backI:
  assumes "value_start t"
    and "\<And>n r. follow r \<Longrightarrow> 2 * length (t @ r) < Suc n \<Longrightarrow>
           scan_once rt hook pc (Suc n) d (t @ r) = Inr (v, r)"
  shows "reads_back rt hook pc d t v"
  unfolding reads_back_def
proof (intro conjI allI impI)
  fix n r assume "follow r" "2 * length (t @ r) < n"
  then show "scan_once rt hook pc n d (t @ r) = Inr (v, r)"
    using assms(2) by (cases n) auto
qed (rule assms(1))

lemma reads_back_number:
  assumes "number_parts t = Some (sg, ip, fr, ex, [])"
    and "\<And>r. follow r \<Longrightarrow> scan_number rt (t @ r) = Inr (v, r)"
  shows "reads_back rt hook pc d t v"
proof (rule reads_backI)
  obtain c s where "t = c # s" "c = 45 \<or> is_digit c"
    using scan_scalar_number(2) [OF assms(1)] by blast
  then show "value_start t" by (auto simp: value_start_def is_ws_def is_digit_def)
  fix n r assume "follow r"
  then show "scan_once rt hook pc (Suc n) d (t @ r) = Inr (v, r)"
    using scan_once_number [OF number_parts_append [OF assms(1)]] assms(2) by simp
qed

lemma reads_back_int:
  assumes "int_prints i"
  shows "reads_back rt hook pc d (dec_int i) (PInt i)"
proof (rule reads_back_number [OF number_parts_dec_int])
  fix r assume "follow r"
  from number_parts_append [OF number_parts_dec_int this] assms
  show "scan_number rt (dec_int i @ r) = Inr (PInt i, r)"
    by (simp add: scan_number_def int_prints_def)
qed

lemma reads_back_float:
  assumes "float_canonical rt w"
  shows "reads_back rt hook pc d (float_repr rt w) (PFloat w)"
proof -
  obtain sg ip fr ex where p: "number_parts (float_repr rt w) = Some (sg, ip, fr, ex, [])"
    and ne: "fr \<noteq> [] \<or> ex \<noteq> []" "sg @ ip @ fr @ ex = float_repr rt w"
    and w: "float_parse rt (float_repr rt w) = w"
    using assms by (auto simp: float_canonical_def split: option.splits)
  show ?thesis
  proof (rule reads_back_number [OF p])
    fix r assume "follow r"
    from number_parts_append [OF p this] ne w
    show "scan_number rt (float_repr rt w @ r) = Inr (PFloat w, r)"
      by (simp add: scan_number_def)
  qed
qed

lemma reads_back_str:
  assumes "list_all is_scalar s"
  shows "reads_back rt hook pc d (quote ea s) (PStr s)"
proof (rule reads_backI)
  show "value_start (quote ea s)" by (simp add: value_start_def quote_def is_ws_def)
  fix n r
  show "scan_once rt hook pc (Suc n) d (quote ea s @ r) = Inr (PStr s, r)"
    using scanstring_quote [OF assms, of ea r] by (simp add: quote_def)
qed

lemma reads_back_list:
  assumes "\<forall>x \<in> set xs. reads_back rt hook pc d (f x) x"
  shows "reads_back rt hook pc (Suc d) (lit ''['' @ join (lit '','') (map f xs) @ lit '']'') (PList xs)"
proof -
  have l: "lit ''['' = [91]" "lit '','' = [44]" "lit '']'' = [93]" by (simp_all add: lit_def)
  show ?thesis unfolding l
  proof (rule reads_backI)
    show "value_start ([91] @ join [44] (map f xs) @ [93])"
      by (simp add: value_start_def is_ws_def)
    fix n r
    assume fuel: "2 * length (([91] @ join [44] (map f xs) @ [93]) @ r) < Suc n"
    show "scan_once rt hook pc (Suc n) (Suc d) (([91] @ join [44] (map f xs) @ [93]) @ r) =
        Inr (PList xs, r)"
    proof (cases "xs = []")
      case True
      then show ?thesis by (simp add: skip_ws_def is_ws_def after_def)
    next
      case False
      let ?in = "join [44] (map f xs) @ 93 # r"
      have v: "value_start (f (hd xs))"
        using assms False by (auto simp: reads_back_def)
      have "?in = f (hd xs) @ drop (length (f (hd xs))) ?in"
        using False by (cases xs; cases "tl xs") auto
      then have "skip_ws ?in = ?in" "after [93] ?in = None"
        using skip_ws_value [OF v] after_93_value [OF v] by metis+
      moreover have "scan_elements rt hook pc n d ?in = Inr (xs, r)"
        using fuel by (intro reads_back_elements [OF False assms]) simp
      ultimately show ?thesis by simp
    qed
  qed
qed

text \<open>The text of the encoder holds no surrogates, so that it can be encoded in UTF-8.\<close>

lemma lit_scalar: "list_all (\<lambda>c. is_scalar (of_char c)) s \<Longrightarrow> list_all is_scalar (lit s)"
  by (induction s) (simp_all add: lit_def)

lemma escape_char_scalar: "is_scalar c \<Longrightarrow> list_all is_scalar (escape_char ea c)"
  using ascii_is_scalar [OF u_escape_ascii]
  by (auto simp: escape_char_def short_escape_def is_scalar_def is_surrogate_def)

lemma quote_scalar: "list_all is_scalar s \<Longrightarrow> list_all is_scalar (quote ea s)"
  by (induction s)
    (auto simp: quote_def escape_char_scalar is_scalar_def [of 34] is_surrogate_def)

lemma join_scalar:
  "list_all is_scalar sep \<Longrightarrow> list_all (list_all is_scalar) ts \<Longrightarrow> list_all is_scalar (join sep ts)"
  by (induction sep ts rule: join.induct) auto

lemma dec_int_scalar: "list_all is_scalar (dec_int i)"
proof -
  have "list_all (\<lambda>c. c < 128) (dec_nat n)" for n
    using dec_nat_digits [of n] by (auto simp: list_all_iff is_digit_def)
  then have "list_all (\<lambda>c. c < 128) (dec_int i)"
    by (simp add: dec_int_def)
  then show ?thesis by (rule ascii_is_scalar)
qed

lemma punctuation_scalar:
  "is_scalar 91" "is_scalar 93" "is_scalar 44" "is_scalar 123" "is_scalar 125" "is_scalar 58"
  by (simp_all add: is_scalar_def is_surrogate_def)

text \<open>
  \<open>codec ea d t v\<close>: \<open>t\<close> is the text of \<open>v\<close>, for an encoder and a decoder that may nest at least
  \<open>d\<close> deep.
\<close>

definition codec ::
    "runtime \<Rightarrow> hook \<Rightarrow> constant_hook \<Rightarrow> bool \<Rightarrow> bool \<Rightarrow> nat \<Rightarrow> pystr \<Rightarrow> pyval \<Rightarrow> bool" where
  "codec rt hook pc ea an d t v \<longleftrightarrow>
     (\<forall>dd \<ge> d. dumps_value rt ea an dd v = Inr t) \<and>
     (\<forall>dl \<ge> d. reads_back rt hook pc dl t v) \<and> list_all is_scalar t"

lemma codec_literals:
  "codec rt hook pc ea an d (lit ''null'') PNone"
  "codec rt hook pc ea an d (if b then lit ''true'' else lit ''false'') (PBool b)"
  unfolding codec_def
  by (auto intro!: reads_backI lit_scalar scan_scalar_literal
      simp: value_start_def is_ws_def is_scalar_def is_surrogate_def)
    (simp_all add: lit_def)

lemma codec_list:
  assumes "\<forall>x \<in> set xs. codec rt hook pc ea an d (f x) x"
  shows "codec rt hook pc ea an (Suc d) (lit ''['' @ join (lit '','') (map f xs) @ lit '']'') (PList xs)"
  unfolding codec_def
proof (intro conjI allI impI)
  fix dd assume "Suc d \<le> dd"
  then obtain e where "dd = Suc e" "d \<le> e" by (cases dd) auto
  with assms sequenceE_map_Inr_eq [of xs "dumps_value rt ea an e" f]
  show "dumps_value rt ea an dd (PList xs) =
      Inr (lit ''['' @ join (lit '','') (map f xs) @ lit '']'')"
    by (simp add: codec_def)
next
  fix dl assume "Suc d \<le> dl"
  then obtain e where "dl = Suc e" "d \<le> e" by (cases dl) auto
  with assms show "reads_back rt hook pc dl (lit ''['' @ join (lit '','') (map f xs) @ lit '']'') (PList xs)"
    by (auto simp: codec_def intro!: reads_back_list)
next
  show "list_all is_scalar (lit ''['' @ join (lit '','') (map f xs) @ lit '']'')"
    using assms by (auto simp: codec_def list_all_iff [of "list_all is_scalar"] lit_def
        punctuation_scalar intro!: join_scalar)
qed

lemma dumps_str_dict:
  assumes "sorted_wrt (<) (map fst ps)"
    and "\<forall>kv \<in> set ps. dumps_value rt ea an d (snd kv) = Inr (f (snd kv))"
  shows "dumps_value rt ea an (Suc d) (str_dict ps) =
    Inr (lit ''{'' @ join (lit '','') (map (member_text ea f) ps) @ lit ''}'')"
proof -
  have "map (\<lambda>kv. (fst kv, dumps_value rt ea an d (snd kv))) (map (\<lambda>kv. (PStr (fst kv), snd kv)) ps) =
      map (\<lambda>kv. (PStr (fst kv), Inr (f (snd kv)))) ps"
    using assms(2) by simp
  moreover have "sequenceE (map (encode_item rt ea an) (map (\<lambda>kv. (PStr (fst kv), Inr (f (snd kv)))) ps))
      = Inr (map (member_text ea f) ps)"
    by (simp add: comp_def encode_item_str member_text_def lit_def)
  ultimately show ?thesis
    using sort_items_str [OF assms(1), of "\<lambda>v. Inr (f v) :: pystr res"]
    by (simp add: str_dict_def del: map_map)
qed

lemma codec_int: "int_prints i \<Longrightarrow> codec rt hook pc ea an d (dec_int i) (PInt i)"
  by (simp add: codec_def reads_back_int dec_int_scalar int_text_def int_prints_def)

lemma codec_float: "float_canonical rt w \<Longrightarrow> codec rt hook pc ea an d (float_repr rt w) (PFloat w)"
  by (simp add: codec_def reads_back_float float_text_def)
    (simp add: float_canonical_def ascii_is_scalar)

lemma codec_str: "list_all is_scalar s \<Longrightarrow> codec rt hook pc ea an d (quote ea s) (PStr s)"
  by (simp add: codec_def reads_back_str quote_scalar)

lemma codec_scalar:
  assumes "canonical rt d v" "\<forall>xs. v \<noteq> PList xs" "\<forall>kvs. v \<noteq> PDict kvs"
  shows "\<exists>t. codec rt hook pc ea an d t v"
proof (cases v)
  case PNone
  then show ?thesis using codec_literals(1) [of rt hook pc ea an d] by blast
next
  case (PBool b)
  then show ?thesis using codec_literals(2) [of rt hook pc ea an d b] by blast
next
  case (PInt i)
  with assms codec_int show ?thesis by (metis canonical.simps(3))
next
  case (PFloat w)
  with assms codec_float show ?thesis by (metis canonical.simps(4))
next
  case (PStr s)
  with assms codec_str show ?thesis by (metis canonical.simps(5))
qed (use assms in auto)

lemma dumps_codec: "codec rt hook pc ea an d t v \<Longrightarrow> d \<le> dumps_depth rt \<Longrightarrow> dumps rt ea an v = Inr t"
  by (simp add: codec_def dumps_def)

lemma loads_reads_back:
  assumes r: "reads_back rt hook pc (loads_depth rt) t v"
  shows "loads rt hook pc t = Inr v"
proof -
  have v: "value_start t" using r by (simp add: reads_back_def)
  then have "skip_ws t = t" "take 1 t \<noteq> [0xFEFF]"
    using skip_ws_value [of t "[]"] by (auto simp: value_start_def take_Suc)
  moreover have "scan_once rt hook pc (loads_fuel_for t) (loads_depth rt) t = Inr (v, [])"
    using r by (force simp: reads_back_def loads_fuel_for_def dest!: spec [of _ "2 * length t + 1"])
  ultimately show ?thesis
    by (simp add: loads_def skip_ws_def)
qed

lemma loads_codec:
  assumes "codec rt hook pc ea an d t v" "d \<le> loads_depth rt"
  shows "loads rt hook pc t = Inr v"
  using assms by (intro loads_reads_back) (simp add: codec_def)

text \<open>Objects of strings and integers, and their text.\<close>

definition flat_value :: "pyval \<Rightarrow> bool" where
  "flat_value v \<longleftrightarrow> (\<exists>s. v = PStr s \<and> list_all is_scalar s) \<or> (\<exists>i. v = PInt i \<and> int_prints i)"

fun scalar_text :: "bool \<Rightarrow> pyval \<Rightarrow> pystr" where
  "scalar_text ea (PStr s) = quote ea s"
| "scalar_text ea (PInt i) = dec_int i"
| "scalar_text ea _ = []"

definition flat_text :: "bool \<Rightarrow> (pystr \<times> pyval) list \<Rightarrow> pystr" where
  "flat_text ea ps = lit ''{'' @ join (lit '','') (map (member_text ea (scalar_text ea)) ps) @ lit ''}''"

lemma length_join: "length (join [44] ts) = sum_list (map length ts) + (length ts - 1)"
  by (induction "[44] :: pystr" ts rule: join.induct) auto

text \<open>The encoder orders the items of an object with string keys by their keys.\<close>

lemma insort_key_map: "insort_key f (g x) (map g xs) = map g (insort_key (f \<circ> g) x xs)"
  by (induction xs) auto

lemma sort_key_map: "sort_key f (map g xs) = map g (sort_key (f \<circ> g) xs)"
  by (induction xs) (simp_all add: insort_key_map comp_def)

lemma sum_list_sort_key: "sum_list (map f (sort_key g xs)) = sum_list (map f xs :: nat list)"
proof -
  have "sum_list (map f (insort_key g x ys)) = f x + sum_list (map f ys)" for x ys
    by (induction ys) simp_all
  then show ?thesis by (induction xs) simp_all
qed

lemma sort_key_strict:
  assumes "distinct (map fst (qs :: (pystr \<times> 'a) list))"
  shows "sorted_wrt (<) (map fst (sort_key fst qs))"
proof -
  have "distinct (sort_key fst qs)" "inj_on fst (set (sort_key fst qs))"
    using assms by (simp_all add: distinct_map)
  then have "distinct (map fst (sort_key fst qs))" by (simp add: distinct_map)
  then show ?thesis by (simp add: strict_sorted_iff)
qed

lemma sort_items_sort_key:
  "sort_items (map (\<lambda>kv. (PStr (fst kv), f (snd kv))) ps) =
     Inr (map (\<lambda>kv. (PStr (fst kv), f (snd kv))) (sort_key fst ps))"
proof -
  have "(\<lambda>(k, _). the (str_key k)) \<circ> (\<lambda>kv. (PStr (fst kv), f (snd kv))) = fst"
    by auto
  moreover have "sort_key fst ps = ps" if "length ps \<le> 1"
    using that by (cases ps; cases "tl ps") auto
  ultimately show ?thesis
    by (simp add: sort_items_def sort_key_map list_all_iff)
qed

lemma dumps_value_sort:
  "dumps_value rt ea an d (str_dict ps) = dumps_value rt ea an d (str_dict (sort_key fst ps))"
proof (cases d)
  case (Suc e)
  have s: "sort_key fst (sort_key fst ps) = sort_key fst ps"
    by (rule sort_key_id_if_sorted) simp
  have m: "map (\<lambda>kv. (fst kv, dumps_value rt ea an e (snd kv))) (map (\<lambda>kv. (PStr (fst kv), snd kv)) qs) =
      map (\<lambda>kv. (PStr (fst kv), dumps_value rt ea an e (snd kv))) qs" for qs
    by simp
  show ?thesis
    unfolding Suc str_dict_def dumps_value.simps m sort_items_sort_key s ..
qed (simp add: str_dict_def)

lemma dumps_sort: "dumps rt ea an (str_dict ps) = dumps rt ea an (str_dict (sort_key fst ps))"
  unfolding dumps_def by (rule dumps_value_sort)

context pairs_hook
begin

lemma reads_back_dict:
  assumes keys: "distinct (map fst ps)"
    and ps: "\<forall>kv \<in> set ps. list_all is_scalar (fst kv) \<and> reads_back rt hook pc d (f (snd kv)) (snd kv)"
  shows "reads_back rt hook pc (Suc d)
    (lit ''{'' @ join (lit '','') (map (member_text ea f) ps) @ lit ''}'') (str_dict ps)"
proof -
  have l: "lit ''{'' = [123]" "lit '','' = [44]" "lit ''}'' = [125]" by (simp_all add: lit_def)
  have hook: "hook ps = Inr (str_dict ps)"
    using keys by (rule hook_distinct)
  show ?thesis unfolding l
  proof (rule reads_backI)
    show "value_start ([123] @ join [44] (map (member_text ea f) ps) @ [125])"
      by (simp add: value_start_def is_ws_def)
    fix n r
    assume fuel: "2 * length (([123] @ join [44] (map (member_text ea f) ps) @ [125]) @ r) < Suc n"
    show "scan_once rt hook pc (Suc n) (Suc d)
        (([123] @ join [44] (map (member_text ea f) ps) @ [125]) @ r) = Inr (str_dict ps, r)"
    proof (cases "ps = []")
      case True
      with hook show ?thesis by (simp add: skip_ws_def is_ws_def after_def)
    next
      case False
      let ?in = "join [44] (map (member_text ea f) ps) @ 125 # r"
      have "\<exists>s. ?in = 34 # s"
        using False by (cases ps; cases "tl ps") (auto simp: member_text_def quote_def)
      then obtain s where s: "?in = 34 # s" by blast
      have "skip_ws ?in = ?in" "after [125] ?in = None"
        unfolding s by (simp_all add: skip_ws_def is_ws_def after_def)
      moreover have "scan_members rt hook pc n d ?in = Inr (ps, r)"
        using fuel by (intro reads_back_members [OF False ps]) simp
      ultimately show ?thesis using hook by simp
    qed
  qed
qed

lemma codec_dict:
  assumes sorted: "sorted_wrt (<) (map fst ps)"
    and ps: "\<forall>kv \<in> set ps. list_all is_scalar (fst kv) \<and> codec rt hook pc ea an d (f (snd kv)) (snd kv)"
  shows "codec rt hook pc ea an (Suc d)
    (lit ''{'' @ join (lit '','') (map (member_text ea f) ps) @ lit ''}'') (str_dict ps)"
  unfolding codec_def
proof (intro conjI allI impI)
  fix dd assume "Suc d \<le> dd"
  then obtain e where "dd = Suc e" "d \<le> e" by (cases dd) auto
  with ps show "dumps_value rt ea an dd (str_dict ps) =
      Inr (lit ''{'' @ join (lit '','') (map (member_text ea f) ps) @ lit ''}'')"
    by (auto simp: codec_def intro!: dumps_str_dict [OF sorted])
next
  fix dl assume "Suc d \<le> dl"
  then obtain e where "dl = Suc e" "d \<le> e" by (cases dl) auto
  moreover have "distinct (map fst ps)" using sorted by (simp add: strict_sorted_iff)
  ultimately show "reads_back rt hook pc dl
      (lit ''{'' @ join (lit '','') (map (member_text ea f) ps) @ lit ''}'') (str_dict ps)"
    using ps by (auto simp: codec_def intro!: reads_back_dict)
next
  show "list_all is_scalar (lit ''{'' @ join (lit '','') (map (member_text ea f) ps) @ lit ''}'')"
    using ps by (auto simp: codec_def list_all_iff [of "list_all is_scalar"] lit_def
        punctuation_scalar member_text_def quote_scalar intro!: join_scalar)
qed

lemma canonical_codec: "canonical rt d v \<Longrightarrow> \<exists>t. codec rt hook pc ea an d t v"
proof (induction d arbitrary: v)
  case 0
  then show ?case by (intro codec_scalar) auto
next
  case (Suc d)
  show ?case
  proof (cases v)
    case (PList xs)
    with Suc have "\<forall>x \<in> set xs. \<exists>t. codec rt hook pc ea an d t x"
      by (simp add: list_all_iff)
    then obtain f where "\<forall>x \<in> set xs. codec rt hook pc ea an d (f x) x" by metis
    from codec_list [OF this] PList show ?thesis by blast
  next
    case (PDict kvs)
    with Suc.prems have c: "canonical rt (Suc d) (PDict kvs)" by simp
    obtain ps where "kvs = map (\<lambda>kv. (PStr (fst kv), snd kv)) ps" and ps: "sorted_wrt (<) (map fst ps)"
      "\<forall>kv \<in> set ps. list_all is_scalar (fst kv)" "\<forall>kv \<in> set ps. canonical rt d (snd kv)"
      by (rule canonical_dictE [OF c])
    with PDict have v: "v = str_dict ps" by (simp add: str_dict_def)
    from ps Suc.IH have "\<forall>x \<in> snd ` set ps. \<exists>t. codec rt hook pc ea an d t x" by auto
    then obtain f where "\<forall>x \<in> snd ` set ps. codec rt hook pc ea an d (f x) x" by metis
    with ps have "\<forall>kv \<in> set ps. list_all is_scalar (fst kv) \<and>
        codec rt hook pc ea an d (f (snd kv)) (snd kv)" by simp
    from codec_dict [OF ps(1) this] show ?thesis unfolding v by (rule exI)
  qed (use Suc.prems in \<open>auto intro: codec_scalar\<close>)
qed

text \<open>Decoding undoes encoding.\<close>

lemma loads_dumps:
  assumes "canonical rt d v" "d \<le> dumps_depth rt" "d \<le> loads_depth rt"
  shows "\<exists>t. dumps rt ea an v = Inr t \<and> list_all is_scalar t \<and> loads rt hook pc t = Inr v"
proof -
  obtain t where t: "codec rt hook pc ea an d t v"
    using canonical_codec [OF assms(1)] by blast
  with dumps_codec [OF t assms(2)] loads_codec [OF t assms(3)] show ?thesis
    by (auto simp: codec_def)
qed

text \<open>The flat objects the protocol messages are, with their text written out.\<close>

lemma codec_flat:
  assumes "sorted_wrt (<) (map fst ps)"
    and "\<forall>kv \<in> set ps. list_all is_scalar (fst kv) \<and> flat_value (snd kv)"
  shows "codec rt hook pc ea an (Suc 0) (flat_text ea ps) (str_dict ps)"
  unfolding flat_text_def
proof (rule codec_dict [OF assms(1)])
  have "codec rt hook pc ea an 0 (scalar_text ea v) v" if "flat_value v" for v
    using that codec_str codec_int by (auto simp: flat_value_def)
  with assms(2) show "\<forall>kv \<in> set ps. list_all is_scalar (fst kv) \<and>
      codec rt hook pc ea an 0 (scalar_text ea (snd kv)) (snd kv)"
    by blast
qed

text \<open>The hook never raises the model's \<open>out_of_fuel\<close>, so neither does the scanner.\<close>

lemma hook_fuel: "hook ps \<noteq> Inl out_of_fuel"
  using hook_distinct [of ps] hook_duplicate [of ps] err_proper
  by (cases "distinct (map fst ps)") (auto simp: out_of_fuel_def)

lemma loads_never_out_of_fuel:
  "(\<And>t. pc t \<noteq> Inl out_of_fuel) \<Longrightarrow> loads rt hook pc s \<noteq> Inl out_of_fuel"
  by (rule loads_fuel [OF hook_fuel])

lemma loads_raises:
  assumes "loads rt hook pc s = Inl e" "\<And>t. pc t \<noteq> Inl out_of_fuel"
  shows "cls e \<in> {err, JSONDecodeError, ValueError, RecursionError} \<or> (\<exists>t. pc t = Inl e)"
proof -
  have "cls e = err" if "hook ps = Inl e" for ps
    using that hook_distinct [of ps] hook_duplicate [of ps]
    by (cases "distinct (map fst ps)") auto
  with loads_errors [OF assms(1) hook_fuel assms(2)] show ?thesis by auto
qed

end

end
