(* ===== verification/Protocol.thy ===== *)
theory Protocol
  imports JsonRoundTrip
begin

text \<open>
  \<^verbatim>\<open>src/cyphersyntax/protocol.py\<close>: the protocol constants and the check of message sequence
  numbers, with the helpers on decoded JSON objects that the parsers of the wire, handshake
  and identity modules share, and the well-formedness of participant names that all three
  require.
\<close>

section \<open>Constants\<close>

definition PROTOCOL_VERSION :: int where "PROTOCOL_VERSION = 1"
definition MAX_MESSAGE_SEQUENCE :: int where "MAX_MESSAGE_SEQUENCE = 2 ^ 64 - 1"
definition MAX_PROTOCOL_VERSION :: int where "MAX_PROTOCOL_VERSION = 2 ^ 16 - 1"
definition MAX_PARTICIPANT_NAME_BYTES :: nat where "MAX_PARTICIPANT_NAME_BYTES = 255"
definition MAX_SUITE_NAME_BYTES :: nat where "MAX_SUITE_NAME_BYTES = 64"
definition MAX_PLAINTEXT_BYTES :: nat where "MAX_PLAINTEXT_BYTES = 1048576"
definition AEAD_TAG_BYTES :: nat where "AEAD_TAG_BYTES = 16"
definition MAX_CIPHERTEXT_BYTES :: nat where
  "MAX_CIPHERTEXT_BYTES = MAX_PLAINTEXT_BYTES + AEAD_TAG_BYTES"
definition MAX_ENVELOPE_BYTES :: nat where
  "MAX_ENVELOPE_BYTES = MAX_CIPHERTEXT_BYTES * 2 + 4096"

lemmas protocol_constants =
  PROTOCOL_VERSION_def MAX_MESSAGE_SEQUENCE_def MAX_PROTOCOL_VERSION_def
  MAX_PARTICIPANT_NAME_BYTES_def MAX_SUITE_NAME_BYTES_def MAX_PLAINTEXT_BYTES_def
  AEAD_TAG_BYTES_def MAX_CIPHERTEXT_BYTES_def MAX_ENVELOPE_BYTES_def

definition validate_message_sequence :: "pyval \<Rightarrow> unit res" where
  "validate_message_sequence sequence =
     (case sequence of
        PInt n \<Rightarrow>
          raise_if (\<not> (0 \<le> n \<and> n \<le> MAX_MESSAGE_SEQUENCE))
            (Exn ValueError (lit ''message sequence must fit in an unsigned 64-bit integer''))
      | _ \<Rightarrow> Inl (Exn TypeError (lit ''message sequence must be an integer'')))"

lemma validate_message_sequence_eq_Inr [res_simps]:
  "validate_message_sequence x = Inr u \<longleftrightarrow> (\<exists>n. x = PInt n \<and> 0 \<le> n \<and> n \<le> MAX_MESSAGE_SEQUENCE)"
  by (cases x) (auto simp: validate_message_sequence_def res_simps)

lemma validate_message_sequence_Inl:
  "validate_message_sequence x = Inl e \<Longrightarrow> cls e = TypeError \<or> cls e = ValueError"
  by (cases x) (auto simp: validate_message_sequence_def res_simps)

text \<open>The fields of values that a validation has made sure of.\<close>

fun the_int :: "pyval \<Rightarrow> int" where
  "the_int (PInt n) = n"
| "the_int _ = 0"

fun the_str :: "pyval \<Rightarrow> pystr" where
  "the_str (PStr s) = s"
| "the_str _ = []"

fun the_bytes :: "pyval \<Rightarrow> bytes" where
  "the_bytes (PBytes b) = b"
| "the_bytes _ = []"

section \<open>Length-prefixed fields\<close>

text \<open>\<^verbatim>\<open>len(value).to_bytes(4, "big") + value\<close>, which the key derivation and the handshake
  both define; \<^verbatim>\<open>to_bytes\<close> raises when the length needs more than four bytes.\<close>

definition prefixed :: "bytes \<Rightarrow> bytes res" where
  "prefixed value =
     (if length value < 2 ^ 32 then Inr (be_bytes 4 (length value) @ value)
      else Inl (Exn OverflowError (lit ''int too big to convert'')))"

text \<open>\<^verbatim>\<open>b"".join((...))\<close> of parts that may raise while the tuple is built.\<close>

definition join_parts :: "bytes res list \<Rightarrow> bytes res" where
  "join_parts parts = bindE (sequenceE parts) (\<lambda>bs. Inr (concat bs))"

lemma join_parts_simps [simp]:
  "join_parts [] = Inr []"
  "join_parts (m # ms) = bindE m (\<lambda>b. bindE (join_parts ms) (\<lambda>bs. Inr (b @ bs)))"
  by (cases m; simp add: join_parts_def)+

text \<open>
  A field encoding is a prefix code when the first field of a text determines itself and the
  rest.  A text of as many fields then determines every one of them.
\<close>

locale prefix_code =
  fixes enc :: "'a \<Rightarrow> bytes res"
  assumes prefix_free: "enc x = Inr a \<Longrightarrow> enc y = Inr b \<Longrightarrow> a @ r = b @ s \<Longrightarrow> x = y \<and> r = s"
begin

lemma fields_determined:
  assumes "join_parts (map enc xs) = Inr a" "join_parts (map enc ys) = Inr b"
    and "length xs = length ys" "a @ r = b @ s"
  shows "xs = ys \<and> r = s"
  using assms
proof (induction xs ys arbitrary: a b rule: list_induct2')
  case (4 x xs y ys)
  from 4(2,3) obtain ax as bx bs where
    "enc x = Inr ax" "join_parts (map enc xs) = Inr as" "a = ax @ as"
    "enc y = Inr bx" "join_parts (map enc ys) = Inr bs" "b = bx @ bs"
    by (auto simp: res_simps)
  with 4(5) prefix_free [of x ax y bx "as @ r" "bs @ s"] 4(1) [of as bs] 4(4) show ?case
    by auto
qed auto

lemma fields_inj:
  assumes "join_parts (map enc xs) = Inr a" "join_parts (map enc ys) = Inr a"
    and "length xs = length ys"
  shows "xs = ys"
  using fields_determined [OF assms, of "[]" "[]"] by simp

end

lemma prefixed_prefix_free:
  assumes "prefixed x = Inr a" "prefixed y = Inr b" "a @ r = b @ s"
  shows "x = y \<and> r = s"
proof -
  have l: "length x < 2 ^ 32" "length y < 2 ^ 32"
    and ab: "a = be_bytes 4 (length x) @ x" "b = be_bytes 4 (length y) @ y"
    using assms(1,2) by (auto simp: prefixed_def split: if_splits)
  with assms(3) have "be_bytes 4 (length x) = be_bytes 4 (length y)" "x @ r = y @ s"
    by (auto simp del: be_bytes.simps)
  with l be_bytes_inj [of "length x" 4 "length y"] show ?thesis by simp
qed

section \<open>Names\<close>

text \<open>
  What a participant name must satisfy; \<^verbatim>\<open>_validate_participant_name\<close>, \<^verbatim>\<open>_validate_name\<close> and
  \<^verbatim>\<open>_validate_identity_name\<close> check it with their own exceptions.
\<close>

definition name_ok :: "runtime \<Rightarrow> pystr \<Rightarrow> bool" where
  "name_ok rt s \<longleftrightarrow>
     list_all is_scalar s \<and> s \<noteq> [] \<and>
     length (concat (map utf8_char s)) \<le> MAX_PARTICIPANT_NAME_BYTES \<and>
     strip s = s \<and> isprintable rt s"

lemma utf8_char_nonempty [simp]: "utf8_char c \<noteq> []"
  by (simp add: utf8_char_def)

lemma concat_utf8_eq_Nil: "concat (map utf8_char s) = [] \<longleftrightarrow> s = []"
  by (cases s) auto

section \<open>Fields of a decoded object\<close>

text \<open>
  The keys a parsed object has, and what \<^verbatim>\<open>sorted(expected - received)\<close> and
  \<^verbatim>\<open>sorted(received - expected)\<close> are.
\<close>

definition object_keys :: "(pyval \<times> pyval) list \<Rightarrow> pystr list" where
  "object_keys kvs = List.map_filter (\<lambda>kv. str_key (fst kv)) kvs"

definition missing_fields :: "pystr list \<Rightarrow> pystr list \<Rightarrow> pystr list" where
  "missing_fields expected received = sort (filter (\<lambda>f. f \<notin> set received) expected)"

definition unexpected_fields :: "pystr list \<Rightarrow> pystr list \<Rightarrow> pystr list" where
  "unexpected_fields expected received =
     sort (remdups (filter (\<lambda>f. f \<notin> set expected) received))"

text \<open>\<^verbatim>\<open>raw[name]\<close>\<close>

definition object_get :: "(pyval \<times> pyval) list \<Rightarrow> pystr \<Rightarrow> pyval res" where
  "object_get kvs name = opt_else (map_of kvs (PStr name)) (Exn KeyError name)"

lemma missing_fields_Nil [simp]: "missing_fields e r = [] \<longleftrightarrow> set e \<subseteq> set r"
  by (auto simp: missing_fields_def filter_empty_conv simp flip: set_empty)

lemma unexpected_fields_Nil [simp]: "unexpected_fields e r = [] \<longleftrightarrow> set r \<subseteq> set e"
  by (auto simp: unexpected_fields_def filter_empty_conv simp flip: set_empty)

lemma object_keys_str [simp]: "object_keys (map (\<lambda>kv. (PStr (fst kv), snd kv)) ps) = map fst ps"
  by (induction ps) (simp_all add: object_keys_def)

lemma object_get_present:
  "name \<in> set (object_keys kvs) \<Longrightarrow> \<exists>v. object_get kvs name = Inr v"
proof -
  assume "name \<in> set (object_keys kvs)"
  then obtain kv where kv: "kv \<in> set kvs" "str_key (fst kv) = Some name"
    by (auto simp: object_keys_def List.map_filter_def)
  then have "fst kv = PStr name" by (cases "fst kv") auto
  with kv(1) have "map_of kvs (PStr name) \<noteq> None"
    unfolding map_of_eq_None_iff by (metis image_eqI)
  then show ?thesis by (auto simp: object_get_def)
qed

lemma object_get_str:
  "object_get (map (\<lambda>kv. (PStr (fst kv), snd kv)) ps) name = opt_else (map_of ps name) (Exn KeyError name)"
  by (induction ps) (auto simp: object_get_def)

text \<open>\<^verbatim>\<open>float("nan")\<close> and the infinities, what \<^verbatim>\<open>json.loads\<close> makes of its constants by default.\<close>

definition default_constant :: "pystr \<Rightarrow> pyval res" where
  "default_constant t =
     Inr (PFloat
       (if t = lit ''NaN'' then 0x7FF8000000000000
        else if t = lit ''Infinity'' then 0x7FF0000000000000
        else 0xFFF0000000000000))"

text \<open>\<^verbatim>\<open>data.decode("utf-8")\<close>\<close>

definition decode_utf8 :: "bytes \<Rightarrow> pystr res" where
  "decode_utf8 b = opt_else (utf8_decode b) (Exn UnicodeDecodeError (lit ''invalid start byte''))"

text \<open>
  The interpreter's recursion limit leaves room for the flat objects the protocol messages are.
\<close>

definition runtime_ok :: "runtime \<Rightarrow> bool" where
  "runtime_ok rt \<longleftrightarrow> 1 \<le> dumps_depth rt \<and> 1 \<le> loads_depth rt"

section \<open>Texts of flat objects\<close>

lemma lit_scalar_ascii: "list_all (\<lambda>c. of_char c < (128 :: nat)) s \<Longrightarrow> list_all is_scalar (lit s)"
  by (rule lit_scalar) (auto simp: list_all_iff is_scalar_def is_surrogate_def)

lemma int_prints_small:
  assumes "0 \<le> i" "i < 10 ^ 20"
  shows "int_prints i"
proof -
  have "nat i < 10 ^ 20" using assms by simp
  then have "length (dec_nat (nat i)) \<le> 20" by (rule length_dec_nat) simp
  with assms show ?thesis by (simp add: int_prints_def max_str_digits_def)
qed

lemma lower_hex_scalar: "list_all is_lower_hex s \<Longrightarrow> list_all is_scalar s"
  by (auto simp: list_all_iff is_lower_hex_def is_scalar_def is_surrogate_def)

text \<open>Characters that need no escape.\<close>

definition plain_char :: "nat \<Rightarrow> bool" where
  "plain_char c \<longleftrightarrow> 32 \<le> c \<and> c \<le> 126 \<and> c \<noteq> 34 \<and> c \<noteq> 92"

lemma escape_plain: "plain_char c \<Longrightarrow> escape_char ea c = [c]"
  by (auto simp: plain_char_def escape_char_def short_escape_def)

lemma quote_plain: "list_all plain_char s \<Longrightarrow> quote ea s = 34 # s @ [34]"
  by (induction s) (simp_all add: quote_def escape_plain)

lemma lower_hex_plain: "list_all is_lower_hex s \<Longrightarrow> list_all plain_char s"
  by (auto simp: list_all_iff is_lower_hex_def plain_char_def)

lemma length_dec_int: "0 \<le> i \<Longrightarrow> i < 10 ^ k \<Longrightarrow> 0 < k \<Longrightarrow> length (dec_int i) \<le> k"
  by (simp add: dec_int_nonneg length_dec_nat nat_less_iff)

text \<open>The length of a text in UTF-8.\<close>

definition ulen :: "pystr \<Rightarrow> nat" where
  "ulen s = length (concat (map utf8_char s))"

lemma ulen_simps [simp]:
  "ulen [] = 0"
  "ulen (c # s) = length (utf8_char c) + ulen s"
  "ulen (s @ t) = ulen s + ulen t"
  by (simp_all add: ulen_def)

lemma ulen_ascii: "list_all (\<lambda>c. c < 0x80) s \<Longrightarrow> ulen s = length s"
  by (induction s) (simp_all add: utf8_char_def)

lemma ulen_plain: "list_all plain_char s \<Longrightarrow> ulen s = length s"
  by (rule ulen_ascii) (auto simp: list_all_iff plain_char_def)

lemma ulen_quote_plain: "list_all plain_char s \<Longrightarrow> ulen (quote ea s) = length s + 2"
  by (simp add: quote_plain ulen_plain utf8_char_def)

lemma ulen_quote_name:
  assumes "name_ok rt s"
  shows "ulen (quote False s) \<le> 512"
proof -
  have "list_all (char_printable rt) s" "ulen s \<le> 255"
    using assms by (simp_all add: name_ok_def isprintable_def ulen_def MAX_PARTICIPANT_NAME_BYTES_def)
  have step: "ulen (escape_char False c) \<le> 2 * length (utf8_char c)" if "char_printable rt c" for c
    using that by (auto simp: escape_char_def short_escape_def char_printable_def utf8_char_def
        split: if_splits)
  have "ulen (concat (map (escape_char False) s)) \<le> 2 * ulen s"
    using \<open>list_all (char_printable rt) s\<close>
  proof (induction s)
    case (Cons c s)
    then show ?case using step [of c] by simp
  qed simp
  with \<open>ulen s \<le> 255\<close> show ?thesis by (simp add: quote_def utf8_char_def)
qed

lemma ulen_dec_int: "ulen (dec_int i) = length (dec_int i)"
proof (rule ulen_ascii)
  have "list_all (\<lambda>c. c < 0x80) (dec_nat n)" for n
    using dec_nat_digits [of n] by (auto simp: list_all_iff is_digit_def)
  then show "list_all (\<lambda>c. c < 0x80) (dec_int i)" by (simp add: dec_int_def)
qed

lemma ulen_join: "ulen (join [44] ts) = sum_list (map ulen ts) + (length ts - 1)"
  by (induction "[44 :: nat]" ts rule: join.induct) (simp_all add: utf8_char_def)

lemma ulen_flat_text:
  "ulen (flat_text ea ps) =
     2 + sum_list (map (\<lambda>kv. ulen (quote ea (fst kv)) + 1 + ulen (scalar_text ea (snd kv))) ps) +
     (length ps - 1)"
  by (simp add: flat_text_def lit_def ulen_join member_text_def comp_def utf8_char_def)

text \<open>
  A flat object with sorted keys through the encoder, the codec of UTF-8 and the decoder: the
  path of every protocol message, in both directions.
\<close>

lemma flat_message:
  assumes "codec rt hook pc ea True (Suc 0) t (str_dict ps)" "runtime_ok rt"
  shows "dumps rt ea True (str_dict ps) = Inr t"
    and "utf8_encode t = Inr (concat (map utf8_char t))"
    and "bindE (decode_utf8 (concat (map utf8_char t))) (loads rt hook pc) = Inr (str_dict ps)"
proof -
  show "dumps rt ea True (str_dict ps) = Inr t"
    using assms by (intro dumps_codec) (auto simp: runtime_ok_def)
  show u: "utf8_encode t = Inr (concat (map utf8_char t))"
    using assms(1) by (simp add: codec_def utf8_encode_def)
  show "bindE (decode_utf8 (concat (map utf8_char t))) (loads rt hook pc) = Inr (str_dict ps)"
    using loads_codec [OF assms(1)] assms(2)
    by (simp add: decode_utf8_def utf8_decode_encode [OF u] runtime_ok_def)
qed

text \<open>An interpreter for the examples: its limits, and some value for what text and floats need.\<close>

definition sample_runtime :: "runtime" where
  "sample_runtime =
     \<lparr>nonascii_printable = (\<lambda>c. c \<ge> 0xA1), loads_depth = 990, dumps_depth = 990,
      float_repr = (\<lambda>_. lit ''1.0''), float_parse = (\<lambda>_. 0x3FF0000000000000)\<rparr>"

lemma sample_runtime_ok [simp]: "runtime_ok sample_runtime"
  by (simp add: runtime_ok_def sample_runtime_def)

text \<open>Names of plain letters, digits and the like are well formed whatever the interpreter.\<close>

lemma name_ok_plain:
  assumes "s \<noteq> []" "length s \<le> MAX_PARTICIPANT_NAME_BYTES" "list_all (\<lambda>c. 32 < c \<and> c < 127) s"
  shows "name_ok rt s"
proof -
  have ascii: "list_all (\<lambda>c. c < 0x80) s" using assms(3) by (auto simp: list_all_iff)
  have "length (concat (map utf8_char s)) = length s"
    using assms(3) by (induction s) (auto simp: utf8_char_def)
  moreover have "\<not> is_space c" if "c \<in> set s" for c
    using assms(3) that by (auto simp: list_all_iff is_space_def)
  then have "strip s = s"
    using assms(1) by (intro strip_id) auto
  moreover have "isprintable rt s"
    using assms(3) by (auto simp: isprintable_def char_printable_def list_all_iff)
  ultimately show ?thesis
    using assms(1,2) ascii_is_scalar [OF ascii] by (simp add: name_ok_def)
qed

end
