(* ===== verification/Sha256.thy ===== *)
theory Sha256
  imports PyValues
begin

unbundle bit_operations_syntax

text \<open>
  \<^verbatim>\<open>hashlib.sha256\<close> and \<^verbatim>\<open>hmac.new(key, payload, sha256)\<close> of the standard library, on 32-bit
  words: the padding, the message schedule, the compression function and the keyed hash.  The
  key derivation, the handshake and the identity files use them.
\<close>

type_synonym word32 = "32 word"

section \<open>Words of bytes\<close>

definition word_of_bytes :: "bytes \<Rightarrow> word32" where
  "word_of_bytes bs = of_nat (be_value bs)"

fun chunks :: "nat \<Rightarrow> nat \<Rightarrow> 'a list \<Rightarrow> 'a list list" where
  "chunks k 0 xs = []"
| "chunks k (Suc n) xs = take k xs # chunks k n (drop k xs)"

section \<open>The compression function\<close>

text \<open>Eight words, most significant first, written as one number.\<close>

definition eight_words :: "nat \<Rightarrow> word32 list" where
  "eight_words n = map word_of_bytes (chunks 4 8 (be_bytes 32 n))"

definition round_constants :: "word32 list" where
  "round_constants = concat (map eight_words
     [0x428a2f9871374491b5c0fbcfe9b5dba53956c25b59f111f1923f82a4ab1c5ed5,
      0xd807aa9812835b01243185be550c7dc372be5d7480deb1fe9bdc06a7c19bf174,
      0xe49b69c1efbe47860fc19dc6240ca1cc2de92c6f4a7484aa5cb0a9dc76f988da,
      0x983e5152a831c66db00327c8bf597fc7c6e00bf3d5a7914706ca635114292967,
      0x27b70a852e1b21384d2c6dfc53380d13650a7354766a0abb81c2c92e92722c85,
      0xa2bfe8a1a81a664bc24b8b70c76c51a3d192e819d6990624f40e3585106aa070,
      0x19a4c1161e376c082748774c34b0bcb5391c0cb34ed8aa4a5b9cca4f682e6ff3,
      0x748f82ee78a5636f84c878148cc7020890befffaa4506cebbef9a3f7c67178f2])"

definition initial_hash :: "word32 list" where
  "initial_hash =
     eight_words 0x6a09e667bb67ae853c6ef372a54ff53a510e527f9b05688c1f83d9ab5be0cd19"

definition sha_choose :: "word32 \<Rightarrow> word32 \<Rightarrow> word32 \<Rightarrow> word32" where
  "sha_choose x y z = (x AND y) XOR ((NOT x) AND z)"

definition sha_majority :: "word32 \<Rightarrow> word32 \<Rightarrow> word32 \<Rightarrow> word32" where
  "sha_majority x y z = (x AND y) XOR (x AND z) XOR (y AND z)"

definition big_sigma0 :: "word32 \<Rightarrow> word32" where
  "big_sigma0 x = word_rotr 2 x XOR word_rotr 13 x XOR word_rotr 22 x"

definition big_sigma1 :: "word32 \<Rightarrow> word32" where
  "big_sigma1 x = word_rotr 6 x XOR word_rotr 11 x XOR word_rotr 25 x"

definition small_sigma0 :: "word32 \<Rightarrow> word32" where
  "small_sigma0 x = word_rotr 7 x XOR word_rotr 18 x XOR drop_bit 3 x"

definition small_sigma1 :: "word32 \<Rightarrow> word32" where
  "small_sigma1 x = word_rotr 17 x XOR word_rotr 19 x XOR drop_bit 10 x"

text \<open>The schedule: 16 words of the block and 48 more, each from four before it.\<close>

fun schedule :: "nat \<Rightarrow> word32 list \<Rightarrow> word32 list" where
  "schedule 0 ws = ws"
| "schedule (Suc n) ws =
     (let t = length ws in
      schedule n (ws @ [small_sigma1 (ws ! (t - 2)) + ws ! (t - 7) +
                        small_sigma0 (ws ! (t - 15)) + ws ! (t - 16)]))"

fun hash_round :: "word32 list \<Rightarrow> word32 \<times> word32 \<Rightarrow> word32 list" where
  "hash_round [a, b, c, d, e, f, g, h] (k, w) =
     (let t1 = h + big_sigma1 e + sha_choose e f g + k + w;
          t2 = big_sigma0 a + sha_majority a b c in
      [t1 + t2, a, b, c, d + t1, e, f, g])"
| "hash_round s kw = s"

definition compress :: "word32 list \<Rightarrow> word32 list \<Rightarrow> word32 list" where
  "compress hash block =
     map2 (+) hash (foldl hash_round hash (zip round_constants (schedule 48 block)))"

section \<open>The digest\<close>

definition sha_padding :: "nat \<Rightarrow> bytes" where
  "sha_padding n = 0x80 # replicate ((119 - n mod 64) mod 64) 0 @ be_bytes 8 (8 * n)"

definition sha_blocks :: "bytes \<Rightarrow> word32 list list" where
  "sha_blocks m =
     (let p = m @ sha_padding (length m) in
      map (\<lambda>b. map word_of_bytes (chunks 4 16 b)) (chunks 64 (length p div 64) p))"

definition sha256 :: "bytes \<Rightarrow> bytes" where
  "sha256 m = concat (map (\<lambda>w. be_bytes 4 (unat w)) (foldl compress initial_hash (sha_blocks m)))"

definition hmac_block_key :: "bytes \<Rightarrow> bytes" where
  "hmac_block_key key =
     (let k = (if length key > 64 then sha256 key else key) in k @ replicate (64 - length k) 0)"

definition hmac_sha256 :: "bytes \<Rightarrow> bytes \<Rightarrow> bytes" where
  "hmac_sha256 key payload =
     (let k = hmac_block_key key in
      sha256 (map (\<lambda>b. b XOR 0x5C) k @ sha256 (map (\<lambda>b. b XOR 0x36) k @ payload)))"

section \<open>Lengths\<close>

lemma length_chunks [simp]: "length (chunks k n xs) = n"
  by (induction n arbitrary: xs) simp_all

lemma length_hash_round [simp]: "length (hash_round s kw) = length s"
  by (induction s kw rule: hash_round.induct) (simp_all add: Let_def)

lemma length_foldl_hash_round [simp]: "length (foldl hash_round s kws) = length s"
  by (induction kws arbitrary: s) simp_all

lemma length_foldl_compress [simp]: "length (foldl compress s bs) = length s"
  by (induction bs arbitrary: s) (simp_all add: compress_def)

lemma length_sha256 [simp]: "length (sha256 m) = 32"
  by (simp add: sha256_def length_concat comp_def sum_list_triv initial_hash_def eight_words_def)

lemma length_hmac_sha256 [simp]: "length (hmac_sha256 key payload) = 32"
  unfolding hmac_sha256_def Let_def by (rule length_sha256)

text \<open>The padding fills whole blocks, so the last one is not cut short.\<close>

lemma sha_padding_blocks: "(n + length (sha_padding n)) mod 64 = 0"
proof -
  have pad: "(r + (1 + (119 - r) mod 64 + 8)) mod 64 = 0" if "r < 64" for r :: nat
  proof (cases "r \<le> 55")
    case True
    then have "119 - r = 64 + (55 - r)" by simp
    then have "(119 - r) mod 64 = 55 - r" using True by (simp only: mod_add_self1) simp
    with True show ?thesis by simp
  next
    case False
    with that have "(119 - r) mod 64 = 119 - r" by simp
    with False that show ?thesis by simp
  qed
  have "(n mod 64 + length (sha_padding n)) mod 64 = 0"
    using pad [of "n mod 64"] by (simp add: sha_padding_def)
  then show ?thesis by (simp only: mod_add_left_eq)
qed

end
