(* ===== verification/Crypto.thy ===== *)
theory Crypto
  imports Errors Sha256
begin

text \<open>
  The \<^verbatim>\<open>cryptography\<close> package as a parameter.  A \<open>crypto\<close> record holds the primitives that
  the sources call, each with the exceptions it may raise as a result; nothing is assumed of
  it here.  What the properties rely on is stated by the predicates below, which are hypotheses
  of the theorems that use them: lengths, correctness of signatures, agreement of the key
  exchange and correctness of the two ciphers, all documented behaviour of the package.

  Private keys are raw bytes, and the randomness of \<^verbatim>\<open>generate()\<close> and \<^verbatim>\<open>os.urandom\<close> is an
  argument of the operation that draws it.
\<close>

record crypto =
  hkdf :: "nat \<Rightarrow> bytes option \<Rightarrow> bytes \<Rightarrow> bytes \<Rightarrow> bytes"
    \<comment> \<open>length, salt, info, secret\<close>
  ed_public :: "bytes \<Rightarrow> bytes"
  ed_sign :: "bytes \<Rightarrow> bytes \<Rightarrow> bytes"
    \<comment> \<open>private key, data\<close>
  ed_public_ok :: "bytes \<Rightarrow> bool"
  ed_verifies :: "bytes \<Rightarrow> bytes \<Rightarrow> bytes \<Rightarrow> bool"
    \<comment> \<open>public key, signature, data\<close>
  x_public :: "bytes \<Rightarrow> bytes"
  x_public_ok :: "bytes \<Rightarrow> bool"
  x_exchange :: "bytes \<Rightarrow> bytes \<Rightarrow> bytes res"
    \<comment> \<open>private key, public key of the peer\<close>
  siv_encrypt :: "bytes \<Rightarrow> bytes \<Rightarrow> bytes \<Rightarrow> bytes \<Rightarrow> bytes res"
    \<comment> \<open>key, nonce, data, associated data\<close>
  siv_decrypt :: "bytes \<Rightarrow> bytes \<Rightarrow> bytes \<Rightarrow> bytes \<Rightarrow> bytes res"
  chacha_encrypt :: "bytes \<Rightarrow> bytes \<Rightarrow> bytes \<Rightarrow> bytes \<Rightarrow> bytes res"
  chacha_decrypt :: "bytes \<Rightarrow> bytes \<Rightarrow> bytes \<Rightarrow> bytes \<Rightarrow> bytes res"
  scrypt_derive :: "bytes \<Rightarrow> bytes \<Rightarrow> bytes"
    \<comment> \<open>salt, passphrase\<close>

section \<open>Documented behaviour\<close>

definition lengths_ok :: "crypto \<Rightarrow> bool" where
  "lengths_ok c \<longleftrightarrow>
     (\<forall>l salt info secret. length (hkdf c l salt info secret) = l) \<and>
     (\<forall>k. length (ed_public c k) = 32) \<and> (\<forall>k d. length (ed_sign c k d) = 64) \<and>
     (\<forall>k. length (x_public c k) = 32) \<and> (\<forall>salt p. length (scrypt_derive c salt p) = 32)"

definition signatures_correct :: "crypto \<Rightarrow> bool" where
  "signatures_correct c \<longleftrightarrow>
     (\<forall>k d. ed_public_ok c (ed_public c k) \<and> ed_verifies c (ed_public c k) (ed_sign c k d) d)"

text \<open>The two sides compute the same secret from generated keys.\<close>

definition exchange_agrees :: "crypto \<Rightarrow> bool" where
  "exchange_agrees c \<longleftrightarrow>
     (\<forall>a b. x_public_ok c (x_public c a) \<and>
        (\<exists>s. x_exchange c a (x_public c b) = Inr s \<and> x_exchange c b (x_public c a) = Inr s))"

text \<open>
  A cipher opens what it sealed under the same key, nonce and associated data, with a 16-byte
  tag added, for the plaintexts of a set (AES-GCM-SIV refuses the empty one).
\<close>

definition cipher_correct ::
    "bytes set \<Rightarrow> (bytes \<Rightarrow> bytes \<Rightarrow> bytes \<Rightarrow> bytes \<Rightarrow> bytes res) \<Rightarrow>
       (bytes \<Rightarrow> bytes \<Rightarrow> bytes \<Rightarrow> bytes \<Rightarrow> bytes res) \<Rightarrow> bool" where
  "cipher_correct P enc dec \<longleftrightarrow>
     (\<forall>key nonce p aad. length key = 32 \<longrightarrow> length nonce = 12 \<longrightarrow> p \<in> P \<longrightarrow>
        (\<exists>ct. enc key nonce p aad = Inr ct \<and> length ct = length p + 16 \<and>
           dec key nonce ct aad = Inr p))"

definition ciphers_correct :: "crypto \<Rightarrow> bool" where
  "ciphers_correct c \<longleftrightarrow>
     cipher_correct {p. p \<noteq> []} (siv_encrypt c) (siv_decrypt c) \<and>
     cipher_correct UNIV (chacha_encrypt c) (chacha_decrypt c)"

definition crypto_correct :: "crypto \<Rightarrow> bool" where
  "crypto_correct c \<longleftrightarrow>
     lengths_ok c \<and> signatures_correct c \<and> exchange_agrees c \<and> ciphers_correct c"

section \<open>A concrete instance\<close>

text \<open>
  Primitives with the documented behaviour and no security, on which the examples run: a
  signature is the digest of the data with the public key, the exchange is exclusive or, the
  ciphers append a tag.
\<close>

definition fit :: "nat \<Rightarrow> bytes \<Rightarrow> bytes" where
  "fit n b = take n (b @ replicate n 0)"

definition toy_tag :: "bytes \<Rightarrow> bytes \<Rightarrow> bytes \<Rightarrow> bytes \<Rightarrow> bytes" where
  "toy_tag key nonce p aad = fit 16 (hmac_sha256 key (nonce @ aad @ p))"

definition toy_seal :: "bytes \<Rightarrow> bytes \<Rightarrow> bytes \<Rightarrow> bytes \<Rightarrow> bytes res" where
  "toy_seal key nonce p aad = Inr (p @ toy_tag key nonce p aad)"

definition toy_open :: "bytes \<Rightarrow> bytes \<Rightarrow> bytes \<Rightarrow> bytes \<Rightarrow> bytes res" where
  "toy_open key nonce ct aad =
     (let n = length ct - 16; p = take n ct in
      if drop n ct = toy_tag key nonce p aad then Inr p else Inl (Exn InvalidTag []))"

definition toy_crypto :: "crypto" where
  "toy_crypto =
     \<lparr>hkdf = (\<lambda>l salt info secret. fit l (rev info @ secret)),
      ed_public = fit 32,
      ed_sign = (\<lambda>k d. fit 32 k @ sha256 d),
      ed_public_ok = (\<lambda>p. length p = 32),
      ed_verifies = (\<lambda>p s d. s = p @ sha256 d),
      x_public = fit 32,
      x_public_ok = (\<lambda>p. length p = 32),
      x_exchange = (\<lambda>k p. Inr (map2 (XOR) (fit 32 k) p)),
      siv_encrypt = (\<lambda>key nonce p aad.
        if p = [] then Inl (Exn ValueError (lit ''data must not be zero length''))
        else toy_seal key nonce p aad),
      siv_decrypt = toy_open,
      chacha_encrypt = toy_seal,
      chacha_decrypt = toy_open,
      scrypt_derive = (\<lambda>salt p. fit 32 (salt @ p))\<rparr>"

lemma length_fit [simp]: "length (fit n b) = n"
  by (simp add: fit_def)

lemma toy_open_seal: "toy_seal key nonce p aad = Inr ct \<Longrightarrow> toy_open key nonce ct aad = Inr p"
  by (auto simp: toy_seal_def toy_open_def toy_tag_def Let_def)

lemma map2_xor_commute: "map2 (XOR) (a :: bytes) b = map2 (XOR) b a"
  by (induction a b rule: list_induct2') (simp_all add: xor.commute)

lemma toy_crypto_correct: "crypto_correct toy_crypto"
proof -
  have "lengths_ok toy_crypto"
    by (simp add: lengths_ok_def toy_crypto_def)
  moreover have "signatures_correct toy_crypto"
    by (simp add: signatures_correct_def toy_crypto_def)
  moreover have "exchange_agrees toy_crypto"
    by (simp add: exchange_agrees_def toy_crypto_def map2_xor_commute [of "fit 32 _" "fit 32 _"])
  moreover have "\<exists>ct. toy_seal key nonce p aad = Inr ct \<and> length ct = length p + 16 \<and>
      toy_open key nonce ct aad = Inr p" for key nonce p aad
    using toy_open_seal [of key nonce p aad] by (simp add: toy_seal_def toy_tag_def)
  then have "ciphers_correct toy_crypto"
    by (simp add: ciphers_correct_def toy_crypto_def cipher_correct_def)
  ultimately show ?thesis by (simp add: crypto_correct_def)
qed

end
