(* ===== verification/Identity.thy ===== *)
theory Identity
  imports Protocol Crypto
begin

text \<open>
  \<^verbatim>\<open>src/cyphersyntax/identity.py\<close>, the identity in memory: its name and keys, signing and
  verification.  A private key object is modelled by its raw bytes; \<open>key_object\<close> is what a
  caller may pass where a key is expected.  The persisted form is in the theory of the store.
\<close>

section \<open>Names\<close>

definition path_component :: "pystr \<Rightarrow> bool" where
  "path_component s \<longleftrightarrow> s = lit ''.'' \<or> s = lit ''..'' \<or> 47 \<in> set s \<or> 92 \<in> set s"

definition validate_identity_name :: "runtime \<Rightarrow> pyval \<Rightarrow> pystr res" where
  "validate_identity_name rt name =
     (case name of
        PStr s \<Rightarrow>
          bindE
            (wrap_exn [UnicodeEncodeError]
              (\<lambda>_. Exn ValueError (lit ''identity name must contain valid Unicode''))
              (utf8_encode s))
            (\<lambda>encoded.
              if encoded = [] \<or> length encoded > MAX_PARTICIPANT_NAME_BYTES
              then Inl (Exn ValueError (lit ''identity name must contain 1 to 255 UTF-8 bytes''))
              else if s \<noteq> strip s
              then Inl (Exn ValueError
                     (lit ''identity name must not contain surrounding whitespace''))
              else if \<not> isprintable rt s
              then Inl (Exn ValueError
                     (lit ''identity name must contain only printable characters''))
              else if path_component s
              then Inl (Exn ValueError (lit ''identity name must not contain path components''))
              else Inr s)
      | _ \<Rightarrow> Inl (Exn TypeError (lit ''identity name must be a string'')))"

lemma validate_identity_name_eq_Inr [res_simps]:
  "validate_identity_name rt x = Inr s \<longleftrightarrow> x = PStr s \<and> name_ok rt s \<and> \<not> path_component s"
  by (cases x) (auto simp: validate_identity_name_def name_ok_def res_simps concat_utf8_eq_Nil)

section \<open>Identities\<close>

datatype key_object = Ed25519PrivateKey bytes | X25519PrivateKey bytes | OtherObject

record Identity =
  id_name :: pystr
  id_signing_private :: bytes
  id_exchange_private :: bytes

definition make_identity :: "runtime \<Rightarrow> pyval \<Rightarrow> key_object \<Rightarrow> key_object \<Rightarrow> Identity res" where
  "make_identity rt name signing_private_key exchange_private_key =
     bindE (validate_identity_name rt name) (\<lambda>n.
     case signing_private_key of
       Ed25519PrivateKey sk \<Rightarrow>
         (case exchange_private_key of
            X25519PrivateKey xk \<Rightarrow>
              Inr \<lparr>id_name = n, id_signing_private = sk, id_exchange_private = xk\<rparr>
          | _ \<Rightarrow> Inl (Exn TypeError (lit ''exchange private key must be X25519'')))
     | _ \<Rightarrow> Inl (Exn TypeError (lit ''signing private key must be Ed25519'')))"

text \<open>\<^verbatim>\<open>generate\<close>, with the two keys that the library draws.\<close>

definition generate_identity :: "runtime \<Rightarrow> bytes \<Rightarrow> bytes \<Rightarrow> pyval \<Rightarrow> Identity res" where
  "generate_identity rt signing_seed exchange_seed name =
     make_identity rt name (Ed25519PrivateKey signing_seed) (X25519PrivateKey exchange_seed)"

definition identity_sign :: "crypto \<Rightarrow> Identity \<Rightarrow> pyval \<Rightarrow> bytes res" where
  "identity_sign c self data =
     (case data of
        PBytes d \<Rightarrow> Inr (ed_sign c (id_signing_private self) d)
      | _ \<Rightarrow> Inl (Exn TypeError (lit ''signature payload must be bytes'')))"

text \<open>\<^verbatim>\<open>Ed25519PublicKey.from_public_bytes(public_key).verify(signature, data)\<close>\<close>

definition ed_check :: "crypto \<Rightarrow> bytes \<Rightarrow> bytes \<Rightarrow> bytes \<Rightarrow> unit res" where
  "ed_check c public_key signature data =
     thenE (raise_if (\<not> ed_public_ok c public_key)
             (Exn ValueError (lit ''An Ed25519 public key is 32 bytes long'')))
    (raise_if (\<not> ed_verifies c public_key signature data) (Exn InvalidSignature []))"

definition verify_signature :: "crypto \<Rightarrow> pyval \<Rightarrow> pyval \<Rightarrow> pyval \<Rightarrow> unit res" where
  "verify_signature c data signature public_key =
     (case data of
        PBytes d \<Rightarrow>
          (case signature of
             PBytes s \<Rightarrow>
               (case public_key of
                  PBytes k \<Rightarrow>
                    wrap_exn [InvalidSignature, ValueError]
                      (\<lambda>_. Exn InvalidSignatureError (lit ''signature verification failed''))
                      (ed_check c k s d)
                | _ \<Rightarrow> Inl (Exn TypeError (lit ''signing public key must be bytes'')))
           | _ \<Rightarrow> Inl (Exn TypeError (lit ''signature must be bytes'')))
      | _ \<Rightarrow> Inl (Exn TypeError (lit ''signature payload must be bytes'')))"

definition ed25519_public_bytes :: "crypto \<Rightarrow> Identity \<Rightarrow> bytes" where
  "ed25519_public_bytes c self = ed_public c (id_signing_private self)"

definition x25519_public_bytes :: "crypto \<Rightarrow> Identity \<Rightarrow> bytes" where
  "x25519_public_bytes c self = x_public c (id_exchange_private self)"

definition identity_verify :: "crypto \<Rightarrow> Identity \<Rightarrow> pyval \<Rightarrow> pyval \<Rightarrow> pyval \<Rightarrow> unit res" where
  "identity_verify c self data signature public_key =
     (let verification_key =
            (if public_key \<noteq> PNone then public_key else PBytes (ed25519_public_bytes c self)) in
      verify_signature c data signature verification_key)"

section \<open>Facts\<close>

definition identity_valid :: "runtime \<Rightarrow> Identity \<Rightarrow> bool" where
  "identity_valid rt i \<longleftrightarrow> name_ok rt (id_name i) \<and> \<not> path_component (id_name i)"

lemma make_identity_eq_Inr [res_simps]:
  "make_identity rt x sk xk = Inr i \<longleftrightarrow>
     x = PStr (id_name i) \<and> sk = Ed25519PrivateKey (id_signing_private i) \<and>
     xk = X25519PrivateKey (id_exchange_private i) \<and> identity_valid rt i"
  by (cases i; cases sk; cases xk) (auto simp: make_identity_def res_simps identity_valid_def)

lemma verify_signature_eq_Inr [res_simps]:
  "verify_signature c (PBytes d) (PBytes s) (PBytes k) = Inr u \<longleftrightarrow>
     ed_public_ok c k \<and> ed_verifies c k s d"
  by (auto simp: verify_signature_def ed_check_def res_simps)

lemma verify_signature_raises:
  "raises_only InvalidSignatureError (verify_signature c (PBytes d) (PBytes s) (PBytes k))"
  by (auto simp: verify_signature_def ed_check_def raise_if_def wrap_exn_def isinstance_of_def)

text \<open>
  Verification accepts what the identity signs, under its public key and under the default
  key, and rejects everything that the primitive rejects with \<open>InvalidSignatureError\<close>, never
  with the library's own exceptions.
\<close>

theorem identity_signatures_verify:
  assumes "signatures_correct c" "identity_sign c i (PBytes d) = Inr s"
  shows "verify_signature c (PBytes d) (PBytes s) (PBytes (ed25519_public_bytes c i)) = Inr () \<and>
    identity_verify c i (PBytes d) (PBytes s) PNone = Inr () \<and>
    raises_only InvalidSignatureError (verify_signature c (PBytes d') (PBytes s') (PBytes k))"
proof -
  have "verify_signature c (PBytes d) (PBytes s) (PBytes (ed25519_public_bytes c i)) = Inr ()"
    using assms by (auto simp: verify_signature_eq_Inr identity_sign_def signatures_correct_def
        ed25519_public_bytes_def)
  then show ?thesis by (simp add: identity_verify_def verify_signature_raises)
qed

definition sample_alice :: "Identity" where
  "sample_alice = \<lparr>id_name = lit ''alice'', id_signing_private = [1], id_exchange_private = [2]\<rparr>"

definition sample_bob :: "Identity" where
  "sample_bob = \<lparr>id_name = lit ''bob'', id_signing_private = [3], id_exchange_private = [4]\<rparr>"

theorem identity_signatures_verify_witness:
  "\<exists>s. identity_sign toy_crypto sample_alice (PBytes [5]) = Inr s \<and>
     identity_verify toy_crypto sample_alice (PBytes [5]) (PBytes s) PNone = Inr ()"
proof -
  obtain s where s: "identity_sign toy_crypto sample_alice (PBytes [5]) = Inr s"
    by (simp add: identity_sign_def)
  have "signatures_correct toy_crypto"
    using toy_crypto_correct by (simp add: crypto_correct_def)
  from identity_signatures_verify [OF this s] s show ?thesis by blast
qed

end
