(* ===== verification/Kdf.thy ===== *)
theory Kdf
  imports Protocol Crypto
begin

text \<open>
  \<^verbatim>\<open>src/cyphersyntax/kdf.py\<close>: the key schedule.  HKDF is a parameter (\<open>hkdf\<close> of the crypto
  record); what the program decides is what goes into it, so the lemmas show that distinct
  uses have distinct inputs.  HMAC is the standard library's and is computed.
\<close>

definition hkdf_expand :: "crypto \<Rightarrow> bytes \<Rightarrow> nat \<Rightarrow> bytes option \<Rightarrow> bytes \<Rightarrow> bytes" where
  "hkdf_expand c secret len salt info = hkdf c len salt info secret"

definition session_root_label :: "bytes" where
  "session_root_label = blit ''CypherSyntax/session-root/v1''"

definition derive_session_root :: "crypto \<Rightarrow> bytes \<Rightarrow> bytes \<Rightarrow> bytes \<Rightarrow> bytes" where
  "derive_session_root c shared_secret transcript_hash supplemental_secret =
     (let material = shared_secret @ supplemental_secret in
      hkdf_expand c material 32 (Some transcript_hash) session_root_label)"

text \<open>The payload that \<^verbatim>\<open>derive_key_confirmation\<close> authenticates.\<close>

definition confirmation_payload :: "pystr \<Rightarrow> bytes \<Rightarrow> bytes res" where
  "confirmation_payload role transcript_hash =
     join_parts
       [Inr (blit ''CypherSyntax/key-confirmation/v1|''), ascii_encode role, Inr (blit ''|''),
        Inr transcript_hash]"

definition derive_key_confirmation :: "bytes \<Rightarrow> bytes \<Rightarrow> pystr \<Rightarrow> bytes res" where
  "derive_key_confirmation root_key transcript_hash role =
     (if role \<noteq> lit ''initiator'' \<and> role \<noteq> lit ''responder''
      then Inl (Exn ValueError (lit ''key confirmation role must be initiator or responder''))
      else bindE (confirmation_payload role transcript_hash) (\<lambda>payload.
             Inr (hmac_sha256 root_key payload)))"

definition length_prefixed :: "bytes \<Rightarrow> bytes res" where
  "length_prefixed value = prefixed value"

text \<open>The \<^verbatim>\<open>info\<close> of the directional secret.\<close>

definition traffic_info :: "pystr \<Rightarrow> bytes \<Rightarrow> bytes \<Rightarrow> bytes res" where
  "traffic_info suite_name sender_public_key recipient_public_key =
     bindE (utf8_encode suite_name) (\<lambda>suite_bytes.
       join_parts
         [Inr (blit ''CypherSyntax/traffic-secret/v1''), length_prefixed suite_bytes,
          length_prefixed sender_public_key, length_prefixed recipient_public_key])"

definition derive_directional_secret ::
    "crypto \<Rightarrow> bytes \<Rightarrow> pystr \<Rightarrow> bytes \<Rightarrow> bytes \<Rightarrow> bytes res" where
  "derive_directional_secret c root_key suite_name sender_public_key recipient_public_key =
     bindE (traffic_info suite_name sender_public_key recipient_public_key) (\<lambda>info.
       Inr (hkdf_expand c root_key 32 None info))"

definition message_info :: "int \<Rightarrow> bytes" where
  "message_info sequence = blit ''CypherSyntax/message-key/v1'' @ be_bytes 8 (nat sequence)"

definition derive_message_key ::
    "crypto \<Rightarrow> bytes \<Rightarrow> pyval \<Rightarrow> pystr \<Rightarrow> bytes \<Rightarrow> bytes \<Rightarrow> (bytes \<times> bytes) res" where
  "derive_message_key c root_key sequence suite_name sender_public_key recipient_public_key =
     thenE (validate_message_sequence sequence)
    (bindE (derive_directional_secret c root_key suite_name sender_public_key recipient_public_key)
      (\<lambda>directional_secret.
        let material = hkdf_expand c directional_secret 44 None (message_info (the_int sequence)) in
        Inr (take 32 material, take 12 (drop 32 material))))"

section \<open>Distinct inputs\<close>

interpretation kdf_fields: prefix_code length_prefixed
  by unfold_locales (auto simp: length_prefixed_def dest: prefixed_prefix_free)

lemma traffic_info_inj:
  assumes "traffic_info suite s r = Inr i" "traffic_info suite' s' r' = Inr i"
  shows "suite = suite' \<and> s = s' \<and> r = r'"
proof -
  obtain sb a where 1: "utf8_encode suite = Inr sb"
    "join_parts (map length_prefixed [sb, s, r]) = Inr a" "i = blit ''CypherSyntax/traffic-secret/v1'' @ a"
    using assms(1) by (auto simp: traffic_info_def res_simps)
  obtain sb' a' where 2: "utf8_encode suite' = Inr sb'"
    "join_parts (map length_prefixed [sb', s', r']) = Inr a'" "i = blit ''CypherSyntax/traffic-secret/v1'' @ a'"
    using assms(2) by (auto simp: traffic_info_def res_simps)
  from 1(3) 2(3) have "a = a'" by simp
  with kdf_fields.fields_inj [OF 1(2), of "[sb', s', r']"] 2(2) have "[sb, s, r] = [sb', s', r']" by simp
  with utf8_encode_inj [OF 1(1)] 2(1) show ?thesis by simp
qed

lemma message_info_inj:
  assumes "0 \<le> m" "m \<le> MAX_MESSAGE_SEQUENCE" "0 \<le> n" "n \<le> MAX_MESSAGE_SEQUENCE"
    and "message_info m = message_info n"
  shows "m = n"
proof -
  have "nat m < 256 ^ 8" "nat n < 256 ^ 8"
    using assms(1-4) by (auto simp: MAX_MESSAGE_SEQUENCE_def nat_less_iff)
  with assms(1,3,5) be_bytes_inj [of "nat m" 8 "nat n"] show ?thesis
    by (simp add: message_info_def del: be_bytes.simps)
qed

text \<open>The labels: no input of one derivation is an input of another.\<close>

lemma length_message_info: "length (message_info n) = 35"
  by (simp add: message_info_def)

lemma traffic_info_label:
  "traffic_info suite s r = Inr i \<Longrightarrow> \<exists>x. i = blit ''CypherSyntax/traffic-secret/v1'' @ x"
  by (auto simp: traffic_info_def res_simps)

lemma label_differs:
  assumes "n < length a" "n < length b" "a ! n \<noteq> b ! n"
  shows "a @ x \<noteq> b @ y"
  using assms by (metis nth_append)

lemma derive_message_key_eq_Inr:
  assumes "lengths_ok c"
  shows "derive_message_key c root x suite s r = Inr (key, nonce) \<longleftrightarrow>
    (\<exists>n info. x = PInt n \<and> 0 \<le> n \<and> n \<le> MAX_MESSAGE_SEQUENCE \<and> traffic_info suite s r = Inr info \<and>
       length key = 32 \<and> length nonce = 12 \<and>
       key @ nonce = hkdf c 44 None (message_info n) (hkdf c 32 None info root))"
proof -
  have split: "take 32 m = key \<and> take 12 (drop 32 m) = nonce \<longleftrightarrow>
      length key = 32 \<and> length nonce = 12 \<and> key @ nonce = m"
    if "length m = 44" for m :: bytes
  proof -
    have "take 12 (drop 32 m) = drop 32 m" using that by simp
    then show ?thesis
      using that append_take_drop_id [of 32 m] by (auto simp del: append_take_drop_id)
  qed
  have "length (hkdf c 44 salt info secret) = 44" for salt info secret
    using assms by (simp add: lengths_ok_def)
  from split [OF this] show ?thesis
    by (auto simp: derive_message_key_def derive_directional_secret_def hkdf_expand_def Let_def
        res_simps)
qed

section \<open>Properties\<close>

text \<open>
  Everything that must change the message key changes what HKDF is given: two derivations
  with the same inputs are for the same suite, the same ordered pair of ephemeral keys and the
  same sequence.  In particular the two directions of a session, which swap the keys, never
  share an input.
\<close>

theorem message_key_inputs_determine:
  assumes "traffic_info suite s r = Inr info" "traffic_info suite' s' r' = Inr info"
    and "0 \<le> m" "m \<le> MAX_MESSAGE_SEQUENCE" "0 \<le> n" "n \<le> MAX_MESSAGE_SEQUENCE"
    and "message_info m = message_info n"
  shows "suite = suite' \<and> s = s' \<and> r = r' \<and> m = n"
  using traffic_info_inj [OF assms(1,2)] message_info_inj [OF assms(3-7)] by simp

theorem message_key_inputs_determine_witness:
  "\<exists>info. traffic_info (lit ''AES_GCM_SIV'') (replicate 32 1) (replicate 32 2) = Inr info \<and>
     traffic_info (lit ''AES_GCM_SIV'') (replicate 32 2) (replicate 32 1) \<noteq> Inr info \<and>
     message_info 3 \<noteq> message_info 4"
proof -
  have ok: "\<exists>info. traffic_info (lit ''AES_GCM_SIV'') (replicate 32 a) (replicate 32 b) = Inr info"
    for a b
    by (simp add: traffic_info_def length_prefixed_def prefixed_def utf8_encode_def lit_def
        is_scalar_def is_surrogate_def utf8_char_def)
  obtain info where i: "traffic_info (lit ''AES_GCM_SIV'') (replicate 32 1) (replicate 32 2) = Inr info"
    using ok by blast
  have swapped: "traffic_info (lit ''AES_GCM_SIV'') (replicate 32 2) (replicate 32 1) \<noteq> Inr info"
    using message_key_inputs_determine [OF i, of "lit ''AES_GCM_SIV''" "replicate 32 2" "replicate 32 1" 0 0]
    by (auto simp: MAX_MESSAGE_SEQUENCE_def)
  have "message_info 3 \<noteq> message_info 4"
    using message_key_inputs_determine [OF i i, of 3 4] by (auto simp: MAX_MESSAGE_SEQUENCE_def)
  with i swapped show ?thesis by blast
qed

text \<open>
  The three uses of HKDF are separated by their labels: no \<^verbatim>\<open>info\<close> of one is an \<^verbatim>\<open>info\<close> of
  another, whatever the suite, the keys and the sequence.
\<close>

theorem kdf_labels_separate:
  "traffic_info suite s r \<noteq> Inr session_root_label \<and> message_info n \<noteq> session_root_label \<and>
   traffic_info suite s r \<noteq> Inr (message_info n)"
proof -
  have "session_root_label \<noteq> blit ''CypherSyntax/traffic-secret/v1'' @ x" for x
    by (simp add: session_root_label_def blit_def)
  moreover have "message_info n \<noteq> blit ''CypherSyntax/traffic-secret/v1'' @ x" for x
    unfolding message_info_def
    by (rule label_differs [of 13]) (simp_all add: blit_def)
  moreover have "message_info n \<noteq> session_root_label"
    by (simp add: message_info_def session_root_label_def blit_def)
  ultimately show ?thesis
    using traffic_info_label by metis
qed

text \<open>
  The key confirmations of the two roles authenticate different payloads, even over
  different transcripts, so a confirmation cannot be reflected; and a payload determines the
  transcript hash it confirms.
\<close>

theorem confirmation_roles_separate:
  "confirmation_payload (lit ''initiator'') h \<noteq> confirmation_payload (lit ''responder'') h' \<and>
   (confirmation_payload (lit ''initiator'') h = confirmation_payload (lit ''initiator'') h' \<longrightarrow>
      h = h')"
  by (simp add: confirmation_payload_def ascii_encode_def lit_def blit_def)

theorem confirmation_roles_separate_witness:
  "confirmation_payload (lit ''initiator'') [1] \<noteq> confirmation_payload (lit ''responder'') [1] \<and>
   confirmation_payload (lit ''initiator'') [1] \<noteq> confirmation_payload (lit ''initiator'') [2]"
  using confirmation_roles_separate [of "[1]" "[1]"] confirmation_roles_separate [of "[1]" "[2]"]
  by auto

text \<open>
  C19. No key and nonce are used for two messages of a direction: when HKDF does not collide on
  the \<^verbatim>\<open>info\<close> strings of the messages, distinct sequences derive distinct pairs, a 32-byte key
  and a 12-byte nonce each.
\<close>

theorem message_keys_distinct:
  assumes "lengths_ok c" "traffic_info suite s r = Inr info"
    and "inj_on (\<lambda>i. hkdf c 44 None i (hkdf c 32 None info root))
           (message_info ` {0..MAX_MESSAGE_SEQUENCE})"
    and "derive_message_key c root (PInt m) suite s r = Inr (key, nonce)"
    and "derive_message_key c root (PInt n) suite s r = Inr (key', nonce')" "m \<noteq> n"
  shows "(key, nonce) \<noteq> (key', nonce') \<and> length key = 32 \<and> length nonce = 12"
proof
  have m: "0 \<le> m" "m \<le> MAX_MESSAGE_SEQUENCE" "length key = 32 \<and> length nonce = 12"
      "key @ nonce = hkdf c 44 None (message_info m) (hkdf c 32 None info root)"
    and n: "0 \<le> n" "n \<le> MAX_MESSAGE_SEQUENCE"
      "key' @ nonce' = hkdf c 44 None (message_info n) (hkdf c 32 None info root)"
    using assms(2,4,5) by (auto simp: derive_message_key_eq_Inr [OF assms(1)])
  show "length key = 32 \<and> length nonce = 12" by (rule m(3))
  have "message_info m \<noteq> message_info n"
    using message_info_inj m(1,2) n(1,2) assms(6) by blast
  then have "key @ nonce \<noteq> key' @ nonce'"
    using assms(3) m n unfolding inj_on_def by (metis atLeastAtMost_iff imageI)
  then show "(key, nonce) \<noteq> (key', nonce')" by auto
qed

theorem message_keys_distinct_witness:
  "derive_message_key toy_crypto [7] (PInt 0) (lit ''AES_GCM_SIV'') (replicate 32 1) (replicate 32 2) \<noteq>
   derive_message_key toy_crypto [7] (PInt 1) (lit ''AES_GCM_SIV'') (replicate 32 1) (replicate 32 2)"
proof -
  have lengths: "lengths_ok toy_crypto"
    using toy_crypto_correct by (simp add: crypto_correct_def)
  let ?t = "traffic_info (lit ''AES_GCM_SIV'') (replicate 32 1) (replicate 32 2)"
  obtain info where i: "?t = Inr info"
    by (simp add: traffic_info_def length_prefixed_def prefixed_def utf8_encode_def lit_def
        is_scalar_def is_surrogate_def utf8_char_def)
  have "fit 44 (rev (message_info m) @ x) = rev (message_info m) @ take 9 (x @ replicate 44 0)" for m x
    by (simp add: fit_def length_message_info)
  then have inj: "inj_on (\<lambda>i. hkdf toy_crypto 44 None i (hkdf toy_crypto 32 None info [7]))
      (message_info ` {0..MAX_MESSAGE_SEQUENCE})"
    by (auto simp: inj_on_def toy_crypto_def length_message_info)
  obtain k0 n0 k1 n1 where
    0: "derive_message_key toy_crypto [7] (PInt 0) (lit ''AES_GCM_SIV'') (replicate 32 1) (replicate 32 2) = Inr (k0, n0)"
    and 1: "derive_message_key toy_crypto [7] (PInt 1) (lit ''AES_GCM_SIV'') (replicate 32 1) (replicate 32 2) = Inr (k1, n1)"
    using i by (simp add: derive_message_key_def derive_directional_secret_def Let_def
        validate_message_sequence_def MAX_MESSAGE_SEQUENCE_def)
  from message_keys_distinct [OF lengths i inj 0 1] 0 1 show ?thesis by auto
qed

end
