(* ===== verification/Replay.thy ===== *)
theory Replay
  imports Protocol
begin

text \<open>
  \<^verbatim>\<open>src/cyphersyntax/replay.py\<close>: the sliding window of received sequence numbers.  An operation
  of the window is a function of the window that returns its result, a value or an exception,
  with the window after it.  \<^verbatim>\<open>_lock\<close> is reentrant and every public operation holds it, so an
  operation is one step of the window; the operation that \<^verbatim>\<open>authenticate_and_record\<close> calls may
  itself act on the window, so it is a function of the window too.

  The specification remembers every sequence ever accepted; \<open>replay_refines\<close> shows that the
  window, which forgets, answers every request the same way.
\<close>

section \<open>The window\<close>

record ReplayWindow =
  window_size :: int
  highest_seen :: int
  seen :: "int set"

text \<open>\<^verbatim>\<open>ReplayWindow(window_size)\<close> with its \<^verbatim>\<open>__post_init__\<close>.\<close>

definition new_window :: "pyval \<Rightarrow> ReplayWindow res" where
  "new_window size_arg =
     (case size_arg of
        PInt n \<Rightarrow>
          if n \<le> 0 then Inl (Exn ValueError (lit ''replay window size must be positive''))
          else Inr \<lparr>window_size = n, highest_seen = -1, seen = {}\<rparr>
      | _ \<Rightarrow> Inl (Exn TypeError (lit ''replay window size must be an integer'')))"

definition check_unlocked :: "ReplayWindow \<Rightarrow> pyval \<Rightarrow> unit res" where
  "check_unlocked self sequence =
     thenE (validate_message_sequence sequence)
    (let n = the_int sequence in
     if n \<in> seen self
     then Inl (Exn ReplayDetectedError (lit ''replayed sequence number: '' @ dec_int n))
     else if n \<le> highest_seen self - window_size self
     then Inl (Exn ReplayDetectedError
            (lit ''stale sequence number outside replay window: '' @ dec_int n))
     else Inr ())"

definition record_unlocked :: "ReplayWindow \<Rightarrow> int \<Rightarrow> ReplayWindow" where
  "record_unlocked self sequence =
     (let added = insert sequence (seen self);
          highest = (if sequence > highest_seen self then sequence else highest_seen self);
          floor = highest - window_size self in
      self\<lparr>seen := Set.filter (\<lambda>number. number > floor) added, highest_seen := highest\<rparr>)"

definition observe :: "pyval \<Rightarrow> ReplayWindow \<Rightarrow> unit res \<times> ReplayWindow" where
  "observe sequence self =
     (case check_unlocked self sequence of
        Inl e \<Rightarrow> (Inl e, self)
      | Inr _ \<Rightarrow> (Inr (), record_unlocked self (the_int sequence)))"

definition authenticate_and_record ::
    "pyval \<Rightarrow> (ReplayWindow \<Rightarrow> 'a res \<times> ReplayWindow) \<Rightarrow> ReplayWindow \<Rightarrow> 'a res \<times> ReplayWindow" where
  "authenticate_and_record sequence operation self =
     (case check_unlocked self sequence of
        Inl e \<Rightarrow> (Inl e, self)
      | Inr _ \<Rightarrow>
          (case operation self of
             (Inl e, self') \<Rightarrow> (Inl e, self')
           | (Inr result, self') \<Rightarrow> (Inr result, record_unlocked self' (the_int sequence))))"

section \<open>Histories\<close>

text \<open>
  An attempt is a sequence, of any type, with the outcome that the authentication has when it
  is run.  A history runs the attempts in the order in which they take the lock.
\<close>

type_synonym 'a attempt = "pyval \<times> 'a res"

definition attempt_step :: "'a attempt \<Rightarrow> ReplayWindow \<Rightarrow> 'a res \<times> ReplayWindow" where
  "attempt_step a = authenticate_and_record (fst a) (\<lambda>w. (snd a, w))"

fun window_run :: "ReplayWindow \<Rightarrow> 'a attempt list \<Rightarrow> 'a res list" where
  "window_run w [] = []"
| "window_run w (a # as) =
     fst (attempt_step a w) # window_run (snd (attempt_step a w)) as"

fun window_after :: "ReplayWindow \<Rightarrow> 'a attempt list \<Rightarrow> ReplayWindow" where
  "window_after w [] = w"
| "window_after w (a # as) = window_after (snd (attempt_step a w)) as"

text \<open>The sequences that a history accepts, in order.\<close>

definition accepted :: "'a attempt list \<Rightarrow> 'a res list \<Rightarrow> int list" where
  "accepted as rs = map (\<lambda>(a, r). the_int (fst a)) (filter (\<lambda>(a, r). \<not> isl r) (zip as rs))"

text \<open>The specification: a window of the given size over all the sequences accepted so far.\<close>

definition spec_check :: "int \<Rightarrow> int list \<Rightarrow> pyval \<Rightarrow> unit res" where
  "spec_check k acc sequence =
     thenE (validate_message_sequence sequence)
    (let n = the_int sequence in
     if list_ex (\<lambda>m. n \<le> m - k) acc
     then Inl (Exn ReplayDetectedError
            (lit ''stale sequence number outside replay window: '' @ dec_int n))
     else if n \<in> set acc
     then Inl (Exn ReplayDetectedError (lit ''replayed sequence number: '' @ dec_int n))
     else Inr ())"

fun spec_run :: "int \<Rightarrow> int list \<Rightarrow> 'a attempt list \<Rightarrow> 'a res list" where
  "spec_run k acc [] = []"
| "spec_run k acc (a # as) =
     (case thenE (spec_check k acc (fst a)) (snd a) of
        Inl e \<Rightarrow> Inl e # spec_run k acc as
      | Inr x \<Rightarrow> Inr x # spec_run k (the_int (fst a) # acc) as)"

section \<open>The interface of a replay filter\<close>

text \<open>
  What a receiver needs of its filter: a recorded sequence is refused from then on, and
  recording never makes another sequence acceptable again.
\<close>

locale replay_filter =
  fixes admits :: "'s \<Rightarrow> int \<Rightarrow> bool"
    and mark :: "'s \<Rightarrow> int \<Rightarrow> 's"
  assumes mark_refuses: "\<not> admits (mark s n) n"
    and mark_antimono: "admits (mark s n) m \<Longrightarrow> admits s m"
begin

fun admitted :: "'s \<Rightarrow> int list \<Rightarrow> int list" where
  "admitted s [] = []"
| "admitted s (n # ns) = (if admits s n then n # admitted (mark s n) ns else admitted s ns)"

lemma admitted_admits: "m \<in> set (admitted s ns) \<Longrightarrow> admits s m"
  by (induction s ns rule: admitted.induct) (auto split: if_splits dest: mark_antimono)

lemma refused_not_admitted: "\<not> admits s m \<Longrightarrow> m \<notin> set (admitted s ns)"
  using admitted_admits by blast

lemma admitted_once: "distinct (admitted s ns)"
  by (induction s ns rule: admitted.induct) (auto simp: mark_refuses dest: admitted_admits)

end

section \<open>Well-formed windows\<close>

definition window_inv :: "ReplayWindow \<Rightarrow> bool" where
  "window_inv w \<longleftrightarrow>
     0 < window_size w \<and> -1 \<le> highest_seen w \<and> highest_seen w \<le> MAX_MESSAGE_SEQUENCE \<and>
     seen w \<subseteq> {max 0 (highest_seen w - window_size w + 1)..highest_seen w} \<and>
     (highest_seen w = -1 \<or> highest_seen w \<in> seen w)"

lemma new_window_inv: "new_window x = Inr w \<Longrightarrow> window_inv w"
  by (cases x) (auto simp: new_window_def window_inv_def MAX_MESSAGE_SEQUENCE_def split: if_splits)

lemma check_unlocked_eq_Inr [res_simps]:
  "check_unlocked w x = Inr u \<longleftrightarrow>
     (\<exists>n. x = PInt n \<and> 0 \<le> n \<and> n \<le> MAX_MESSAGE_SEQUENCE \<and> n \<notin> seen w \<and>
        highest_seen w - window_size w < n)"
  by (auto simp: check_unlocked_def Let_def res_simps)

lemma record_unlocked_simps:
  "window_size (record_unlocked w n) = window_size w"
  "highest_seen (record_unlocked w n) = max n (highest_seen w)"
  "seen (record_unlocked w n) =
     {m. (m = n \<or> m \<in> seen w) \<and> max n (highest_seen w) - window_size w < m}"
  by (auto simp: record_unlocked_def Let_def max_def)

lemma record_unlocked_inv:
  assumes "window_inv w" "0 \<le> n" "n \<le> MAX_MESSAGE_SEQUENCE"
  shows "window_inv (record_unlocked w n)"
  using assms by (auto simp: window_inv_def record_unlocked_simps max_def)

lemma observe_inv: "window_inv w \<Longrightarrow> window_inv (snd (observe x w))"
  by (auto simp: observe_def record_unlocked_inv res_simps split: sum.splits)

lemma authenticate_inv:
  assumes "window_inv w" "\<And>v. window_inv v \<Longrightarrow> window_inv (snd (f v))"
  shows "window_inv (snd (authenticate_and_record x f w))"
  using assms(1) assms(2) [OF assms(1)]
  by (auto simp: authenticate_and_record_def record_unlocked_inv res_simps
      split: sum.splits prod.splits)

lemma card_seen:
  assumes "window_inv w"
  shows "finite (seen w)" "int (card (seen w)) \<le> window_size w"
proof -
  let ?I = "{highest_seen w - window_size w + 1..highest_seen w}"
  have sub: "seen w \<subseteq> ?I" using assms by (auto simp: window_inv_def)
  then show "finite (seen w)" by (rule finite_subset) simp
  have "card (seen w) \<le> card ?I" using sub by (intro card_mono) simp_all
  with assms show "int (card (seen w)) \<le> window_size w" by (auto simp: window_inv_def)
qed

text \<open>The window is a replay filter.\<close>

definition window_admits :: "ReplayWindow \<Rightarrow> int \<Rightarrow> bool" where
  "window_admits w n \<longleftrightarrow> check_unlocked w (PInt n) = Inr ()"

interpretation window: replay_filter window_admits record_unlocked
  by unfold_locales (auto simp: window_admits_def res_simps record_unlocked_simps)

section \<open>The window against its specification\<close>

definition window_sim :: "int \<Rightarrow> int list \<Rightarrow> ReplayWindow \<Rightarrow> bool" where
  "window_sim k acc w \<longleftrightarrow>
     0 < k \<and> window_size w = k \<and> list_all (\<lambda>n. 0 \<le> n) acc \<and>
     highest_seen w = fold max acc (-1) \<and>
     seen w = {n \<in> set acc. highest_seen w - k < n}"

lemma fold_max_bounds: "(b :: int) \<le> fold max acc b" "n \<in> set acc \<Longrightarrow> n \<le> fold max acc b"
proof (induction acc arbitrary: b)
  case (Cons m acc)
  { case 1 show ?case using Cons.IH(1) [of "max m b"] by simp }
  { case 2 then show ?case using Cons.IH(1) [of "max m b"] Cons.IH(2) [of "max m b"] by auto }
qed auto

lemma fold_max_in: "fold max acc (b :: int) = b \<or> fold max acc b \<in> set acc"
proof (induction acc arbitrary: b)
  case (Cons m acc)
  show ?case using Cons [of "max m b"] by (auto simp: max_def split: if_splits)
qed simp

lemma fold_max_Cons: "fold max (n # acc) (b :: int) = max n (fold max acc b)"
proof (induction acc arbitrary: b)
  case (Cons m acc)
  from Cons.IH [of "max m b"] show ?case by (simp add: max.left_commute)
qed simp

lemma new_window_sim: "new_window (PInt k) = Inr w \<Longrightarrow> window_sim k [] w"
  by (auto simp: new_window_def window_sim_def split: if_splits)

lemma check_sim:
  assumes "window_sim k acc w"
  shows "check_unlocked w x = spec_check k acc x"
proof (cases "validate_message_sequence x")
  case (Inr u)
  then obtain n where x: "x = PInt n" "0 \<le> n" by (auto simp: res_simps)
  have "list_ex (\<lambda>m. n \<le> m - k) acc \<longleftrightarrow> n \<le> highest_seen w - k"
    using assms x(2) fold_max_bounds(2) [of _ acc "-1"] fold_max_in [of acc "-1"]
    by (fastforce simp: window_sim_def list_ex_iff)
  then show ?thesis
    using assms Inr x by (auto simp: check_unlocked_def spec_check_def window_sim_def Let_def)
qed (simp add: check_unlocked_def spec_check_def)

lemma record_sim: "window_sim k acc w \<Longrightarrow> 0 \<le> n \<Longrightarrow> window_sim k (n # acc) (record_unlocked w n)"
proof -
  assume sim: "window_sim k acc w" and n: "0 \<le> n"
  let ?w = "record_unlocked w n"
  have high: "highest_seen ?w = fold max (n # acc) (-1)"
    unfolding record_unlocked_simps fold_max_Cons using sim by (simp add: window_sim_def)
  have size: "window_size w = k" using sim by (simp add: window_sim_def)
  have "seen ?w = {m \<in> set (n # acc). highest_seen ?w - k < m}"
  proof (rule set_eqI)
    fix m
    have "m \<in> seen w \<longleftrightarrow> m \<in> set acc \<and> highest_seen w - k < m"
      using sim by (simp add: window_sim_def)
    moreover have "max n (highest_seen w) - k < m \<longrightarrow> highest_seen w - k < m"
      using max.cobounded2 [of "highest_seen w" n] by linarith
    ultimately show "m \<in> seen ?w \<longleftrightarrow> m \<in> {m \<in> set (n # acc). highest_seen ?w - k < m}"
      unfolding record_unlocked_simps size by fastforce
  qed
  moreover have "0 < k" "window_size ?w = k" "list_all (\<lambda>m. 0 \<le> m) (n # acc)"
    using sim n size by (simp_all add: window_sim_def record_unlocked_simps)
  ultimately show ?thesis
    unfolding window_sim_def using high by blast
qed

lemma attempt_step_cases:
  "attempt_step a w =
     (case thenE (check_unlocked w (fst a)) (snd a) of
        Inl e \<Rightarrow> (Inl e, w)
      | Inr r \<Rightarrow> (Inr r, record_unlocked w (the_int (fst a))))"
  by (cases "check_unlocked w (fst a)"; cases "snd a")
    (auto simp: attempt_step_def authenticate_and_record_def)

lemma window_run_sim: "window_sim k acc w \<Longrightarrow> window_run w as = spec_run k acc as"
proof (induction as arbitrary: acc w)
  case (Cons a as)
  show ?case
  proof (cases "thenE (check_unlocked w (fst a)) (snd a)")
    case (Inl e)
    with Cons show ?thesis by (simp add: attempt_step_cases check_sim [OF Cons.prems])
  next
    case (Inr r)
    then have "0 \<le> the_int (fst a)" by (auto simp: res_simps)
    with Cons.IH [OF record_sim [OF Cons.prems]] Inr show ?thesis
      by (simp add: attempt_step_cases check_sim [OF Cons.prems])
  qed
qed simp

lemma accepted_admitted:
  "\<exists>ns. accepted as (window_run w as) = window.admitted w ns"
proof (induction as arbitrary: w)
  case Nil
  show ?case by (rule exI [of _ "[]"]) (simp add: accepted_def)
next
  case (Cons a as)
  show ?case
  proof (cases "thenE (check_unlocked w (fst a)) (snd a)")
    case (Inl e)
    with Cons [of w] show ?thesis by (simp add: attempt_step_cases accepted_def)
  next
    case (Inr r)
    let ?n = "the_int (fst a)"
    obtain ns where "accepted as (window_run (record_unlocked w ?n) as) =
        window.admitted (record_unlocked w ?n) ns"
      using Cons by blast
    moreover have "window_admits w ?n"
      using Inr by (auto simp: window_admits_def res_simps)
    ultimately have "accepted (a # as) (window_run w (a # as)) = window.admitted w (?n # ns)"
      using Inr by (simp add: attempt_step_cases accepted_def)
    then show ?thesis by blast
  qed
qed

lemma attempt_step_inv: "window_inv w \<Longrightarrow> window_inv (snd (attempt_step a w))"
  unfolding attempt_step_def by (rule authenticate_inv) simp_all

lemma window_after_inv: "window_inv w \<Longrightarrow> window_inv (window_after w as)"
  by (induction as arbitrary: w) (simp_all add: attempt_step_inv)

lemma window_after_sim:
  "window_sim k acc w \<Longrightarrow> window_sim k (rev (accepted as (window_run w as)) @ acc) (window_after w as)"
proof (induction as arbitrary: acc w)
  case (Cons a as)
  show ?case
  proof (cases "thenE (check_unlocked w (fst a)) (snd a)")
    case (Inl e)
    with Cons.IH [OF Cons.prems] show ?thesis by (simp add: attempt_step_cases accepted_def)
  next
    case (Inr r)
    then have "0 \<le> the_int (fst a)" by (auto simp: res_simps)
    with Cons.IH [OF record_sim [OF Cons.prems]] Inr show ?thesis
      by (simp add: attempt_step_cases accepted_def)
  qed
qed (simp add: accepted_def)

section \<open>Properties\<close>

text \<open>
  C17. The window answers every history of attempts, value or exception and with the same
  message, exactly as the specification that remembers all the sequences it ever accepted.
\<close>

theorem replay_refines:
  assumes "new_window (PInt k) = Inr w"
  shows "window_run w as = spec_run k [] as"
  by (rule window_run_sim [OF new_window_sim [OF assms]])

definition sample_attempts :: "unit attempt list" where
  "sample_attempts =
     [(PInt 5, Inr ()), (PInt 5, Inr ()), (PInt 4, Inl (Exn InvalidTag [])), (PInt 4, Inr ()),
      (PInt 9, Inr ()), (PInt 6, Inr ()), (PStr [], Inr ()), (PInt 8, Inr ())]"

theorem replay_refines_witness:
  "window_run \<lparr>window_size = 3, highest_seen = -1, seen = {}\<rparr> sample_attempts =
     spec_run 3 [] sample_attempts \<and>
   accepted sample_attempts (spec_run 3 [] sample_attempts) = [5, 4, 9, 8]"
proof
  show "window_run \<lparr>window_size = 3, highest_seen = -1, seen = {}\<rparr> sample_attempts =
      spec_run 3 [] sample_attempts"
    by (rule replay_refines) (simp add: new_window_def)
  show "accepted sample_attempts (spec_run 3 [] sample_attempts) = [5, 4, 9, 8]"
    by (simp add: sample_attempts_def accepted_def spec_check_def validate_message_sequence_def
        MAX_MESSAGE_SEQUENCE_def Let_def)
qed

text \<open>
  No sequence is accepted twice, in any history, from any state of the window.
\<close>

theorem replay_accepts_once: "distinct (accepted as (window_run w as))"
  using accepted_admitted [of as w] window.admitted_once by metis

text \<open>
  A genuine message that was not accepted before and is not below the window is accepted,
  after any history: the window never refuses without a reason.
\<close>

theorem replay_accepts_fresh:
  assumes "new_window (PInt k) = Inr w" "0 \<le> n" "n \<le> MAX_MESSAGE_SEQUENCE"
    and "n \<notin> set (accepted as (window_run w as))"
    and "list_all (\<lambda>m. m - k < n) (accepted as (window_run w as))"
  shows "fst (attempt_step (PInt n, Inr r) (window_after w as)) = Inr r"
proof -
  have "window_sim k (rev (accepted as (window_run w as))) (window_after w as)"
    using window_after_sim [OF new_window_sim [OF assms(1)], of as] by simp
  then have "check_unlocked (window_after w as) (PInt n) = Inr ()"
    using assms(2-5)
    by (auto simp: check_sim spec_check_def Let_def res_simps list_ex_iff list_all_iff
        validate_message_sequence_def)
  then show ?thesis by (simp add: attempt_step_cases)
qed

theorem replay_accepts_fresh_witness:
  "fst (attempt_step (PInt 7, Inr True)
     (window_after \<lparr>window_size = 3, highest_seen = -1, seen = {}\<rparr> [(PInt 9, Inr False)])) =
   Inr True"
  by (rule replay_accepts_fresh [where k = 3])
    (auto simp: new_window_def MAX_MESSAGE_SEQUENCE_def accepted_def attempt_step_cases
      check_unlocked_def validate_message_sequence_def Let_def record_unlocked_def)

text \<open>
  C18. After any history the window is well formed: every remembered sequence lies in the
  window, the highest one is remembered, and at most \<^verbatim>\<open>window_size\<close> are remembered.
\<close>

theorem replay_window_bounded:
  assumes "new_window x = Inr w"
  shows "window_inv (window_after w as) \<and> finite (seen (window_after w as)) \<and>
    int (card (seen (window_after w as))) \<le> window_size (window_after w as)"
  using window_after_inv [OF new_window_inv [OF assms], of as] card_seen by blast

theorem replay_window_bounded_witness:
  "int (card (seen (window_after \<lparr>window_size = 3, highest_seen = -1, seen = {}\<rparr> sample_attempts))) \<le> 3"
proof -
  let ?w = "\<lparr>window_size = 3, highest_seen = -1, seen = {}\<rparr>"
  have "window_size (window_after w as) = window_size w" for w and as :: "unit attempt list"
    by (induction as arbitrary: w) (auto simp: attempt_step_cases record_unlocked_simps split: sum.splits)
  then show ?thesis
    using replay_window_bounded [of "PInt 3" ?w sample_attempts] by (simp add: new_window_def)
qed

text \<open>
  An attempt that fails, in the check or in the authentication, leaves the window as it
  was, so a forged message does not use up its sequence number.
\<close>

theorem replay_failure_harmless:
  assumes "fst (attempt_step a w) = Inl e"
  shows "snd (attempt_step a w) = w"
  using assms by (auto simp: attempt_step_cases split: sum.splits)

theorem replay_failure_harmless_witness:
  "snd (attempt_step (PInt 4, Inl (Exn InvalidTag []) :: unit res)
     \<lparr>window_size = 3, highest_seen = 5, seen = {5}\<rparr>) =
   \<lparr>window_size = 3, highest_seen = 5, seen = {5}\<rparr>"
  by (rule replay_failure_harmless [where e = "Exn InvalidTag []"])
    (simp add: attempt_step_cases check_unlocked_def validate_message_sequence_def
      MAX_MESSAGE_SEQUENCE_def Let_def)

end
