(* ===== verification/Wire.thy ===== *)
theory Wire
  imports Protocol
begin

text \<open>
  \<^verbatim>\<open>src/cyphersyntax/wire.py\<close>: the message envelope, its validation, its canonical JSON form
  and its parser.  \<open>MessageEnvelope\<close> is a plain mutable dataclass, so its fields hold values of
  any type until they are validated.
\<close>

section \<open>Validation of the fields\<close>

definition envelope_error :: "pystr \<Rightarrow> exn" where
  "envelope_error m = Exn EnvelopeError m"

definition ENVELOPE_FIELDS :: "pystr list" where
  "ENVELOPE_FIELDS =
     [lit ''v'', lit ''suite'', lit ''sender'', lit ''recipient'', lit ''sequence'',
      lit ''ciphertext'']"

text \<open>\<^verbatim>\<open>[A-Z][A-Z0-9_]*\Z\<close> and \<^verbatim>\<open>[0-9a-f]+\Z\<close>, matched against the whole string.\<close>

definition is_upper :: "nat \<Rightarrow> bool" where
  "is_upper c \<longleftrightarrow> 65 \<le> c \<and> c \<le> 90"

fun suite_pattern :: "pystr \<Rightarrow> bool" where
  "suite_pattern [] = False"
| "suite_pattern (c # s) = (is_upper c \<and> list_all (\<lambda>d. is_upper d \<or> is_digit d \<or> d = 95) s)"

definition hex_pattern :: "pystr \<Rightarrow> bool" where
  "hex_pattern s \<longleftrightarrow> s \<noteq> [] \<and> list_all is_lower_hex s"

definition envelope_reject_duplicate_keys :: "(pystr \<times> pyval) list \<Rightarrow> pyval res" where
  "envelope_reject_duplicate_keys pairs =
     collect_pairs (\<lambda>key. envelope_error (lit ''duplicate envelope field: '' @ key)) [] pairs"

definition validate_protocol_version :: "pyval \<Rightarrow> int res" where
  "validate_protocol_version version =
     (case version of
        PInt v \<Rightarrow>
          if \<not> (1 \<le> v \<and> v \<le> MAX_PROTOCOL_VERSION)
          then Inl (envelope_error (lit ''envelope version is outside the supported wire range''))
          else Inr v
      | _ \<Rightarrow> Inl (envelope_error (lit ''envelope version must be an integer'')))"

definition validate_suite_name :: "pyval \<Rightarrow> pystr res" where
  "validate_suite_name suite =
     (case suite of
        PStr s \<Rightarrow>
          if \<not> list_all (\<lambda>c. c < 128) s
          then Inl (envelope_error (lit ''envelope suite must contain only ASCII characters''))
          else if s = [] \<or> length s > MAX_SUITE_NAME_BYTES
          then Inl (envelope_error (lit ''envelope suite must contain 1 to 64 bytes''))
          else if \<not> suite_pattern s
          then Inl (envelope_error (lit ''envelope suite contains invalid characters''))
          else Inr s
      | _ \<Rightarrow> Inl (envelope_error (lit ''envelope suite must be a string'')))"

definition validate_participant_name :: "runtime \<Rightarrow> pystr \<Rightarrow> pyval \<Rightarrow> pystr res" where
  "validate_participant_name rt field_name value =
     (case value of
        PStr s \<Rightarrow>
          bindE
            (wrap_exn [UnicodeEncodeError]
              (\<lambda>_. envelope_error (lit ''envelope '' @ field_name @ lit '' must contain valid Unicode''))
              (utf8_encode s))
            (\<lambda>encoded.
              if encoded = [] \<or> length encoded > MAX_PARTICIPANT_NAME_BYTES
              then Inl (envelope_error
                     (lit ''envelope '' @ field_name @ lit '' must contain 1 to 255 UTF-8 bytes''))
              else if s \<noteq> strip s
              then Inl (envelope_error
                     (lit ''envelope '' @ field_name @ lit '' must not contain surrounding whitespace''))
              else if \<not> isprintable rt s
              then Inl (envelope_error
                     (lit ''envelope '' @ field_name @ lit '' must contain only printable characters''))
              else Inr s)
      | _ \<Rightarrow> Inl (envelope_error (lit ''envelope '' @ field_name @ lit '' must be a string'')))"

definition validate_ciphertext :: "pyval \<Rightarrow> bytes res" where
  "validate_ciphertext ciphertext =
     (case ciphertext of
        PBytes c \<Rightarrow>
          if length c < AEAD_TAG_BYTES
          then Inl (envelope_error (lit ''envelope ciphertext is shorter than the AEAD tag''))
          else if length c > MAX_CIPHERTEXT_BYTES
          then Inl (envelope_error (lit ''envelope ciphertext exceeds the maximum size''))
          else Inr c
      | _ \<Rightarrow> Inl (envelope_error (lit ''envelope ciphertext must be bytes'')))"

definition decode_ciphertext :: "pyval \<Rightarrow> bytes res" where
  "decode_ciphertext value =
     (case value of
        PStr s \<Rightarrow>
          if length s mod 2 \<noteq> 0
          then Inl (envelope_error (lit ''envelope ciphertext must contain an even number of hex digits''))
          else if \<not> hex_pattern s
          then Inl (envelope_error (lit ''envelope ciphertext must use canonical lowercase hexadecimal''))
          else opt_else (fromhex s)
                 (envelope_error (lit ''envelope ciphertext is not valid hexadecimal''))
      | _ \<Rightarrow> Inl (envelope_error (lit ''envelope ciphertext encoding must be a string'')))"

section \<open>The envelope\<close>

record MessageEnvelope =
  env_version :: pyval
  env_suite :: pyval
  env_sender :: pyval
  env_recipient :: pyval
  env_sequence :: pyval
  env_ciphertext :: pyval

definition validate_metadata :: "runtime \<Rightarrow> MessageEnvelope \<Rightarrow> unit res" where
  "validate_metadata rt self =
     thenE (validate_protocol_version (env_version self))
    (thenE (validate_suite_name (env_suite self))
    (bindE (validate_participant_name rt (lit ''sender'') (env_sender self)) (\<lambda>sender.
     bindE (validate_participant_name rt (lit ''recipient'') (env_recipient self)) (\<lambda>recipient.
     if sender = recipient
     then Inl (envelope_error (lit ''envelope sender and recipient must be distinct''))
     else wrap_exn [TypeError, ValueError] (\<lambda>exc. envelope_error (msg exc))
            (validate_message_sequence (env_sequence self))))))"

definition validate_complete :: "runtime \<Rightarrow> MessageEnvelope \<Rightarrow> unit res" where
  "validate_complete rt self =
     thenE (validate_metadata rt self)
    (thenE (validate_ciphertext (env_ciphertext self)) (Inr ()))"

text \<open>\<^verbatim>\<open>self.ciphertext.hex()\<close>, after validation has made sure of bytes.\<close>

definition ciphertext_hex :: "pyval \<Rightarrow> pyval" where
  "ciphertext_hex c = (case c of PBytes b \<Rightarrow> PStr (bytes_hex b) | _ \<Rightarrow> PObj)"

definition associated_data :: "runtime \<Rightarrow> MessageEnvelope \<Rightarrow> bytes res" where
  "associated_data rt self =
     thenE (validate_metadata rt self)
    (bindE
      (dumps rt True True (str_dict
        [(lit ''v'', env_version self),
         (lit ''suite'', env_suite self),
         (lit ''sender'', env_sender self),
         (lit ''recipient'', env_recipient self),
         (lit ''sequence'', env_sequence self)]))
      utf8_encode)"

definition envelope_to_bytes :: "runtime \<Rightarrow> MessageEnvelope \<Rightarrow> bytes res" where
  "envelope_to_bytes rt self =
     thenE (validate_complete rt self)
    (bindE
      (bindE
        (dumps rt True True (str_dict
          [(lit ''v'', env_version self),
           (lit ''suite'', env_suite self),
           (lit ''sender'', env_sender self),
           (lit ''recipient'', env_recipient self),
           (lit ''sequence'', env_sequence self),
           (lit ''ciphertext'', ciphertext_hex (env_ciphertext self))]))
        utf8_encode)
      (\<lambda>encoded.
        if length encoded > MAX_ENVELOPE_BYTES
        then Inl (envelope_error (lit ''encoded message envelope exceeds the maximum size''))
        else Inr encoded))"

text \<open>The \<^verbatim>\<open>try\<close> block that decodes and parses, with its two \<^verbatim>\<open>except\<close> clauses.\<close>

definition envelope_parse_json :: "runtime \<Rightarrow> bytes \<Rightarrow> pyval res" where
  "envelope_parse_json rt data =
     catchE
       (bindE (decode_utf8 data) (loads rt envelope_reject_duplicate_keys default_constant))
       (\<lambda>exc.
         if isinstance_of exc [EnvelopeError] then Inl exc
         else if isinstance_of exc [UnicodeDecodeError, JSONDecodeError, RecursionError, ValueError]
         then Inl (envelope_error (lit ''failed to parse message envelope''))
         else Inl exc)"

definition envelope_from_bytes :: "runtime \<Rightarrow> pyval \<Rightarrow> MessageEnvelope res" where
  "envelope_from_bytes rt input =
     (case input of
        PBytes data \<Rightarrow>
          thenE (raise_if (data = []) (envelope_error (lit ''message envelope input must not be empty'')))
         (thenE (raise_if (length data > MAX_ENVELOPE_BYTES)
                  (envelope_error (lit ''message envelope input exceeds the maximum size'')))
         (bindE (envelope_parse_json rt data) (\<lambda>raw.
          case raw of
            PDict items \<Rightarrow>
              let received_fields = object_keys items;
                  missing = missing_fields ENVELOPE_FIELDS received_fields;
                  unexpected = unexpected_fields ENVELOPE_FIELDS received_fields in
              thenE (raise_if (missing \<noteq> [])
                      (envelope_error (lit ''message envelope is missing fields: '' @
                         join (lit '', '') missing)))
             (thenE (raise_if (unexpected \<noteq> [])
                      (envelope_error (lit ''message envelope contains unexpected fields: '' @
                         join (lit '', '') unexpected)))
             (bindE (bindE (object_get items (lit ''v'')) validate_protocol_version) (\<lambda>version.
              bindE (bindE (object_get items (lit ''suite'')) validate_suite_name) (\<lambda>suite.
              bindE (bindE (object_get items (lit ''sender''))
                      (validate_participant_name rt (lit ''sender''))) (\<lambda>sender.
              bindE (bindE (object_get items (lit ''recipient''))
                      (validate_participant_name rt (lit ''recipient''))) (\<lambda>recipient.
              bindE (object_get items (lit ''sequence'')) (\<lambda>sequence.
              bindE (bindE (object_get items (lit ''ciphertext'')) decode_ciphertext) (\<lambda>ciphertext.
              let envelope = \<lparr>env_version = PInt version, env_suite = PStr suite,
                    env_sender = PStr sender, env_recipient = PStr recipient,
                    env_sequence = sequence, env_ciphertext = PBytes ciphertext\<rparr> in
              thenE (validate_complete rt envelope)
             (bindE (envelope_to_bytes rt envelope) (\<lambda>encoded.
              if encoded \<noteq> data
              then Inl (envelope_error (lit ''message envelope is not canonically encoded''))
              else Inr envelope))))))))))
          | _ \<Rightarrow> Inl (envelope_error (lit ''message envelope must be a JSON object'')))))
      | _ \<Rightarrow> Inl (envelope_error (lit ''message envelope input must be bytes'')))"

section \<open>Valid envelopes\<close>

definition suite_name_ok :: "pystr \<Rightarrow> bool" where
  "suite_name_ok s \<longleftrightarrow> length s \<le> MAX_SUITE_NAME_BYTES \<and> suite_pattern s"

definition make_envelope :: "int \<Rightarrow> pystr \<Rightarrow> pystr \<Rightarrow> pystr \<Rightarrow> int \<Rightarrow> bytes \<Rightarrow> MessageEnvelope" where
  "make_envelope version suite sender recipient sequence ciphertext =
     \<lparr>env_version = PInt version, env_suite = PStr suite, env_sender = PStr sender,
      env_recipient = PStr recipient, env_sequence = PInt sequence,
      env_ciphertext = PBytes ciphertext\<rparr>"

definition metadata_ok :: "runtime \<Rightarrow> int \<Rightarrow> pystr \<Rightarrow> pystr \<Rightarrow> pystr \<Rightarrow> int \<Rightarrow> bool" where
  "metadata_ok rt version suite sender recipient sequence \<longleftrightarrow>
     1 \<le> version \<and> version \<le> MAX_PROTOCOL_VERSION \<and> suite_name_ok suite \<and>
     name_ok rt sender \<and> name_ok rt recipient \<and> sender \<noteq> recipient \<and>
     0 \<le> sequence \<and> sequence \<le> MAX_MESSAGE_SEQUENCE"

definition ciphertext_ok :: "bytes \<Rightarrow> bool" where
  "ciphertext_ok c \<longleftrightarrow> AEAD_TAG_BYTES \<le> length c \<and> length c \<le> MAX_CIPHERTEXT_BYTES"

text \<open>The envelopes that pass \<^verbatim>\<open>_validate_complete\<close>.\<close>

definition envelope_valid :: "runtime \<Rightarrow> MessageEnvelope \<Rightarrow> bool" where
  "envelope_valid rt e \<longleftrightarrow>
     (\<exists>version suite sender recipient sequence ciphertext.
        e = make_envelope version suite sender recipient sequence ciphertext \<and>
        metadata_ok rt version suite sender recipient sequence \<and> ciphertext_ok ciphertext)"

lemma suite_pattern_ascii: "suite_pattern s \<Longrightarrow> list_all (\<lambda>c. c < 128) s"
  by (cases s) (auto simp: list_all_iff is_upper_def is_digit_def)

lemma validate_protocol_version_eq_Inr [res_simps]:
  "validate_protocol_version x = Inr v \<longleftrightarrow> x = PInt v \<and> 1 \<le> v \<and> v \<le> MAX_PROTOCOL_VERSION"
  by (cases x) (auto simp: validate_protocol_version_def)

lemma validate_suite_name_eq_Inr [res_simps]:
  "validate_suite_name x = Inr s \<longleftrightarrow> x = PStr s \<and> suite_name_ok s"
  by (cases x) (auto simp: validate_suite_name_def suite_name_ok_def suite_pattern_ascii)

lemma validate_participant_name_eq_Inr [res_simps]:
  "validate_participant_name rt f x = Inr s \<longleftrightarrow> x = PStr s \<and> name_ok rt s"
  by (cases x) (auto simp: validate_participant_name_def name_ok_def res_simps concat_utf8_eq_Nil)

lemma validate_ciphertext_eq_Inr [res_simps]:
  "validate_ciphertext x = Inr c \<longleftrightarrow> x = PBytes c \<and> ciphertext_ok c"
  by (cases x) (auto simp: validate_ciphertext_def ciphertext_ok_def)

lemma validate_metadata_eq_Inr [res_simps]:
  "validate_metadata rt e = Inr u \<longleftrightarrow>
     (\<exists>version suite sender recipient sequence.
        env_version e = PInt version \<and> env_suite e = PStr suite \<and> env_sender e = PStr sender \<and>
        env_recipient e = PStr recipient \<and> env_sequence e = PInt sequence \<and>
        metadata_ok rt version suite sender recipient sequence)"
  by (auto simp: validate_metadata_def res_simps metadata_ok_def)

lemma validate_complete_eq_Inr [res_simps]:
  "validate_complete rt e = Inr u \<longleftrightarrow> envelope_valid rt e"
proof -
  have "(\<exists>s. e = make_envelope a b c d q s) \<longleftrightarrow>
      env_version e = PInt a \<and> env_suite e = PStr b \<and> env_sender e = PStr c \<and>
      env_recipient e = PStr d \<and> env_sequence e = PInt q \<and> (\<exists>s. env_ciphertext e = PBytes s)"
    for a b c d q
    by (cases e) (auto simp: make_envelope_def)
  then show ?thesis
    by (cases e) (auto simp: validate_complete_def envelope_valid_def make_envelope_def res_simps)
qed

section \<open>Serialisation and parsing\<close>

interpretation envelope_hook: pairs_hook envelope_reject_duplicate_keys EnvelopeError
proof unfold_locales
  fix ps :: "(pystr \<times> pyval) list"
  show "distinct (map fst ps) \<Longrightarrow> envelope_reject_duplicate_keys ps = Inr (str_dict ps)"
    by (simp add: envelope_reject_duplicate_keys_def collect_pairs_distinct)
  show "\<not> distinct (map fst ps) \<Longrightarrow> \<exists>m. envelope_reject_duplicate_keys ps = Inl (Exn EnvelopeError m)"
    using collect_pairs_duplicate [of "[]" ps]
    by (auto simp: envelope_reject_duplicate_keys_def envelope_error_def)
qed simp

text \<open>The envelope's items in the order of the encoder.\<close>

definition envelope_items :: "int \<Rightarrow> pystr \<Rightarrow> pystr \<Rightarrow> pystr \<Rightarrow> int \<Rightarrow> bytes \<Rightarrow> (pystr \<times> pyval) list" where
  "envelope_items version suite sender recipient sequence ciphertext =
     [(lit ''ciphertext'', PStr (bytes_hex ciphertext)), (lit ''recipient'', PStr recipient),
      (lit ''sender'', PStr sender), (lit ''sequence'', PInt sequence),
      (lit ''suite'', PStr suite), (lit ''v'', PInt version)]"

lemma envelope_items_sorted:
  "sorted_wrt (<) (map fst (envelope_items v su s r q c))"
  by (simp add: envelope_items_def lit_def)

lemma envelope_sort:
  "sort_key fst
     [(lit ''v'', PInt v), (lit ''suite'', PStr su), (lit ''sender'', PStr s),
      (lit ''recipient'', PStr r), (lit ''sequence'', PInt q),
      (lit ''ciphertext'', PStr (bytes_hex c))] = envelope_items v su s r q c"
  by (simp add: envelope_items_def lit_def)

lemma suite_name_scalar: "suite_name_ok s \<Longrightarrow> list_all is_scalar s"
  by (simp add: suite_name_ok_def suite_pattern_ascii ascii_is_scalar)

lemma envelope_items_flat:
  assumes "metadata_ok rt v su s r q"
  shows "\<forall>kv \<in> set (envelope_items v su s r q c). list_all is_scalar (fst kv) \<and> flat_value (snd kv)"
proof -
  have "int_prints v" "int_prints q"
    using assms by (auto simp: metadata_ok_def protocol_constants intro!: int_prints_small)
  moreover have "list_all is_scalar su" "list_all is_scalar s" "list_all is_scalar r"
    using assms by (auto simp: metadata_ok_def name_ok_def suite_name_scalar)
  moreover have "list_all is_scalar (bytes_hex c)"
    by (rule lower_hex_scalar [OF bytes_hex_lower])
  ultimately show ?thesis
    by (auto simp: envelope_items_def flat_value_def intro!: lit_scalar_ascii)
qed

lemmas envelope_codec =
  envelope_hook.codec_flat [OF envelope_items_sorted envelope_items_flat]

text \<open>The JSON text of a valid envelope is ASCII and stays below the size limit.\<close>

lemma length_escape_char_True: "length (escape_char True c) \<le> 6 * length (utf8_char c)"
  by (auto simp: escape_char_def utf8_char_def split: option.splits)

lemma length_quote_True: "length (quote True s) \<le> 2 + 6 * length (concat (map utf8_char s))"
proof (induction s)
  case (Cons c s)
  with length_escape_char_True [of c] show ?case by (simp add: quote_def)
qed (simp add: quote_def)

lemma suite_pattern_plain: "suite_pattern s \<Longrightarrow> list_all plain_char s"
  by (cases s) (auto simp: list_all_iff is_upper_def is_digit_def plain_char_def)

lemma length_envelope_text:
  assumes "metadata_ok rt v su s r q" "ciphertext_ok c"
  shows "length (flat_text True (envelope_items v su s r q c)) \<le> MAX_ENVELOPE_BYTES"
proof -
  have "length (quote True (bytes_hex c)) = 2 + 2 * length c"
    by (simp add: quote_plain lower_hex_plain bytes_hex_lower)
  moreover have "length (quote True su) \<le> 66"
    using assms(1) by (simp add: quote_plain suite_pattern_plain metadata_ok_def suite_name_ok_def
        protocol_constants)
  moreover have "length (quote True s) \<le> 1532" "length (quote True r) \<le> 1532"
    using length_quote_True [of s] length_quote_True [of r] assms(1)
    by (auto simp: metadata_ok_def name_ok_def protocol_constants)
  moreover have "length (dec_int v) \<le> 5" "length (dec_int q) \<le> 20"
    using assms(1) by (auto simp: metadata_ok_def protocol_constants intro!: length_dec_int)
  moreover have "length c \<le> 1048592"
    using assms(2) by (simp add: ciphertext_ok_def protocol_constants)
  moreover have k: "length (quote True (lit k)) = length k + 2" if "list_all plain_char (lit k)" for k
    using that by (simp add: quote_plain)
  ultimately show ?thesis
    by (simp add: flat_text_def length_join member_text_def envelope_items_def protocol_constants
        k plain_char_def lit_def [of "_ # _"] quote_plain)
qed

lemma escape_item_ascii: "list_all (\<lambda>c. c < 128) (dec_int i)"
proof -
  have "list_all (\<lambda>c. c < 128) (dec_nat n)" for n
    using dec_nat_digits [of n] by (auto simp: list_all_iff is_digit_def)
  then show ?thesis by (simp add: dec_int_def)
qed

lemma join_ascii:
  "list_all (\<lambda>c. c < (128 :: nat)) sep \<Longrightarrow> list_all (list_all (\<lambda>c. c < 128)) ts \<Longrightarrow>
     list_all (\<lambda>c. c < 128) (join sep ts)"
  by (induction sep ts rule: join.induct) auto

lemma flat_text_ascii:
  assumes "\<forall>kv \<in> set ps. flat_value (snd kv)"
  shows "list_all (\<lambda>c. c < 128) (flat_text True ps)"
proof -
  have "list_all (\<lambda>c. c < 128) (scalar_text True v)" if "flat_value v" for v
    using that by (auto simp: flat_value_def quote_ascii escape_item_ascii)
  with assms have "list_all (list_all (\<lambda>c. c < 128)) (map (member_text True (scalar_text True)) ps)"
    by (auto simp: list_all_iff [of "list_all _"] member_text_def quote_ascii)
  then show ?thesis
    by (auto simp: flat_text_def lit_def intro!: join_ascii)
qed

section \<open>Correctness of the envelope\<close>

abbreviation envelope_text :: "int \<Rightarrow> pystr \<Rightarrow> pystr \<Rightarrow> pystr \<Rightarrow> int \<Rightarrow> bytes \<Rightarrow> pystr" where
  "envelope_text v su s r q c \<equiv> flat_text True (envelope_items v su s r q c)"

lemma envelope_dumps:
  assumes "metadata_ok rt v su s r q" "runtime_ok rt"
  shows "dumps rt True True (str_dict (envelope_items v su s r q c)) = Inr (envelope_text v su s r q c)"
  using assms by (intro dumps_codec [OF envelope_codec]) (auto simp: runtime_ok_def)

lemma envelope_text_ascii:
  "metadata_ok rt v su s r q \<Longrightarrow> list_all (\<lambda>c. c < 128) (envelope_text v su s r q c)"
  using envelope_items_flat by (blast intro: flat_text_ascii)

lemma make_envelope_inject [simp]:
  "make_envelope v su s r q c = make_envelope v' su' s' r' q' c' \<longleftrightarrow>
     v = v' \<and> su = su' \<and> s = s' \<and> r = r' \<and> q = q' \<and> c = c'"
  by (simp add: make_envelope_def)

lemma envelope_valid_make [simp]:
  "envelope_valid rt (make_envelope v su s r q c) \<longleftrightarrow> metadata_ok rt v su s r q \<and> ciphertext_ok c"
  by (simp add: envelope_valid_def)

lemma envelope_to_bytes_make:
  assumes "metadata_ok rt v su s r q" "ciphertext_ok c" "runtime_ok rt"
  shows "envelope_to_bytes rt (make_envelope v su s r q c) =
    Inr (map to_byte (envelope_text v su s r q c))"
proof -
  let ?e = "make_envelope v su s r q c"
  have "envelope_valid rt ?e" using assms(1,2) by simp
  then have "validate_complete rt ?e = Inr ()" by (simp add: res_simps)
  moreover have "length (envelope_text v su s r q c) \<le> MAX_ENVELOPE_BYTES"
    using assms(1,2) by (rule length_envelope_text)
  moreover have "dumps rt True True (str_dict
      [(lit ''v'', PInt v), (lit ''suite'', PStr su), (lit ''sender'', PStr s),
       (lit ''recipient'', PStr r), (lit ''sequence'', PInt q),
       (lit ''ciphertext'', PStr (bytes_hex c))]) = Inr (envelope_text v su s r q c)"
    by (subst dumps_sort) (simp only: envelope_sort envelope_dumps [OF assms(1,3)])
  ultimately show ?thesis
    using utf8_encode_ascii [OF envelope_text_ascii [OF assms(1)]]
    by (simp add: envelope_to_bytes_def make_envelope_def ciphertext_hex_def)
qed

lemma hex_pattern_bytes_hex [simp]: "hex_pattern (bytes_hex c) \<longleftrightarrow> c \<noteq> []"
  by (cases c) (use bytes_hex_lower [of c] in \<open>auto simp: hex_pattern_def\<close>)

lemma decode_ciphertext_hex: "ciphertext_ok c \<Longrightarrow> decode_ciphertext (PStr (bytes_hex c)) = Inr c"
  by (auto simp: decode_ciphertext_def ciphertext_ok_def protocol_constants)

lemma envelope_parse_text:
  assumes "metadata_ok rt v su s r q" "runtime_ok rt"
  shows "envelope_parse_json rt (map to_byte (envelope_text v su s r q c)) =
    Inr (str_dict (envelope_items v su s r q c))"
proof -
  have "utf8_decode (map to_byte (envelope_text v su s r q c)) = Some (envelope_text v su s r q c)"
    by (rule utf8_decode_encode [OF utf8_encode_ascii [OF envelope_text_ascii [OF assms(1)]]])
  moreover have "loads rt envelope_reject_duplicate_keys default_constant (envelope_text v su s r q c) =
      Inr (str_dict (envelope_items v su s r q c))"
    using assms by (intro loads_codec [OF envelope_codec]) (auto simp: runtime_ok_def)
  ultimately show ?thesis by (simp add: envelope_parse_json_def decode_utf8_def)
qed

lemma envelope_from_bytes_make:
  assumes ok: "metadata_ok rt v su s r q" "ciphertext_ok c" "runtime_ok rt"
  shows "envelope_from_bytes rt (PBytes (map to_byte (envelope_text v su s r q c))) =
    Inr (make_envelope v su s r q c)"
proof -
  let ?e = "make_envelope v su s r q c"
  define items where "items = map (\<lambda>kv. (PStr (fst kv), snd kv)) (envelope_items v su s r q c)"
  have get: "object_get items (lit ''v'') = Inr (PInt v)" "object_get items (lit ''suite'') = Inr (PStr su)"
    "object_get items (lit ''sender'') = Inr (PStr s)" "object_get items (lit ''recipient'') = Inr (PStr r)"
    "object_get items (lit ''sequence'') = Inr (PInt q)"
    "object_get items (lit ''ciphertext'') = Inr (PStr (bytes_hex c))"
    unfolding items_def object_get_str by (simp_all add: envelope_items_def)
  have parse: "envelope_parse_json rt (map to_byte (envelope_text v su s r q c)) = Inr (PDict items)"
    using envelope_parse_text [OF ok(1,3)] by (simp add: str_dict_def items_def)
  have fields: "validate_protocol_version (PInt v) = Inr v" "validate_suite_name (PStr su) = Inr su"
    "\<And>f. validate_participant_name rt f (PStr s) = Inr s"
    "\<And>f. validate_participant_name rt f (PStr r) = Inr r"
    using ok by (auto simp: res_simps metadata_ok_def)
  have "envelope_valid rt ?e" using ok by simp
  then have "validate_complete rt ?e = Inr ()" by (simp add: res_simps)
  moreover have "envelope_text v su s r q c \<noteq> []" by (simp add: flat_text_def lit_def)
  moreover have "set (object_keys items) = set ENVELOPE_FIELDS"
    unfolding items_def object_keys_str by (auto simp: envelope_items_def ENVELOPE_FIELDS_def)
  ultimately show ?thesis
    using length_envelope_text [OF ok(1,2)] envelope_to_bytes_make [OF ok]
      decode_ciphertext_hex [OF ok(2)] fields
    by (simp add: envelope_from_bytes_def parse get Let_def make_envelope_def)
qed

text \<open>Acceptance: whatever the parser returns is valid and is the only encoding of itself.\<close>

lemma envelope_from_bytes_Inr:
  assumes "envelope_from_bytes rt x = Inr e"
  shows "envelope_valid rt e \<and> (\<exists>data. x = PBytes data \<and> envelope_to_bytes rt e = Inr data)"
proof -
  obtain data where x: "x = PBytes data"
    using assms by (cases x) (auto simp: envelope_from_bytes_def)
  obtain raw where "envelope_parse_json rt data = Inr raw"
    using assms x by (auto simp: envelope_from_bytes_def res_simps)
  with assms x show ?thesis
    by (cases raw) (auto simp: envelope_from_bytes_def res_simps Let_def split: if_splits)
qed

lemma envelope_to_bytes_valid: "envelope_to_bytes rt e = Inr b \<Longrightarrow> envelope_valid rt e"
  by (auto simp: envelope_to_bytes_def res_simps)

text \<open>Every failure of the validators is an \<open>EnvelopeError\<close>.\<close>

lemma envelope_error_class [simp]: "cls (envelope_error m) = EnvelopeError"
  by (simp add: envelope_error_def)

lemma validate_protocol_version_raises [raises_intros]:
  "raises_only EnvelopeError (validate_protocol_version x)"
  by (cases x) (auto simp: validate_protocol_version_def)

lemma validate_suite_name_raises [raises_intros]:
  "raises_only EnvelopeError (validate_suite_name x)"
  by (cases x) (auto simp: validate_suite_name_def)

lemma validate_participant_name_raises [raises_intros]:
  "raises_only EnvelopeError (validate_participant_name rt f x)"
proof (cases x)
  case (PStr s)
  then show ?thesis
    by (cases "list_all is_scalar s")
      (auto simp: validate_participant_name_def utf8_encode_def isinstance_of_def)
qed (auto simp: validate_participant_name_def)

lemma validate_ciphertext_raises [raises_intros]:
  "raises_only EnvelopeError (validate_ciphertext x)"
  by (cases x) (auto simp: validate_ciphertext_def)

lemma decode_ciphertext_raises [raises_intros]:
  "raises_only EnvelopeError (decode_ciphertext x)"
  by (cases x) (auto simp: decode_ciphertext_def intro: raises_intros)

lemma validate_metadata_raises [raises_intros]:
  "raises_only EnvelopeError (validate_metadata rt e)"
proof -
  have "raises_only EnvelopeError (wrap_exn [TypeError, ValueError] (\<lambda>exc. envelope_error (msg exc))
      (validate_message_sequence q))" for q
    using validate_message_sequence_Inl [of q]
    by (cases "validate_message_sequence q") (auto simp: wrap_exn_def isinstance_of_def)
  then show ?thesis
    by (auto simp: validate_metadata_def intro!: raises_intros)
qed

lemma validate_complete_raises [raises_intros]:
  "raises_only EnvelopeError (validate_complete rt e)"
  by (auto simp: validate_complete_def intro!: raises_intros)

lemma envelope_parse_json_raises [raises_intros]:
  "raises_only EnvelopeError (envelope_parse_json rt data)"
proof -
  have "isinstance_of exc [EnvelopeError] \<or>
      isinstance_of exc [UnicodeDecodeError, JSONDecodeError, RecursionError, ValueError]"
    if raised: "bindE (decode_utf8 data) (loads rt envelope_reject_duplicate_keys default_constant) = Inl exc"
    for exc
  proof -
    consider "cls exc = UnicodeDecodeError"
      | s where "loads rt envelope_reject_duplicate_keys default_constant s = Inl exc"
      using raised by (auto simp: decode_utf8_def bindE_eq_Inl opt_else_eq_Inl)
    then show ?thesis
    proof cases
      case 2
      have "default_constant t \<noteq> Inl e" for t e by (simp add: default_constant_def)
      with envelope_hook.loads_raises [OF 2] show ?thesis
        by (auto simp: isinstance_of_def)
    qed (simp add: isinstance_of_def)
  qed
  then show ?thesis
    by (cases "bindE (decode_utf8 data) (loads rt envelope_reject_duplicate_keys default_constant)")
      (auto simp: envelope_parse_json_def isinstance_of_def)
qed

lemma envelope_to_bytes_raises [raises_intros]:
  assumes "runtime_ok rt"
  shows "raises_only EnvelopeError (envelope_to_bytes rt e)"
proof (cases "validate_complete rt e")
  case (Inl x)
  then show ?thesis
    using validate_complete_raises [of rt e] by (simp add: envelope_to_bytes_def)
next
  case (Inr u)
  then have "envelope_valid rt e" by (simp add: res_simps)
  with assms show ?thesis
    by (auto simp: envelope_valid_def envelope_to_bytes_make)
qed

lemma object_get_raises [raises_intros]:
  "name \<in> set (object_keys kvs) \<Longrightarrow> raises_only c (object_get kvs name)"
  using object_get_present [of name kvs] by auto

lemma envelope_from_bytes_raises:
  assumes "runtime_ok rt"
  shows "raises_only EnvelopeError (envelope_from_bytes rt x)"
proof (cases x)
  case (PBytes data)
  have keys: "lit ''v'' \<in> set k" "lit ''suite'' \<in> set k" "lit ''sender'' \<in> set k"
    "lit ''recipient'' \<in> set k" "lit ''sequence'' \<in> set k" "lit ''ciphertext'' \<in> set k"
    if "set ENVELOPE_FIELDS \<subseteq> set k" for k
    using that by (auto simp: ENVELOPE_FIELDS_def)
  show ?thesis
    unfolding PBytes
    by (auto simp: envelope_from_bytes_def Let_def res_simps assms keys
        intro!: raises_intros split: pyval.splits)
qed (auto simp: envelope_from_bytes_def)

text \<open>The associated data of the cipher: the envelope without its ciphertext.\<close>

definition assoc_items :: "int \<Rightarrow> pystr \<Rightarrow> pystr \<Rightarrow> pystr \<Rightarrow> int \<Rightarrow> (pystr \<times> pyval) list" where
  "assoc_items version suite sender recipient sequence =
     [(lit ''recipient'', PStr recipient), (lit ''sender'', PStr sender),
      (lit ''sequence'', PInt sequence), (lit ''suite'', PStr suite), (lit ''v'', PInt version)]"

lemma assoc_codec:
  assumes "metadata_ok rt v su s r q"
  shows "codec rt envelope_reject_duplicate_keys pc True True (Suc 0)
    (flat_text True (assoc_items v su s r q)) (str_dict (assoc_items v su s r q))"
  using envelope_items_flat [OF assms, of "[]"]
  by (intro envelope_hook.codec_flat) (auto simp: assoc_items_def envelope_items_def lit_def)

lemma assoc_sort:
  "sort_key fst
     [(lit ''v'', PInt v), (lit ''suite'', PStr su), (lit ''sender'', PStr s),
      (lit ''recipient'', PStr r), (lit ''sequence'', PInt q)] = assoc_items v su s r q"
  by (simp add: assoc_items_def lit_def)

lemma associated_data_eq_Inr:
  assumes "runtime_ok rt"
  shows "associated_data rt e = Inr b \<longleftrightarrow>
    (\<exists>v su s r q. env_version e = PInt v \<and> env_suite e = PStr su \<and> env_sender e = PStr s \<and>
       env_recipient e = PStr r \<and> env_sequence e = PInt q \<and> metadata_ok rt v su s r q \<and>
       b = map to_byte (flat_text True (assoc_items v su s r q)))"
proof -
  have "bindE (dumps rt True True (str_dict
        [(lit ''v'', PInt v), (lit ''suite'', PStr su), (lit ''sender'', PStr s),
         (lit ''recipient'', PStr r), (lit ''sequence'', PInt q)])) utf8_encode =
      Inr (map to_byte (flat_text True (assoc_items v su s r q)))"
    if ok: "metadata_ok rt v su s r q" for v su s r q
  proof -
    have "dumps rt True True (str_dict (assoc_items v su s r q)) =
        Inr (flat_text True (assoc_items v su s r q))"
      using assms by (intro dumps_codec [OF assoc_codec [OF ok]]) (simp add: runtime_ok_def)
    moreover have "list_all (\<lambda>c. c < 128) (flat_text True (assoc_items v su s r q))"
      using envelope_items_flat [OF ok, of "[]"]
      by (intro flat_text_ascii) (auto simp: assoc_items_def envelope_items_def)
    ultimately show ?thesis
      by (subst dumps_sort) (simp only: assoc_sort utf8_encode_ascii bindE_simps)
  qed
  then show ?thesis
    by (auto simp: associated_data_def thenE_eq_Inr validate_metadata_eq_Inr)
qed

lemma assoc_items_inj:
  assumes "metadata_ok rt v su s r q" "metadata_ok rt v' su' s' r' q'"
    and "map to_byte (flat_text True (assoc_items v su s r q)) =
         map to_byte (flat_text True (assoc_items v' su' s' r' q'))"
  shows "v = v' \<and> su = su' \<and> s = s' \<and> r = r' \<and> q = q'"
proof -
  let ?rt = "sample_runtime"
  have enc: "utf8_encode (flat_text True (assoc_items v su s r q)) =
      Inr (map to_byte (flat_text True (assoc_items v su s r q)))"
    if "metadata_ok rt v su s r q" for v su s r q
    using envelope_items_flat [OF that, of "[]"]
    by (intro utf8_encode_ascii flat_text_ascii) (auto simp: assoc_items_def envelope_items_def)
  have "flat_text True (assoc_items v su s r q) = flat_text True (assoc_items v' su' s' r' q')"
    by (rule utf8_encode_inj [OF enc [OF assms(1)]]) (simp add: enc [OF assms(2)] assms(3))
  moreover have "loads ?rt envelope_reject_duplicate_keys default_constant
      (flat_text True (assoc_items v su s r q)) = Inr (str_dict (assoc_items v su s r q))"
    if "metadata_ok rt v su s r q" for v su s r q
  proof (rule loads_codec)
    show "codec ?rt envelope_reject_duplicate_keys default_constant True True (Suc 0)
        (flat_text True (assoc_items v su s r q)) (str_dict (assoc_items v su s r q))"
      using envelope_items_flat [OF that, of "[]"]
      by (intro envelope_hook.codec_flat) (auto simp: assoc_items_def envelope_items_def lit_def)
  qed (simp add: sample_runtime_def)
  ultimately have "str_dict (assoc_items v su s r q) = str_dict (assoc_items v' su' s' r' q')"
    using assms(1,2) by (metis sum.inject(2))
  then show ?thesis by (simp add: assoc_items_def str_dict_def)
qed

section \<open>Properties\<close>

text \<open>
  C11. Every valid envelope serialises, within the size limit that \<^verbatim>\<open>to_bytes\<close> enforces (so
  that check never rejects a valid envelope), and \<^verbatim>\<open>from_bytes\<close> gives the envelope back.
\<close>

theorem envelope_roundtrip:
  assumes "runtime_ok rt" "envelope_valid rt e"
  shows "\<exists>b. envelope_to_bytes rt e = Inr b \<and> length b \<le> MAX_ENVELOPE_BYTES \<and>
    envelope_from_bytes rt (PBytes b) = Inr e"
proof -
  obtain v su s r q c where e: "e = make_envelope v su s r q c"
    and ok: "metadata_ok rt v su s r q" "ciphertext_ok c"
    using assms(2) by (auto simp: envelope_valid_def)
  show ?thesis
    unfolding e
    using envelope_to_bytes_make [OF ok assms(1)] envelope_from_bytes_make [OF ok assms(1)]
      length_envelope_text [OF ok] by simp
qed

definition sample_envelope :: "MessageEnvelope" where
  "sample_envelope =
     make_envelope 1 (lit ''AES_256_GCM_SIV'') (lit ''alice'') (lit ''bob'') 7 (replicate 20 0)"

lemma sample_envelope_valid: "envelope_valid sample_runtime sample_envelope"
  by (simp add: sample_envelope_def metadata_ok_def suite_name_ok_def ciphertext_ok_def
      protocol_constants name_ok_plain lit_def is_upper_def is_digit_def)

theorem envelope_roundtrip_witness:
  "\<exists>b. envelope_to_bytes sample_runtime sample_envelope = Inr b \<and>
     length b \<le> MAX_ENVELOPE_BYTES \<and>
     envelope_from_bytes sample_runtime (PBytes b) = Inr sample_envelope"
  using envelope_roundtrip [OF sample_runtime_ok sample_envelope_valid] .

text \<open>
  C12. The wire form is canonical: \<^verbatim>\<open>from_bytes\<close> accepts an input exactly when it is the
  bytes that \<^verbatim>\<open>to_bytes\<close> gives for the envelope it returns.  So no two byte strings parse to the
  same envelope, and what is accepted has passed the complete validation.
\<close>

theorem envelope_canonical:
  assumes "runtime_ok rt"
  shows "envelope_from_bytes rt x = Inr e \<longleftrightarrow>
    envelope_valid rt e \<and> (\<exists>data. x = PBytes data \<and> envelope_to_bytes rt e = Inr data)"
  using envelope_from_bytes_Inr [of rt x e] envelope_from_bytes_make [OF _ _ assms]
    envelope_to_bytes_make [OF _ _ assms]
  by (auto simp: envelope_valid_def)

theorem envelope_canonical_witness:
  "\<exists>b. envelope_to_bytes sample_runtime sample_envelope = Inr b \<and>
     envelope_from_bytes sample_runtime (PBytes b) = Inr sample_envelope \<and>
     envelope_from_bytes sample_runtime (PBytes (b @ [32])) \<noteq> Inr sample_envelope"
proof -
  obtain b where "envelope_to_bytes sample_runtime sample_envelope = Inr b"
    using sample_envelope_valid envelope_to_bytes_make [OF _ _ sample_runtime_ok]
    unfolding sample_envelope_def envelope_valid_make by blast
  then show ?thesis
    by (simp add: envelope_canonical [OF sample_runtime_ok] sample_envelope_valid)
qed

text \<open>
  C21. The parser and the serialiser fail with \<open>EnvelopeError\<close> only, whatever value the parser is
  given and whatever the fields of the envelope hold: no exception of the JSON decoder, of the
  codecs or of the integer conversion escapes.
\<close>

theorem envelope_errors:
  assumes "runtime_ok rt"
  shows "raises_only EnvelopeError (envelope_from_bytes rt x) \<and>
    raises_only EnvelopeError (envelope_to_bytes rt e)"
  using envelope_from_bytes_raises [OF assms] envelope_to_bytes_raises [OF assms] by simp

theorem envelope_errors_witness:
  "raises_only EnvelopeError (envelope_from_bytes sample_runtime (PBytes (blit ''{''))) \<and>
   raises_only EnvelopeError (envelope_to_bytes sample_runtime (sample_envelope\<lparr>env_version := PNone\<rparr>))"
  by (rule envelope_errors [OF sample_runtime_ok])

text \<open>
  C20. The associated data binds the whole metadata: two envelopes with the same associated data
  have the same version, suite, sender, recipient and sequence.
\<close>

theorem associated_data_binds_metadata:
  assumes "runtime_ok rt" "associated_data rt e = Inr b" "associated_data rt e' = Inr b"
  shows "env_version e = env_version e' \<and> env_suite e = env_suite e' \<and>
    env_sender e = env_sender e' \<and> env_recipient e = env_recipient e' \<and>
    env_sequence e = env_sequence e'"
  using assms(2,3) assoc_items_inj
  by (auto simp: associated_data_eq_Inr [OF assms(1)])

theorem associated_data_binds_metadata_witness:
  "\<exists>b. associated_data sample_runtime sample_envelope = Inr b \<and>
     associated_data sample_runtime (sample_envelope\<lparr>env_ciphertext := PNone\<rparr>) = Inr b \<and>
     env_sequence sample_envelope = env_sequence (sample_envelope\<lparr>env_ciphertext := PNone\<rparr>)"
proof -
  have ok: "metadata_ok sample_runtime 1 (lit ''AES_256_GCM_SIV'') (lit ''alice'') (lit ''bob'') 7"
    using sample_envelope_valid by (simp add: sample_envelope_def)
  obtain b where b: "associated_data sample_runtime sample_envelope = Inr b"
    "associated_data sample_runtime (sample_envelope\<lparr>env_ciphertext := PNone\<rparr>) = Inr b"
    using ok by (auto simp: associated_data_eq_Inr sample_envelope_def make_envelope_def)
  from associated_data_binds_metadata [OF sample_runtime_ok b] b show ?thesis by blast
qed

end
