(* ===== verification/Handshake.thy ===== *)
theory Handshake
  imports Protocol
begin

text \<open>
  \<^verbatim>\<open>src/cyphersyntax/handshake.py\<close>: the three handshake messages, their validation on
  construction, their canonical JSON form and their parsers.  The messages are frozen
  dataclasses that validate every field in \<^verbatim>\<open>__post_init__\<close>, so a constructed message is a
  record of typed fields, and the constructors \<open>make_offer\<close>, \<open>make_response\<close> and
  \<open>make_confirmation\<close> take arguments of any type and return a message or an exception.
\<close>

section \<open>Constants\<close>

definition handshake_error :: "pystr \<Rightarrow> exn" where
  "handshake_error m = Exn HandshakeError m"

definition X25519_PUBLIC_KEY_LENGTH :: nat where "X25519_PUBLIC_KEY_LENGTH = 32"
definition ED25519_PUBLIC_KEY_LENGTH :: nat where "ED25519_PUBLIC_KEY_LENGTH = 32"
definition ED25519_SIGNATURE_LENGTH :: nat where "ED25519_SIGNATURE_LENGTH = 64"
definition KEY_CONFIRMATION_LENGTH :: nat where "KEY_CONFIRMATION_LENGTH = 32"
definition MAX_HANDSHAKE_MESSAGE_BYTES :: nat where "MAX_HANDSHAKE_MESSAGE_BYTES = 4096"

lemmas handshake_constants =
  X25519_PUBLIC_KEY_LENGTH_def ED25519_PUBLIC_KEY_LENGTH_def ED25519_SIGNATURE_LENGTH_def
  KEY_CONFIRMATION_LENGTH_def MAX_HANDSHAKE_MESSAGE_BYTES_def

definition SUPPORTED_HANDSHAKE_SUITES :: "pystr list" where
  "SUPPORTED_HANDSHAKE_SUITES = [lit ''AES_GCM_SIV'', lit ''CHACHA20_POLY1305'']"

definition OFFER_KIND :: "pystr" where "OFFER_KIND = lit ''offer''"
definition RESPONSE_KIND :: "pystr" where "RESPONSE_KIND = lit ''response''"
definition CONFIRMATION_KIND :: "pystr" where "CONFIRMATION_KIND = lit ''confirmation''"

definition COMMON_FIELDS :: "pystr list" where
  "COMMON_FIELDS = [lit ''kind'', lit ''v'', lit ''suite'', lit ''initiator'', lit ''responder'']"

definition OFFER_FIELDS :: "pystr list" where
  "OFFER_FIELDS = COMMON_FIELDS @
     [lit ''initiator_ephemeral_public_key'', lit ''initiator_signing_public_key'',
      lit ''signature'']"

definition RESPONSE_FIELDS :: "pystr list" where
  "RESPONSE_FIELDS = OFFER_FIELDS @
     [lit ''responder_ephemeral_public_key'', lit ''responder_signing_public_key'',
      lit ''responder_key_confirmation'']"

definition CONFIRMATION_FIELDS :: "pystr list" where
  "CONFIRMATION_FIELDS = COMMON_FIELDS @
     [lit ''initiator_ephemeral_public_key'', lit ''responder_ephemeral_public_key'',
      lit ''initiator_key_confirmation'', lit ''signature'']"

lemmas handshake_fields_defs =
  COMMON_FIELDS_def OFFER_FIELDS_def RESPONSE_FIELDS_def CONFIRMATION_FIELDS_def

section \<open>Validation of the fields\<close>

definition validate_version :: "pyval \<Rightarrow> int res" where
  "validate_version value =
     (case value of
        PInt v \<Rightarrow>
          if v \<noteq> PROTOCOL_VERSION
          then bindE (int_text v) (\<lambda>t.
                 Inl (Exn ValueError (lit ''unsupported handshake version: '' @ t)))
          else Inr v
      | _ \<Rightarrow> Inl (Exn TypeError (lit ''handshake version must be an integer'')))"

definition validate_suite :: "pyval \<Rightarrow> pystr res" where
  "validate_suite value =
     (case value of
        PStr s \<Rightarrow>
          if s \<notin> set SUPPORTED_HANDSHAKE_SUITES
          then Inl (Exn ValueError (lit ''unsupported handshake suite: '' @ s))
          else Inr s
      | _ \<Rightarrow> Inl (Exn TypeError (lit ''handshake suite must be a string'')))"

definition validate_name :: "runtime \<Rightarrow> pystr \<Rightarrow> pyval \<Rightarrow> pystr res" where
  "validate_name rt field_name value =
     (case value of
        PStr s \<Rightarrow>
          bindE
            (wrap_exn [UnicodeEncodeError]
              (\<lambda>_. Exn ValueError (field_name @ lit '' must contain valid Unicode''))
              (utf8_encode s))
            (\<lambda>encoded.
              if encoded = [] \<or> length encoded > MAX_PARTICIPANT_NAME_BYTES
              then Inl (Exn ValueError (field_name @ lit '' must contain 1 to 255 UTF-8 bytes''))
              else if s \<noteq> strip s
              then Inl (Exn ValueError
                     (field_name @ lit '' must not contain surrounding whitespace''))
              else if \<not> isprintable rt s
              then Inl (Exn ValueError
                     (field_name @ lit '' must contain only printable characters''))
              else Inr s)
      | _ \<Rightarrow> Inl (Exn TypeError (field_name @ lit '' must be a string'')))"

definition validate_bytes :: "pystr \<Rightarrow> pyval \<Rightarrow> nat \<Rightarrow> bytes res" where
  "validate_bytes field_name value expected_length =
     (case value of
        PBytes b \<Rightarrow>
          if length b \<noteq> expected_length
          then Inl (Exn ValueError
                 (field_name @ lit '' must be exactly '' @ dec_nat expected_length @ lit '' bytes''))
          else Inr b
      | _ \<Rightarrow> Inl (Exn TypeError (field_name @ lit '' must be bytes'')))"

definition validate_participants :: "runtime \<Rightarrow> pyval \<Rightarrow> pyval \<Rightarrow> (pystr \<times> pystr) res" where
  "validate_participants rt initiator responder =
     bindE (validate_name rt (lit ''handshake initiator'') initiator) (\<lambda>validated_initiator.
     bindE (validate_name rt (lit ''handshake responder'') responder) (\<lambda>validated_responder.
     if validated_initiator = validated_responder
     then Inl (Exn ValueError (lit ''handshake participants must be distinct''))
     else Inr (validated_initiator, validated_responder)))"

definition validate_offer_fields ::
    "runtime \<Rightarrow> pyval \<Rightarrow> pyval \<Rightarrow> pyval \<Rightarrow> pyval \<Rightarrow> pyval \<Rightarrow> pyval \<Rightarrow> unit res" where
  "validate_offer_fields rt version suite initiator responder
       initiator_ephemeral_public_key initiator_signing_public_key =
     thenE (validate_version version)
    (thenE (validate_suite suite)
    (thenE (validate_participants rt initiator responder)
    (thenE (validate_bytes (lit ''initiator ephemeral public key'') initiator_ephemeral_public_key
             X25519_PUBLIC_KEY_LENGTH)
    (thenE (validate_bytes (lit ''initiator signing public key'') initiator_signing_public_key
             ED25519_PUBLIC_KEY_LENGTH)
     (Inr ())))))"

section \<open>Encoding and parsing\<close>

definition encode_field :: "bytes \<Rightarrow> bytes res" where
  "encode_field value = prefixed value"

definition encode_message :: "runtime \<Rightarrow> (pystr \<times> pyval) list \<Rightarrow> bytes res" where
  "encode_message rt payload =
     bindE (bindE (dumps rt False True (str_dict payload)) utf8_encode) (\<lambda>encoded.
     if length encoded > MAX_HANDSHAKE_MESSAGE_BYTES
     then Inl (handshake_error (lit ''encoded handshake message exceeds the maximum size''))
     else Inr encoded)"

definition handshake_reject_duplicate_keys :: "(pystr \<times> pyval) list \<Rightarrow> pyval res" where
  "handshake_reject_duplicate_keys pairs =
     collect_pairs (\<lambda>key. handshake_error (lit ''duplicate handshake field: '' @ key)) [] pairs"

definition handshake_reject_nonfinite_number :: "pystr \<Rightarrow> pyval res" where
  "handshake_reject_nonfinite_number value =
     Inl (handshake_error (lit ''non-finite handshake number is not permitted: '' @ value))"

definition handshake_parse_json :: "runtime \<Rightarrow> bytes \<Rightarrow> pyval res" where
  "handshake_parse_json rt data =
     catchE
       (bindE (decode_utf8 data)
         (loads rt handshake_reject_duplicate_keys handshake_reject_nonfinite_number))
       (\<lambda>exc.
         if isinstance_of exc [HandshakeError] then Inl exc
         else if isinstance_of exc [UnicodeDecodeError, JSONDecodeError, RecursionError, ValueError]
         then Inl (handshake_error (lit ''failed to parse handshake message''))
         else Inl exc)"

definition parse_message :: "runtime \<Rightarrow> pyval \<Rightarrow> pystr \<Rightarrow> pystr list \<Rightarrow> (pyval \<times> pyval) list res" where
  "parse_message rt input expected_kind expected_fields =
     (case input of
        PBytes data \<Rightarrow>
          thenE (raise_if (data = [])
                  (handshake_error (lit ''handshake message input must not be empty'')))
         (thenE (raise_if (length data > MAX_HANDSHAKE_MESSAGE_BYTES)
                  (handshake_error (lit ''handshake message input exceeds the maximum size'')))
         (bindE (handshake_parse_json rt data) (\<lambda>raw.
          case raw of
            PDict items \<Rightarrow>
              let received_fields = object_keys items;
                  missing = missing_fields expected_fields received_fields;
                  unexpected = unexpected_fields expected_fields received_fields in
              thenE (raise_if
                      (case map_of items (PStr (lit ''kind'')) of
                         None \<Rightarrow> False
                       | Some k \<Rightarrow> k \<noteq> PStr expected_kind)
                      (handshake_error (lit ''expected handshake message kind '' @
                         [39] @ expected_kind @ [39])))
             (thenE (raise_if (missing \<noteq> [])
                      (handshake_error (lit ''handshake message is missing fields: '' @
                         join (lit '', '') missing)))
             (thenE (raise_if (unexpected \<noteq> [])
                      (handshake_error (lit ''handshake message contains unexpected fields: '' @
                         join (lit '', '') unexpected)))
              (Inr items)))
          | _ \<Rightarrow> Inl (handshake_error (lit ''handshake message must be a JSON object'')))))
      | _ \<Rightarrow> Inl (handshake_error (lit ''handshake message input must be bytes'')))"

definition decode_hex :: "pystr \<Rightarrow> pyval \<Rightarrow> nat \<Rightarrow> bytes res" where
  "decode_hex field_name value expected_length =
     (case value of
        PStr s \<Rightarrow>
          if length s \<noteq> expected_length * 2
          then Inl (handshake_error
                 (lit ''handshake '' @ field_name @ lit '' must encode exactly '' @
                  dec_nat expected_length @ lit '' bytes''))
          else if \<not> list_all is_lower_hex s
          then Inl (handshake_error
                 (lit ''handshake '' @ field_name @ lit '' must use canonical lowercase hexadecimal''))
          else opt_else (fromhex s) (Exn ValueError (lit ''non-hexadecimal number found''))
      | _ \<Rightarrow> Inl (handshake_error
              (lit ''handshake '' @ field_name @ lit '' encoding must be a string'')))"

definition construct_and_verify_canonical ::
    "pyval \<Rightarrow> 'm res \<Rightarrow> ('m \<Rightarrow> bytes res) \<Rightarrow> 'm res" where
  "construct_and_verify_canonical data construction to_bytes =
     bindE
       (wrap_exn [TypeError, ValueError]
         (\<lambda>_. handshake_error (lit ''handshake message contains invalid field values''))
         construction)
       (\<lambda>message.
         bindE (to_bytes message) (\<lambda>encoded.
         if PBytes encoded \<noteq> data
         then Inl (handshake_error (lit ''handshake message is not canonically encoded''))
         else Inr message))"

section \<open>The offer\<close>

record HandshakeOffer =
  ofr_version :: int
  ofr_suite :: pystr
  ofr_initiator :: pystr
  ofr_responder :: pystr
  ofr_initiator_ephemeral :: bytes
  ofr_initiator_signing :: bytes
  ofr_signature :: bytes

definition make_offer ::
    "runtime \<Rightarrow> pyval \<Rightarrow> pyval \<Rightarrow> pyval \<Rightarrow> pyval \<Rightarrow> pyval \<Rightarrow> pyval \<Rightarrow> pyval \<Rightarrow> HandshakeOffer res" where
  "make_offer rt version suite initiator responder initiator_ephemeral initiator_signing signature =
     bindE (validate_version version) (\<lambda>v.
     bindE (validate_suite suite) (\<lambda>su.
     bindE (validate_participants rt initiator responder) (\<lambda>(i, r).
     bindE (validate_bytes (lit ''initiator ephemeral public key'') initiator_ephemeral
             X25519_PUBLIC_KEY_LENGTH) (\<lambda>ie.
     bindE (validate_bytes (lit ''initiator signing public key'') initiator_signing
             ED25519_PUBLIC_KEY_LENGTH) (\<lambda>isk.
     bindE (validate_bytes (lit ''initiator handshake signature'') signature
             ED25519_SIGNATURE_LENGTH) (\<lambda>sg.
     Inr \<lparr>ofr_version = v, ofr_suite = su, ofr_initiator = i, ofr_responder = r,
          ofr_initiator_ephemeral = ie, ofr_initiator_signing = isk, ofr_signature = sg\<rparr>))))))"

definition handshake_context ::
    "int \<Rightarrow> pystr \<Rightarrow> pystr \<Rightarrow> pystr \<Rightarrow> bytes \<Rightarrow> bytes \<Rightarrow> bytes res" where
  "handshake_context version suite initiator responder
       initiator_ephemeral_public_key initiator_signing_public_key =
     join_parts
       [Inr (blit ''CypherSyntax/handshake-offer/v1''),
        bindE (bindE (int_text version) ascii_encode) encode_field,
        bindE (utf8_encode suite) encode_field,
        bindE (utf8_encode initiator) encode_field,
        bindE (utf8_encode responder) encode_field,
        encode_field initiator_ephemeral_public_key,
        encode_field initiator_signing_public_key]"

definition signature_payload_for ::
    "runtime \<Rightarrow> pyval \<Rightarrow> pyval \<Rightarrow> pyval \<Rightarrow> pyval \<Rightarrow> pyval \<Rightarrow> pyval \<Rightarrow> bytes res" where
  "signature_payload_for rt version suite initiator responder
       initiator_ephemeral_public_key initiator_signing_public_key =
     thenE (validate_offer_fields rt version suite initiator responder
             initiator_ephemeral_public_key initiator_signing_public_key)
    (handshake_context (the_int version) (the_str suite) (the_str initiator) (the_str responder)
       (the_bytes initiator_ephemeral_public_key) (the_bytes initiator_signing_public_key))"

definition offer_signature_payload :: "runtime \<Rightarrow> HandshakeOffer \<Rightarrow> bytes res" where
  "offer_signature_payload rt self =
     signature_payload_for rt (PInt (ofr_version self)) (PStr (ofr_suite self))
       (PStr (ofr_initiator self)) (PStr (ofr_responder self))
       (PBytes (ofr_initiator_ephemeral self)) (PBytes (ofr_initiator_signing self))"

definition offer_to_bytes :: "runtime \<Rightarrow> HandshakeOffer \<Rightarrow> bytes res" where
  "offer_to_bytes rt self =
     encode_message rt
       [(lit ''kind'', PStr OFFER_KIND),
        (lit ''v'', PInt (ofr_version self)),
        (lit ''suite'', PStr (ofr_suite self)),
        (lit ''initiator'', PStr (ofr_initiator self)),
        (lit ''responder'', PStr (ofr_responder self)),
        (lit ''initiator_ephemeral_public_key'', PStr (bytes_hex (ofr_initiator_ephemeral self))),
        (lit ''initiator_signing_public_key'', PStr (bytes_hex (ofr_initiator_signing self))),
        (lit ''signature'', PStr (bytes_hex (ofr_signature self)))]"

definition offer_from_bytes :: "runtime \<Rightarrow> pyval \<Rightarrow> HandshakeOffer res" where
  "offer_from_bytes rt data =
     bindE (parse_message rt data OFFER_KIND OFFER_FIELDS) (\<lambda>raw.
     bindE (object_get raw (lit ''v'')) (\<lambda>version.
     bindE (object_get raw (lit ''suite'')) (\<lambda>suite.
     bindE (object_get raw (lit ''initiator'')) (\<lambda>initiator.
     bindE (object_get raw (lit ''responder'')) (\<lambda>responder.
     bindE (bindE (object_get raw (lit ''initiator_ephemeral_public_key'')) (\<lambda>h.
              decode_hex (lit ''initiator ephemeral public key'') h X25519_PUBLIC_KEY_LENGTH)) (\<lambda>ie.
     bindE (bindE (object_get raw (lit ''initiator_signing_public_key'')) (\<lambda>h.
              decode_hex (lit ''initiator signing public key'') h ED25519_PUBLIC_KEY_LENGTH)) (\<lambda>isk.
     bindE (bindE (object_get raw (lit ''signature'')) (\<lambda>h.
              decode_hex (lit ''initiator handshake signature'') h ED25519_SIGNATURE_LENGTH)) (\<lambda>sg.
     construct_and_verify_canonical data
       (make_offer rt version suite initiator responder (PBytes ie) (PBytes isk) (PBytes sg))
       (offer_to_bytes rt)))))))))"

section \<open>The response\<close>

record HandshakeResponse =
  rsp_version :: int
  rsp_suite :: pystr
  rsp_initiator :: pystr
  rsp_responder :: pystr
  rsp_initiator_ephemeral :: bytes
  rsp_initiator_signing :: bytes
  rsp_responder_ephemeral :: bytes
  rsp_responder_signing :: bytes
  rsp_key_confirmation :: bytes
  rsp_signature :: bytes

definition make_response ::
    "runtime \<Rightarrow> pyval \<Rightarrow> pyval \<Rightarrow> pyval \<Rightarrow> pyval \<Rightarrow> pyval \<Rightarrow> pyval \<Rightarrow> pyval \<Rightarrow> pyval \<Rightarrow> pyval \<Rightarrow> pyval \<Rightarrow>
       HandshakeResponse res" where
  "make_response rt version suite initiator responder initiator_ephemeral initiator_signing
       responder_ephemeral responder_signing key_confirmation signature =
     thenE (validate_offer_fields rt version suite initiator responder
             initiator_ephemeral initiator_signing)
    (bindE (validate_bytes (lit ''responder ephemeral public key'') responder_ephemeral
             X25519_PUBLIC_KEY_LENGTH) (\<lambda>re.
     if re = the_bytes initiator_ephemeral
     then Inl (Exn ValueError (lit ''handshake ephemeral public keys must be distinct''))
     else
     bindE (validate_bytes (lit ''responder signing public key'') responder_signing
             ED25519_PUBLIC_KEY_LENGTH) (\<lambda>rsk.
     bindE (validate_bytes (lit ''responder key confirmation'') key_confirmation
             KEY_CONFIRMATION_LENGTH) (\<lambda>kc.
     bindE (validate_bytes (lit ''responder handshake signature'') signature
             ED25519_SIGNATURE_LENGTH) (\<lambda>sg.
     Inr \<lparr>rsp_version = the_int version, rsp_suite = the_str suite,
          rsp_initiator = the_str initiator, rsp_responder = the_str responder,
          rsp_initiator_ephemeral = the_bytes initiator_ephemeral,
          rsp_initiator_signing = the_bytes initiator_signing,
          rsp_responder_ephemeral = re, rsp_responder_signing = rsk,
          rsp_key_confirmation = kc, rsp_signature = sg\<rparr>)))))"

definition response_from_offer ::
    "runtime \<Rightarrow> HandshakeOffer \<Rightarrow> pyval \<Rightarrow> pyval \<Rightarrow> pyval \<Rightarrow> pyval \<Rightarrow> HandshakeResponse res" where
  "response_from_offer rt offer responder_ephemeral responder_signing key_confirmation signature =
     make_response rt (PInt (ofr_version offer)) (PStr (ofr_suite offer))
       (PStr (ofr_initiator offer)) (PStr (ofr_responder offer))
       (PBytes (ofr_initiator_ephemeral offer)) (PBytes (ofr_initiator_signing offer))
       responder_ephemeral responder_signing key_confirmation signature"

definition validate_for_offer :: "HandshakeResponse \<Rightarrow> HandshakeOffer \<Rightarrow> unit res" where
  "validate_for_offer self offer =
     thenE (raise_if (rsp_version self \<noteq> ofr_version offer)
             (Exn ValueError (lit ''handshake response version mismatch'')))
    (thenE (raise_if (rsp_suite self \<noteq> ofr_suite offer)
             (Exn ValueError (lit ''handshake response suite mismatch'')))
    (thenE (raise_if (rsp_initiator self \<noteq> ofr_initiator offer)
             (Exn ValueError (lit ''handshake response initiator mismatch'')))
    (thenE (raise_if (rsp_responder self \<noteq> ofr_responder offer)
             (Exn ValueError (lit ''handshake response responder mismatch'')))
    (thenE (raise_if (rsp_initiator_ephemeral self \<noteq> ofr_initiator_ephemeral offer)
             (Exn ValueError (lit ''handshake response initiator key mismatch'')))
    (raise_if (rsp_initiator_signing self \<noteq> ofr_initiator_signing offer)
             (Exn ValueError (lit ''handshake response initiator signing key mismatch'')))))))"

definition handshake_transcript :: "HandshakeOffer \<Rightarrow> HandshakeResponse \<Rightarrow> bytes res" where
  "handshake_transcript offer response =
     thenE (validate_for_offer response offer)
    (join_parts
       [Inr (blit ''CypherSyntax/handshake-transcript/v1''),
        bindE (bindE (int_text (ofr_version offer)) ascii_encode) encode_field,
        bindE (utf8_encode (ofr_suite offer)) encode_field,
        bindE (utf8_encode (ofr_initiator offer)) encode_field,
        bindE (utf8_encode (ofr_responder offer)) encode_field,
        encode_field (ofr_initiator_ephemeral offer),
        encode_field (ofr_initiator_signing offer),
        encode_field (ofr_signature offer),
        encode_field (rsp_responder_ephemeral response),
        encode_field (rsp_responder_signing response)])"

definition response_signature_payload :: "HandshakeResponse \<Rightarrow> HandshakeOffer \<Rightarrow> bytes res" where
  "response_signature_payload self offer =
     bindE (handshake_transcript offer self) (\<lambda>transcript.
     join_parts
       [Inr (blit ''CypherSyntax/handshake-response-signature/v1''),
        encode_field transcript,
        encode_field (rsp_key_confirmation self)])"

definition response_to_bytes :: "runtime \<Rightarrow> HandshakeResponse \<Rightarrow> bytes res" where
  "response_to_bytes rt self =
     encode_message rt
       [(lit ''kind'', PStr RESPONSE_KIND),
        (lit ''v'', PInt (rsp_version self)),
        (lit ''suite'', PStr (rsp_suite self)),
        (lit ''initiator'', PStr (rsp_initiator self)),
        (lit ''responder'', PStr (rsp_responder self)),
        (lit ''initiator_ephemeral_public_key'', PStr (bytes_hex (rsp_initiator_ephemeral self))),
        (lit ''initiator_signing_public_key'', PStr (bytes_hex (rsp_initiator_signing self))),
        (lit ''responder_ephemeral_public_key'', PStr (bytes_hex (rsp_responder_ephemeral self))),
        (lit ''responder_signing_public_key'', PStr (bytes_hex (rsp_responder_signing self))),
        (lit ''responder_key_confirmation'', PStr (bytes_hex (rsp_key_confirmation self))),
        (lit ''signature'', PStr (bytes_hex (rsp_signature self)))]"

definition response_from_bytes :: "runtime \<Rightarrow> pyval \<Rightarrow> HandshakeResponse res" where
  "response_from_bytes rt data =
     bindE (parse_message rt data RESPONSE_KIND RESPONSE_FIELDS) (\<lambda>raw.
     bindE (object_get raw (lit ''v'')) (\<lambda>version.
     bindE (object_get raw (lit ''suite'')) (\<lambda>suite.
     bindE (object_get raw (lit ''initiator'')) (\<lambda>initiator.
     bindE (object_get raw (lit ''responder'')) (\<lambda>responder.
     bindE (bindE (object_get raw (lit ''initiator_ephemeral_public_key'')) (\<lambda>h.
              decode_hex (lit ''initiator ephemeral public key'') h X25519_PUBLIC_KEY_LENGTH)) (\<lambda>ie.
     bindE (bindE (object_get raw (lit ''initiator_signing_public_key'')) (\<lambda>h.
              decode_hex (lit ''initiator signing public key'') h ED25519_PUBLIC_KEY_LENGTH)) (\<lambda>isk.
     bindE (bindE (object_get raw (lit ''responder_ephemeral_public_key'')) (\<lambda>h.
              decode_hex (lit ''responder ephemeral public key'') h X25519_PUBLIC_KEY_LENGTH)) (\<lambda>re.
     bindE (bindE (object_get raw (lit ''responder_signing_public_key'')) (\<lambda>h.
              decode_hex (lit ''responder signing public key'') h ED25519_PUBLIC_KEY_LENGTH)) (\<lambda>rsk.
     bindE (bindE (object_get raw (lit ''responder_key_confirmation'')) (\<lambda>h.
              decode_hex (lit ''responder key confirmation'') h KEY_CONFIRMATION_LENGTH)) (\<lambda>kc.
     bindE (bindE (object_get raw (lit ''signature'')) (\<lambda>h.
              decode_hex (lit ''responder handshake signature'') h ED25519_SIGNATURE_LENGTH)) (\<lambda>sg.
     construct_and_verify_canonical data
       (make_response rt version suite initiator responder (PBytes ie) (PBytes isk) (PBytes re)
          (PBytes rsk) (PBytes kc) (PBytes sg))
       (response_to_bytes rt))))))))))))"

section \<open>The confirmation\<close>

record HandshakeConfirmation =
  cnf_version :: int
  cnf_suite :: pystr
  cnf_initiator :: pystr
  cnf_responder :: pystr
  cnf_initiator_ephemeral :: bytes
  cnf_responder_ephemeral :: bytes
  cnf_key_confirmation :: bytes
  cnf_signature :: bytes

definition make_confirmation ::
    "runtime \<Rightarrow> pyval \<Rightarrow> pyval \<Rightarrow> pyval \<Rightarrow> pyval \<Rightarrow> pyval \<Rightarrow> pyval \<Rightarrow> pyval \<Rightarrow> pyval \<Rightarrow>
       HandshakeConfirmation res" where
  "make_confirmation rt version suite initiator responder initiator_ephemeral
       responder_ephemeral key_confirmation signature =
     bindE (validate_version version) (\<lambda>v.
     bindE (validate_suite suite) (\<lambda>su.
     bindE (validate_participants rt initiator responder) (\<lambda>(i, r).
     bindE (validate_bytes (lit ''initiator ephemeral public key'') initiator_ephemeral
             X25519_PUBLIC_KEY_LENGTH) (\<lambda>ie.
     bindE (validate_bytes (lit ''responder ephemeral public key'') responder_ephemeral
             X25519_PUBLIC_KEY_LENGTH) (\<lambda>re.
     if re = ie
     then Inl (Exn ValueError (lit ''handshake ephemeral public keys must be distinct''))
     else
     bindE (validate_bytes (lit ''initiator key confirmation'') key_confirmation
             KEY_CONFIRMATION_LENGTH) (\<lambda>kc.
     bindE (validate_bytes (lit ''initiator confirmation signature'') signature
             ED25519_SIGNATURE_LENGTH) (\<lambda>sg.
     Inr \<lparr>cnf_version = v, cnf_suite = su, cnf_initiator = i, cnf_responder = r,
          cnf_initiator_ephemeral = ie, cnf_responder_ephemeral = re,
          cnf_key_confirmation = kc, cnf_signature = sg\<rparr>)))))))"

definition validate_for_response :: "HandshakeConfirmation \<Rightarrow> HandshakeResponse \<Rightarrow> unit res" where
  "validate_for_response self response =
     thenE (raise_if (cnf_version self \<noteq> rsp_version response)
             (Exn ValueError (lit ''handshake confirmation version mismatch'')))
    (thenE (raise_if (cnf_suite self \<noteq> rsp_suite response)
             (Exn ValueError (lit ''handshake confirmation suite mismatch'')))
    (thenE (raise_if (cnf_initiator self \<noteq> rsp_initiator response)
             (Exn ValueError (lit ''handshake confirmation initiator mismatch'')))
    (thenE (raise_if (cnf_responder self \<noteq> rsp_responder response)
             (Exn ValueError (lit ''handshake confirmation responder mismatch'')))
    (thenE (raise_if (cnf_initiator_ephemeral self \<noteq> rsp_initiator_ephemeral response)
             (Exn ValueError (lit ''handshake confirmation initiator key mismatch'')))
    (raise_if (cnf_responder_ephemeral self \<noteq> rsp_responder_ephemeral response)
             (Exn ValueError (lit ''handshake confirmation responder key mismatch'')))))))"

definition confirmation_signature_payload ::
    "HandshakeConfirmation \<Rightarrow> HandshakeOffer \<Rightarrow> HandshakeResponse \<Rightarrow> bytes res" where
  "confirmation_signature_payload self offer response =
     thenE (validate_for_response self response)
    (bindE (handshake_transcript offer response) (\<lambda>transcript.
     join_parts
       [Inr (blit ''CypherSyntax/handshake-confirmation-signature/v1''),
        encode_field transcript,
        encode_field (rsp_key_confirmation response),
        encode_field (cnf_key_confirmation self)]))"

definition confirmation_to_bytes :: "runtime \<Rightarrow> HandshakeConfirmation \<Rightarrow> bytes res" where
  "confirmation_to_bytes rt self =
     encode_message rt
       [(lit ''kind'', PStr CONFIRMATION_KIND),
        (lit ''v'', PInt (cnf_version self)),
        (lit ''suite'', PStr (cnf_suite self)),
        (lit ''initiator'', PStr (cnf_initiator self)),
        (lit ''responder'', PStr (cnf_responder self)),
        (lit ''initiator_ephemeral_public_key'', PStr (bytes_hex (cnf_initiator_ephemeral self))),
        (lit ''responder_ephemeral_public_key'', PStr (bytes_hex (cnf_responder_ephemeral self))),
        (lit ''initiator_key_confirmation'', PStr (bytes_hex (cnf_key_confirmation self))),
        (lit ''signature'', PStr (bytes_hex (cnf_signature self)))]"

definition confirmation_from_bytes :: "runtime \<Rightarrow> pyval \<Rightarrow> HandshakeConfirmation res" where
  "confirmation_from_bytes rt data =
     bindE (parse_message rt data CONFIRMATION_KIND CONFIRMATION_FIELDS) (\<lambda>raw.
     bindE (object_get raw (lit ''v'')) (\<lambda>version.
     bindE (object_get raw (lit ''suite'')) (\<lambda>suite.
     bindE (object_get raw (lit ''initiator'')) (\<lambda>initiator.
     bindE (object_get raw (lit ''responder'')) (\<lambda>responder.
     bindE (bindE (object_get raw (lit ''initiator_ephemeral_public_key'')) (\<lambda>h.
              decode_hex (lit ''initiator ephemeral public key'') h X25519_PUBLIC_KEY_LENGTH)) (\<lambda>ie.
     bindE (bindE (object_get raw (lit ''responder_ephemeral_public_key'')) (\<lambda>h.
              decode_hex (lit ''responder ephemeral public key'') h X25519_PUBLIC_KEY_LENGTH)) (\<lambda>re.
     bindE (bindE (object_get raw (lit ''initiator_key_confirmation'')) (\<lambda>h.
              decode_hex (lit ''initiator key confirmation'') h KEY_CONFIRMATION_LENGTH)) (\<lambda>kc.
     bindE (bindE (object_get raw (lit ''signature'')) (\<lambda>h.
              decode_hex (lit ''initiator confirmation signature'') h ED25519_SIGNATURE_LENGTH)) (\<lambda>sg.
     construct_and_verify_canonical data
       (make_confirmation rt version suite initiator responder (PBytes ie) (PBytes re)
          (PBytes kc) (PBytes sg))
       (confirmation_to_bytes rt))))))))))"

end
