(* ===== verification/HandshakeCodec.thy ===== *)
theory HandshakeCodec
  imports Handshake
begin

text \<open>
  What the constructors of \<^verbatim>\<open>handshake.py\<close> accept, and the correctness of the wire form of the
  three messages: every valid message encodes below the size limit, the parser returns it, and
  it accepts nothing else.
\<close>

section \<open>Valid messages\<close>

definition common_ok :: "runtime \<Rightarrow> int \<Rightarrow> pystr \<Rightarrow> pystr \<Rightarrow> pystr \<Rightarrow> bool" where
  "common_ok rt version suite initiator responder \<longleftrightarrow>
     version = PROTOCOL_VERSION \<and> suite \<in> set SUPPORTED_HANDSHAKE_SUITES \<and>
     name_ok rt initiator \<and> name_ok rt responder \<and> initiator \<noteq> responder"

definition offer_valid :: "runtime \<Rightarrow> HandshakeOffer \<Rightarrow> bool" where
  "offer_valid rt o1 \<longleftrightarrow>
     common_ok rt (ofr_version o1) (ofr_suite o1) (ofr_initiator o1) (ofr_responder o1) \<and>
     length (ofr_initiator_ephemeral o1) = 32 \<and> length (ofr_initiator_signing o1) = 32 \<and>
     length (ofr_signature o1) = 64"

definition response_valid :: "runtime \<Rightarrow> HandshakeResponse \<Rightarrow> bool" where
  "response_valid rt r \<longleftrightarrow>
     common_ok rt (rsp_version r) (rsp_suite r) (rsp_initiator r) (rsp_responder r) \<and>
     length (rsp_initiator_ephemeral r) = 32 \<and> length (rsp_initiator_signing r) = 32 \<and>
     length (rsp_responder_ephemeral r) = 32 \<and> length (rsp_responder_signing r) = 32 \<and>
     length (rsp_key_confirmation r) = 32 \<and> length (rsp_signature r) = 64 \<and>
     rsp_responder_ephemeral r \<noteq> rsp_initiator_ephemeral r"

definition confirmation_valid :: "runtime \<Rightarrow> HandshakeConfirmation \<Rightarrow> bool" where
  "confirmation_valid rt k \<longleftrightarrow>
     common_ok rt (cnf_version k) (cnf_suite k) (cnf_initiator k) (cnf_responder k) \<and>
     length (cnf_initiator_ephemeral k) = 32 \<and> length (cnf_responder_ephemeral k) = 32 \<and>
     length (cnf_key_confirmation k) = 32 \<and> length (cnf_signature k) = 64 \<and>
     cnf_responder_ephemeral k \<noteq> cnf_initiator_ephemeral k"

lemma validate_version_eq_Inr [res_simps]:
  "validate_version x = Inr v \<longleftrightarrow> x = PInt v \<and> v = PROTOCOL_VERSION"
  by (cases x) (auto simp: validate_version_def res_simps)

lemma validate_suite_eq_Inr [res_simps]:
  "validate_suite x = Inr s \<longleftrightarrow> x = PStr s \<and> s \<in> set SUPPORTED_HANDSHAKE_SUITES"
  by (cases x) (auto simp: validate_suite_def)

lemma validate_name_eq_Inr [res_simps]:
  "validate_name rt f x = Inr s \<longleftrightarrow> x = PStr s \<and> name_ok rt s"
  by (cases x) (auto simp: validate_name_def name_ok_def res_simps concat_utf8_eq_Nil)

lemma validate_bytes_eq_Inr [res_simps]:
  "validate_bytes f x n = Inr b \<longleftrightarrow> x = PBytes b \<and> length b = n"
  by (cases x) (auto simp: validate_bytes_def)

lemma validate_participants_eq_Inr [res_simps]:
  "validate_participants rt x y = Inr (i, r) \<longleftrightarrow>
     x = PStr i \<and> y = PStr r \<and> name_ok rt i \<and> name_ok rt r \<and> i \<noteq> r"
  by (auto simp: validate_participants_def res_simps)

lemma validate_offer_fields_eq_Inr [res_simps]:
  "validate_offer_fields rt v su i r ie isk = Inr u \<longleftrightarrow>
     (\<exists>v' su' i' r' ie' isk'. v = PInt v' \<and> su = PStr su' \<and> i = PStr i' \<and> r = PStr r' \<and>
        ie = PBytes ie' \<and> isk = PBytes isk' \<and> common_ok rt v' su' i' r' \<and>
        length ie' = 32 \<and> length isk' = 32)"
  by (auto simp: validate_offer_fields_def res_simps common_ok_def handshake_constants)

lemma make_offer_eq_Inr [res_simps]:
  "make_offer rt v su i r ie isk sg = Inr m \<longleftrightarrow>
     v = PInt (ofr_version m) \<and> su = PStr (ofr_suite m) \<and> i = PStr (ofr_initiator m) \<and>
     r = PStr (ofr_responder m) \<and> ie = PBytes (ofr_initiator_ephemeral m) \<and>
     isk = PBytes (ofr_initiator_signing m) \<and> sg = PBytes (ofr_signature m) \<and> offer_valid rt m"
  by (cases m) (auto simp: make_offer_def offer_valid_def common_ok_def res_simps handshake_constants)

lemma make_response_eq_Inr [res_simps]:
  "make_response rt v su i r ie isk re rsk kc sg = Inr m \<longleftrightarrow>
     v = PInt (rsp_version m) \<and> su = PStr (rsp_suite m) \<and> i = PStr (rsp_initiator m) \<and>
     r = PStr (rsp_responder m) \<and> ie = PBytes (rsp_initiator_ephemeral m) \<and>
     isk = PBytes (rsp_initiator_signing m) \<and> re = PBytes (rsp_responder_ephemeral m) \<and>
     rsk = PBytes (rsp_responder_signing m) \<and> kc = PBytes (rsp_key_confirmation m) \<and>
     sg = PBytes (rsp_signature m) \<and> response_valid rt m"
  by (cases m) (auto simp: make_response_def response_valid_def res_simps handshake_constants)

lemma make_confirmation_eq_Inr [res_simps]:
  "make_confirmation rt v su i r ie re kc sg = Inr m \<longleftrightarrow>
     v = PInt (cnf_version m) \<and> su = PStr (cnf_suite m) \<and> i = PStr (cnf_initiator m) \<and>
     r = PStr (cnf_responder m) \<and> ie = PBytes (cnf_initiator_ephemeral m) \<and>
     re = PBytes (cnf_responder_ephemeral m) \<and> kc = PBytes (cnf_key_confirmation m) \<and>
     sg = PBytes (cnf_signature m) \<and> confirmation_valid rt m"
  by (cases m)
    (auto simp: make_confirmation_def confirmation_valid_def common_ok_def res_simps
      handshake_constants)

lemma decode_hex_eq_Inr [res_simps]:
  "decode_hex f x n = Inr b \<longleftrightarrow> x = PStr (bytes_hex b) \<and> length b = n"
proof (cases x)
  case (PStr s)
  show ?thesis
  proof
    assume d: "decode_hex f x n = Inr b"
    then have s: "length s = n * 2" "list_all is_lower_hex s" "fromhex s = Some b"
      using PStr by (auto simp: decode_hex_def res_simps split: if_splits)
    with fromhex_lower [of s] have "bytes_hex b = s" by auto
    with s(1) PStr show "x = PStr (bytes_hex b) \<and> length b = n"
      using length_bytes_hex [of b] by simp
  qed (auto simp: decode_hex_def bytes_hex_lower)
qed (auto simp: decode_hex_def)

section \<open>Encoding and parsing of flat payloads\<close>

interpretation handshake_hook: pairs_hook handshake_reject_duplicate_keys HandshakeError
proof unfold_locales
  fix ps :: "(pystr \<times> pyval) list"
  show "distinct (map fst ps) \<Longrightarrow> handshake_reject_duplicate_keys ps = Inr (str_dict ps)"
    by (simp add: handshake_reject_duplicate_keys_def collect_pairs_distinct)
  show "\<not> distinct (map fst ps) \<Longrightarrow>
      \<exists>m. handshake_reject_duplicate_keys ps = Inl (Exn HandshakeError m)"
    using collect_pairs_duplicate [of "[]" ps]
    by (auto simp: handshake_reject_duplicate_keys_def handshake_error_def)
qed simp

text \<open>
  A payload that the encoder accepts: flat, with distinct keys, short enough.  \<open>payload_bytes\<close>
  is its encoding.
\<close>

definition payload_size :: "(pystr \<times> pyval) list \<Rightarrow> nat" where
  "payload_size payload =
     2 + sum_list (map (\<lambda>kv. ulen (quote False (fst kv)) + 1 + ulen (scalar_text False (snd kv))) payload) +
     (length payload - 1)"

definition payload_ok :: "(pystr \<times> pyval) list \<Rightarrow> bool" where
  "payload_ok payload \<longleftrightarrow>
     distinct (map fst payload) \<and>
     (\<forall>kv \<in> set payload. list_all is_scalar (fst kv) \<and> flat_value (snd kv)) \<and>
     payload_size payload \<le> MAX_HANDSHAKE_MESSAGE_BYTES"

definition payload_bytes :: "(pystr \<times> pyval) list \<Rightarrow> bytes" where
  "payload_bytes payload = concat (map utf8_char (flat_text False (sort_key fst payload)))"

lemma ulen_payload: "ulen (flat_text False (sort_key fst payload)) = payload_size payload"
  by (simp add: ulen_flat_text payload_size_def sum_list_sort_key)

lemma payload_sorted:
  fixes payload :: "(pystr \<times> pyval) list"
  assumes "distinct (map fst payload)"
  shows "sorted_wrt (<) (map fst (sort_key fst payload))"
  using assms by (rule sort_key_strict)

lemma payload_codec:
  assumes "payload_ok payload"
  shows "codec rt handshake_reject_duplicate_keys pc False True (Suc 0)
    (flat_text False (sort_key fst payload)) (str_dict (sort_key fst payload))"
  using assms by (intro handshake_hook.codec_flat payload_sorted) (auto simp: payload_ok_def)

lemma encode_message_payload:
  assumes "payload_ok payload" "runtime_ok rt"
  shows "encode_message rt payload = Inr (payload_bytes payload)"
proof -
  have "dumps rt False True (str_dict payload) = Inr (flat_text False (sort_key fst payload))"
    using flat_message(1) [OF payload_codec [OF assms(1)] assms(2)] by (subst dumps_sort)
  moreover have "utf8_encode (flat_text False (sort_key fst payload)) = Inr (payload_bytes payload)"
    using flat_message(2) [OF payload_codec [OF assms(1)] assms(2)] by (simp add: payload_bytes_def)
  moreover have "length (payload_bytes payload) \<le> MAX_HANDSHAKE_MESSAGE_BYTES"
    using assms(1) ulen_payload [of payload] by (simp add: payload_ok_def ulen_def payload_bytes_def)
  ultimately show ?thesis by (simp add: encode_message_def)
qed

definition dict_items :: "(pystr \<times> pyval) list \<Rightarrow> (pyval \<times> pyval) list" where
  "dict_items payload = map (\<lambda>kv. (PStr (fst kv), snd kv)) (sort_key fst payload)"

lemma payload_map_of: "payload_ok payload \<Longrightarrow> map_of (sort_key fst payload) = map_of payload"
  by (subst map_of_inject_set)
    (use payload_sorted [of payload] in \<open>auto simp: payload_ok_def strict_sorted_iff\<close>)

lemma object_get_dict_items:
  assumes "payload_ok payload"
  shows "object_get (dict_items payload) f = opt_else (map_of payload f) (Exn KeyError f)"
  unfolding dict_items_def object_get_str payload_map_of [OF assms] ..

lemma parse_message_payload:
  assumes "payload_ok payload" "runtime_ok rt" "set (map fst payload) = set expected"
    and "map_of payload (lit ''kind'') = Some (PStr kind)"
  shows "parse_message rt (PBytes (payload_bytes payload)) kind expected = Inr (dict_items payload)"
proof -
  let ?data = "payload_bytes payload"
  have "bindE (decode_utf8 ?data)
      (loads rt handshake_reject_duplicate_keys handshake_reject_nonfinite_number) =
      Inr (PDict (dict_items payload))"
    using flat_message(3) [OF payload_codec [OF assms(1)] assms(2)]
    by (simp add: payload_bytes_def dict_items_def str_dict_def)
  then have parse: "handshake_parse_json rt ?data = Inr (PDict (dict_items payload))"
    by (simp add: handshake_parse_json_def)
  have "?data \<noteq> []"
    by (simp add: payload_bytes_def concat_utf8_eq_Nil flat_text_def lit_def)
  moreover have "length ?data \<le> MAX_HANDSHAKE_MESSAGE_BYTES"
    using assms(1) ulen_payload [of payload] by (simp add: payload_ok_def ulen_def payload_bytes_def)
  moreover have "set (object_keys (dict_items payload)) = set expected"
    unfolding dict_items_def object_keys_str using assms(3) by simp
  moreover have "map_of (dict_items payload) (PStr (lit ''kind'')) = Some (PStr kind)"
    using object_get_dict_items [OF assms(1), of "lit ''kind''"] assms(4)
    by (simp add: object_get_def opt_else_eq_Inr)
  ultimately show ?thesis
    by (simp add: parse_message_def parse Let_def)
qed

section \<open>The three messages\<close>

text \<open>The payloads that \<^verbatim>\<open>to_bytes\<close> encodes.\<close>

definition offer_payload :: "HandshakeOffer \<Rightarrow> (pystr \<times> pyval) list" where
  "offer_payload m =
     [(lit ''kind'', PStr OFFER_KIND), (lit ''v'', PInt (ofr_version m)),
      (lit ''suite'', PStr (ofr_suite m)), (lit ''initiator'', PStr (ofr_initiator m)),
      (lit ''responder'', PStr (ofr_responder m)),
      (lit ''initiator_ephemeral_public_key'', PStr (bytes_hex (ofr_initiator_ephemeral m))),
      (lit ''initiator_signing_public_key'', PStr (bytes_hex (ofr_initiator_signing m))),
      (lit ''signature'', PStr (bytes_hex (ofr_signature m)))]"

definition response_payload :: "HandshakeResponse \<Rightarrow> (pystr \<times> pyval) list" where
  "response_payload m =
     [(lit ''kind'', PStr RESPONSE_KIND), (lit ''v'', PInt (rsp_version m)),
      (lit ''suite'', PStr (rsp_suite m)), (lit ''initiator'', PStr (rsp_initiator m)),
      (lit ''responder'', PStr (rsp_responder m)),
      (lit ''initiator_ephemeral_public_key'', PStr (bytes_hex (rsp_initiator_ephemeral m))),
      (lit ''initiator_signing_public_key'', PStr (bytes_hex (rsp_initiator_signing m))),
      (lit ''responder_ephemeral_public_key'', PStr (bytes_hex (rsp_responder_ephemeral m))),
      (lit ''responder_signing_public_key'', PStr (bytes_hex (rsp_responder_signing m))),
      (lit ''responder_key_confirmation'', PStr (bytes_hex (rsp_key_confirmation m))),
      (lit ''signature'', PStr (bytes_hex (rsp_signature m)))]"

definition confirmation_message_payload :: "HandshakeConfirmation \<Rightarrow> (pystr \<times> pyval) list" where
  "confirmation_message_payload m =
     [(lit ''kind'', PStr CONFIRMATION_KIND), (lit ''v'', PInt (cnf_version m)),
      (lit ''suite'', PStr (cnf_suite m)), (lit ''initiator'', PStr (cnf_initiator m)),
      (lit ''responder'', PStr (cnf_responder m)),
      (lit ''initiator_ephemeral_public_key'', PStr (bytes_hex (cnf_initiator_ephemeral m))),
      (lit ''responder_ephemeral_public_key'', PStr (bytes_hex (cnf_responder_ephemeral m))),
      (lit ''initiator_key_confirmation'', PStr (bytes_hex (cnf_key_confirmation m))),
      (lit ''signature'', PStr (bytes_hex (cnf_signature m)))]"

text \<open>The size of a quoted key, of a quoted byte string and of the other fields.\<close>

lemma ulen_quote_hex: "ulen (quote ea (bytes_hex b)) = 2 * length b + 2"
  by (simp add: ulen_quote_plain lower_hex_plain bytes_hex_lower)

lemma ulen_quote_suite:
  "s \<in> set SUPPORTED_HANDSHAKE_SUITES \<Longrightarrow> ulen (quote ea s) \<le> 19"
  by (auto simp: SUPPORTED_HANDSHAKE_SUITES_def ulen_quote_plain plain_char_def lit_def)

lemma ulen_quote_kind:
  "ulen (quote ea OFFER_KIND) \<le> 14" "ulen (quote ea RESPONSE_KIND) \<le> 14"
  "ulen (quote ea CONFIRMATION_KIND) \<le> 14"
  by (simp_all add: OFFER_KIND_def RESPONSE_KIND_def CONFIRMATION_KIND_def ulen_quote_plain
      plain_char_def lit_def)

lemma ulen_version: "ulen (dec_int PROTOCOL_VERSION) = 1"
  by (simp add: ulen_dec_int PROTOCOL_VERSION_def dec_int_def dec_nat.simps utf8_char_def)

lemma common_flat:
  assumes "common_ok rt v su i r"
  shows "flat_value (PInt v)" "flat_value (PStr su)" "flat_value (PStr i)" "flat_value (PStr r)"
  using assms
  by (auto simp: common_ok_def flat_value_def PROTOCOL_VERSION_def name_ok_def
      SUPPORTED_HANDSHAKE_SUITES_def intro!: int_prints_small lit_scalar_ascii)

lemma hex_flat: "flat_value (PStr (bytes_hex b))"
  by (simp add: flat_value_def lower_hex_scalar bytes_hex_lower)

lemma kind_flat:
  "flat_value (PStr OFFER_KIND)" "flat_value (PStr RESPONSE_KIND)" "flat_value (PStr CONFIRMATION_KIND)"
  by (auto simp: flat_value_def OFFER_KIND_def RESPONSE_KIND_def CONFIRMATION_KIND_def
      intro!: lit_scalar_ascii)

lemma plain_lit: "list_all plain_char (lit s) \<Longrightarrow> ulen (quote ea (lit s)) = length s + 2"
  by (simp add: ulen_quote_plain)

text \<open>The keys of the three payloads need no escape.\<close>

lemma payload_keys_plain:
  "list_all (\<lambda>kv. list_all plain_char (fst kv)) (offer_payload m)"
  "list_all (\<lambda>kv. list_all plain_char (fst kv)) (response_payload m')"
  "list_all (\<lambda>kv. list_all plain_char (fst kv)) (confirmation_message_payload m'')"
  by (simp_all add: offer_payload_def response_payload_def confirmation_message_payload_def
      plain_char_def lit_def)

lemma plain_scalar: "list_all plain_char s \<Longrightarrow> list_all is_scalar s"
  by (auto simp: list_all_iff plain_char_def is_scalar_def is_surrogate_def)

lemma payload_size_plain:
  assumes "list_all (\<lambda>kv. list_all plain_char (fst kv)) payload"
  shows "payload_size payload =
    2 + sum_list (map (\<lambda>kv. length (fst kv) + 3 + ulen (scalar_text False (snd kv))) payload) +
    (length payload - 1)"
proof -
  have "map (\<lambda>kv. ulen (quote False (fst kv)) + 1 + ulen (scalar_text False (snd kv))) payload =
      map (\<lambda>kv. length (fst kv) + 3 + ulen (scalar_text False (snd kv))) payload"
    using assms by (auto simp: list_all_iff ulen_quote_plain)
  then show ?thesis by (simp only: payload_size_def)
qed

lemma offer_payload_ok:
  assumes "offer_valid rt m"
  shows "payload_ok (offer_payload m)"
  unfolding payload_ok_def
proof (intro conjI)
  have ok: "common_ok rt (ofr_version m) (ofr_suite m) (ofr_initiator m) (ofr_responder m)"
    using assms by (simp add: offer_valid_def)
  show "distinct (map fst (offer_payload m))" by (simp add: offer_payload_def)
  show "\<forall>kv \<in> set (offer_payload m). list_all is_scalar (fst kv) \<and> flat_value (snd kv)"
    using payload_keys_plain(1) [of m] common_flat [OF ok]
    by (auto simp: offer_payload_def hex_flat kind_flat intro!: plain_scalar)
  have "ulen (quote False (ofr_suite m)) \<le> 19" "ulen (quote False (ofr_initiator m)) \<le> 512"
    "ulen (quote False (ofr_responder m)) \<le> 512" "ulen (dec_int (ofr_version m)) = 1"
    using ok by (auto simp: common_ok_def ulen_quote_suite ulen_version intro: ulen_quote_name)
  with ulen_quote_kind(1) [of False] assms
  show "payload_size (offer_payload m) \<le> MAX_HANDSHAKE_MESSAGE_BYTES"
    unfolding payload_size_plain [OF payload_keys_plain(1)]
    by (simp add: offer_payload_def offer_valid_def ulen_quote_hex handshake_constants)
qed

lemma response_payload_ok:
  assumes "response_valid rt m"
  shows "payload_ok (response_payload m)"
  unfolding payload_ok_def
proof (intro conjI)
  have ok: "common_ok rt (rsp_version m) (rsp_suite m) (rsp_initiator m) (rsp_responder m)"
    using assms by (simp add: response_valid_def)
  show "distinct (map fst (response_payload m))" by (simp add: response_payload_def)
  show "\<forall>kv \<in> set (response_payload m). list_all is_scalar (fst kv) \<and> flat_value (snd kv)"
    using payload_keys_plain(2) [of m] common_flat [OF ok]
    by (auto simp: response_payload_def hex_flat kind_flat intro!: plain_scalar)
  have "ulen (quote False (rsp_suite m)) \<le> 19" "ulen (quote False (rsp_initiator m)) \<le> 512"
    "ulen (quote False (rsp_responder m)) \<le> 512" "ulen (dec_int (rsp_version m)) = 1"
    using ok by (auto simp: common_ok_def ulen_quote_suite ulen_version intro: ulen_quote_name)
  with ulen_quote_kind(2) [of False] assms
  show "payload_size (response_payload m) \<le> MAX_HANDSHAKE_MESSAGE_BYTES"
    unfolding payload_size_plain [OF payload_keys_plain(2)]
    by (simp add: response_payload_def response_valid_def ulen_quote_hex handshake_constants)
qed

lemma confirmation_payload_ok:
  assumes "confirmation_valid rt m"
  shows "payload_ok (confirmation_message_payload m)"
  unfolding payload_ok_def
proof (intro conjI)
  have ok: "common_ok rt (cnf_version m) (cnf_suite m) (cnf_initiator m) (cnf_responder m)"
    using assms by (simp add: confirmation_valid_def)
  show "distinct (map fst (confirmation_message_payload m))"
    by (simp add: confirmation_message_payload_def)
  show "\<forall>kv \<in> set (confirmation_message_payload m).
      list_all is_scalar (fst kv) \<and> flat_value (snd kv)"
    using payload_keys_plain(3) [of m] common_flat [OF ok]
    by (auto simp: confirmation_message_payload_def hex_flat kind_flat intro!: plain_scalar)
  have "ulen (quote False (cnf_suite m)) \<le> 19" "ulen (quote False (cnf_initiator m)) \<le> 512"
    "ulen (quote False (cnf_responder m)) \<le> 512" "ulen (dec_int (cnf_version m)) = 1"
    using ok by (auto simp: common_ok_def ulen_quote_suite ulen_version intro: ulen_quote_name)
  with ulen_quote_kind(3) [of False] assms
  show "payload_size (confirmation_message_payload m) \<le> MAX_HANDSHAKE_MESSAGE_BYTES"
    unfolding payload_size_plain [OF payload_keys_plain(3)]
    by (simp add: confirmation_message_payload_def confirmation_valid_def ulen_quote_hex
        handshake_constants)
qed

lemma construct_and_verify_canonical_eq_Inr [res_simps]:
  "construct_and_verify_canonical data construction to_bytes = Inr m \<longleftrightarrow>
     construction = Inr m \<and> (\<exists>b. to_bytes m = Inr b \<and> data = PBytes b)"
  by (auto simp: construct_and_verify_canonical_def res_simps)

lemma to_bytes_payload:
  "offer_to_bytes rt m1 = encode_message rt (offer_payload m1)"
  "response_to_bytes rt m2 = encode_message rt (response_payload m2)"
  "confirmation_to_bytes rt m3 = encode_message rt (confirmation_message_payload m3)"
  by (simp_all only: offer_to_bytes_def offer_payload_def response_to_bytes_def response_payload_def
      confirmation_to_bytes_def confirmation_message_payload_def)

lemma decode_hex_bytes_hex: "length b = n \<Longrightarrow> decode_hex f (PStr (bytes_hex b)) n = Inr b"
  by (simp add: decode_hex_eq_Inr)

lemma offer_bytes:
  assumes "offer_valid rt m" "runtime_ok rt"
  shows "offer_to_bytes rt m = Inr (payload_bytes (offer_payload m))"
    and "offer_from_bytes rt (PBytes (payload_bytes (offer_payload m))) = Inr m"
proof -
  note ok = offer_payload_ok [OF assms(1)]
  show enc: "offer_to_bytes rt m = Inr (payload_bytes (offer_payload m))"
    unfolding to_bytes_payload using ok assms(2) by (rule encode_message_payload)
  have parse: "parse_message rt (PBytes (payload_bytes (offer_payload m))) OFFER_KIND OFFER_FIELDS =
      Inr (dict_items (offer_payload m))"
    by (rule parse_message_payload [OF ok assms(2)])
      (auto simp: offer_payload_def handshake_fields_defs)
  have make: "make_offer rt (PInt (ofr_version m)) (PStr (ofr_suite m)) (PStr (ofr_initiator m))
      (PStr (ofr_responder m)) (PBytes (ofr_initiator_ephemeral m)) (PBytes (ofr_initiator_signing m))
      (PBytes (ofr_signature m)) = Inr m"
    using assms(1) by (simp add: make_offer_eq_Inr)
  have get:
    "object_get (dict_items (offer_payload m)) (lit ''v'') = Inr (PInt (ofr_version m))"
    "object_get (dict_items (offer_payload m)) (lit ''suite'') = Inr (PStr (ofr_suite m))"
    "object_get (dict_items (offer_payload m)) (lit ''initiator'') = Inr (PStr (ofr_initiator m))"
    "object_get (dict_items (offer_payload m)) (lit ''responder'') = Inr (PStr (ofr_responder m))"
    "object_get (dict_items (offer_payload m)) (lit ''initiator_ephemeral_public_key'') =
       Inr (PStr (bytes_hex (ofr_initiator_ephemeral m)))"
    "object_get (dict_items (offer_payload m)) (lit ''initiator_signing_public_key'') =
       Inr (PStr (bytes_hex (ofr_initiator_signing m)))"
    "object_get (dict_items (offer_payload m)) (lit ''signature'') =
       Inr (PStr (bytes_hex (ofr_signature m)))"
    unfolding object_get_dict_items [OF ok] by (simp_all add: offer_payload_def)
  show "offer_from_bytes rt (PBytes (payload_bytes (offer_payload m))) = Inr m"
    using assms(1) enc
    by (simp add: offer_from_bytes_def parse get decode_hex_bytes_hex offer_valid_def
        handshake_constants construct_and_verify_canonical_eq_Inr make)
qed

lemma response_bytes:
  assumes "response_valid rt m" "runtime_ok rt"
  shows "response_to_bytes rt m = Inr (payload_bytes (response_payload m))"
    and "response_from_bytes rt (PBytes (payload_bytes (response_payload m))) = Inr m"
proof -
  note ok = response_payload_ok [OF assms(1)]
  show enc: "response_to_bytes rt m = Inr (payload_bytes (response_payload m))"
    unfolding to_bytes_payload using ok assms(2) by (rule encode_message_payload)
  have parse: "parse_message rt (PBytes (payload_bytes (response_payload m))) RESPONSE_KIND
      RESPONSE_FIELDS = Inr (dict_items (response_payload m))"
    by (rule parse_message_payload [OF ok assms(2)])
      (auto simp: response_payload_def handshake_fields_defs)
  have make: "make_response rt (PInt (rsp_version m)) (PStr (rsp_suite m)) (PStr (rsp_initiator m))
      (PStr (rsp_responder m)) (PBytes (rsp_initiator_ephemeral m)) (PBytes (rsp_initiator_signing m))
      (PBytes (rsp_responder_ephemeral m)) (PBytes (rsp_responder_signing m))
      (PBytes (rsp_key_confirmation m)) (PBytes (rsp_signature m)) = Inr m"
    using assms(1) by (simp add: make_response_eq_Inr)
  have get:
    "object_get (dict_items (response_payload m)) (lit ''v'') = Inr (PInt (rsp_version m))"
    "object_get (dict_items (response_payload m)) (lit ''suite'') = Inr (PStr (rsp_suite m))"
    "object_get (dict_items (response_payload m)) (lit ''initiator'') = Inr (PStr (rsp_initiator m))"
    "object_get (dict_items (response_payload m)) (lit ''responder'') = Inr (PStr (rsp_responder m))"
    "object_get (dict_items (response_payload m)) (lit ''initiator_ephemeral_public_key'') =
       Inr (PStr (bytes_hex (rsp_initiator_ephemeral m)))"
    "object_get (dict_items (response_payload m)) (lit ''initiator_signing_public_key'') =
       Inr (PStr (bytes_hex (rsp_initiator_signing m)))"
    "object_get (dict_items (response_payload m)) (lit ''responder_ephemeral_public_key'') =
       Inr (PStr (bytes_hex (rsp_responder_ephemeral m)))"
    "object_get (dict_items (response_payload m)) (lit ''responder_signing_public_key'') =
       Inr (PStr (bytes_hex (rsp_responder_signing m)))"
    "object_get (dict_items (response_payload m)) (lit ''responder_key_confirmation'') =
       Inr (PStr (bytes_hex (rsp_key_confirmation m)))"
    "object_get (dict_items (response_payload m)) (lit ''signature'') =
       Inr (PStr (bytes_hex (rsp_signature m)))"
    unfolding object_get_dict_items [OF ok] by (simp_all add: response_payload_def)
  show "response_from_bytes rt (PBytes (payload_bytes (response_payload m))) = Inr m"
    using assms(1) enc
    by (simp add: response_from_bytes_def parse get decode_hex_bytes_hex response_valid_def
        handshake_constants construct_and_verify_canonical_eq_Inr make)
qed

lemma confirmation_bytes:
  assumes "confirmation_valid rt m" "runtime_ok rt"
  shows "confirmation_to_bytes rt m = Inr (payload_bytes (confirmation_message_payload m))"
    and "confirmation_from_bytes rt (PBytes (payload_bytes (confirmation_message_payload m))) = Inr m"
proof -
  let ?p = "confirmation_message_payload m"
  note ok = confirmation_payload_ok [OF assms(1)]
  show enc: "confirmation_to_bytes rt m = Inr (payload_bytes ?p)"
    unfolding to_bytes_payload using ok assms(2) by (rule encode_message_payload)
  have parse: "parse_message rt (PBytes (payload_bytes ?p)) CONFIRMATION_KIND CONFIRMATION_FIELDS =
      Inr (dict_items ?p)"
    by (rule parse_message_payload [OF ok assms(2)])
      (auto simp: confirmation_message_payload_def handshake_fields_defs)
  have make: "make_confirmation rt (PInt (cnf_version m)) (PStr (cnf_suite m))
      (PStr (cnf_initiator m)) (PStr (cnf_responder m)) (PBytes (cnf_initiator_ephemeral m))
      (PBytes (cnf_responder_ephemeral m)) (PBytes (cnf_key_confirmation m))
      (PBytes (cnf_signature m)) = Inr m"
    using assms(1) by (simp add: make_confirmation_eq_Inr)
  have get:
    "object_get (dict_items ?p) (lit ''v'') = Inr (PInt (cnf_version m))"
    "object_get (dict_items ?p) (lit ''suite'') = Inr (PStr (cnf_suite m))"
    "object_get (dict_items ?p) (lit ''initiator'') = Inr (PStr (cnf_initiator m))"
    "object_get (dict_items ?p) (lit ''responder'') = Inr (PStr (cnf_responder m))"
    "object_get (dict_items ?p) (lit ''initiator_ephemeral_public_key'') =
       Inr (PStr (bytes_hex (cnf_initiator_ephemeral m)))"
    "object_get (dict_items ?p) (lit ''responder_ephemeral_public_key'') =
       Inr (PStr (bytes_hex (cnf_responder_ephemeral m)))"
    "object_get (dict_items ?p) (lit ''initiator_key_confirmation'') =
       Inr (PStr (bytes_hex (cnf_key_confirmation m)))"
    "object_get (dict_items ?p) (lit ''signature'') = Inr (PStr (bytes_hex (cnf_signature m)))"
    unfolding object_get_dict_items [OF ok] by (simp_all add: confirmation_message_payload_def)
  show "confirmation_from_bytes rt (PBytes (payload_bytes ?p)) = Inr m"
    using assms(1) enc
    by (simp add: confirmation_from_bytes_def parse get decode_hex_bytes_hex confirmation_valid_def
        handshake_constants construct_and_verify_canonical_eq_Inr make)
qed

section \<open>Exceptions\<close>

lemma handshake_error_class [simp]: "cls (handshake_error m) = HandshakeError"
  by (simp add: handshake_error_def)

lemma validator_raises [raises_intros]:
  "raises_among [TypeError, ValueError] (validate_version x)"
  "raises_among [TypeError, ValueError] (validate_suite x)"
  "raises_among [TypeError, ValueError] (validate_name rt f x)"
  "raises_among [TypeError, ValueError] (validate_bytes f x n)"
proof -
  note [simp] = isinstance_of_def
  show "raises_among [TypeError, ValueError] (validate_version x)"
    by (cases x) (auto simp: validate_version_def int_text_def)
  show "raises_among [TypeError, ValueError] (validate_suite x)"
    by (cases x) (auto simp: validate_suite_def)
  show "raises_among [TypeError, ValueError] (validate_bytes f x n)"
    by (cases x) (auto simp: validate_bytes_def)
  show "raises_among [TypeError, ValueError] (validate_name rt f x)"
  proof (cases x)
    case (PStr s)
    then show ?thesis
      by (cases "list_all is_scalar s") (auto simp: validate_name_def utf8_encode_def)
  qed (auto simp: validate_name_def)
qed

lemma validate_participants_raises [raises_intros]:
  "raises_among [TypeError, ValueError] (validate_participants rt x y)"
  by (auto simp: validate_participants_def isinstance_of_def intro!: raises_intros)

lemma validate_offer_fields_raises [raises_intros]:
  "raises_among [TypeError, ValueError] (validate_offer_fields rt v su i r ie isk)"
  by (auto simp: validate_offer_fields_def intro!: raises_intros)

lemma make_raises [raises_intros]:
  "raises_among [TypeError, ValueError] (make_offer rt v su i r ie isk sg)"
  "raises_among [TypeError, ValueError] (make_response rt v su i r ie isk re rsk kc sg)"
  "raises_among [TypeError, ValueError] (make_confirmation rt v su i r ie re kc sg)"
  by (auto simp: make_offer_def make_response_def make_confirmation_def isinstance_of_def
      intro!: raises_intros split: prod.splits)

lemma decode_hex_raises [raises_intros]: "raises_only HandshakeError (decode_hex f x n)"
proof (cases x)
  case (PStr s)
  have "\<exists>b. fromhex s = Some b" if "list_all is_lower_hex s" "length s = n * 2"
    using fromhex_lower [OF that(1)] that(2) by auto
  with PStr show ?thesis by (auto simp: decode_hex_def)
qed (auto simp: decode_hex_def)

lemma construct_raises [raises_intros]:
  assumes "raises_among [TypeError, ValueError] construction"
    and "\<And>m. construction = Inr m \<Longrightarrow> raises_only HandshakeError (to_bytes m)"
  shows "raises_only HandshakeError (construct_and_verify_canonical data construction to_bytes)"
  using assms by (auto simp: construct_and_verify_canonical_def res_simps intro!: raises_intros)

lemma handshake_parse_json_raises [raises_intros]:
  "raises_only HandshakeError (handshake_parse_json rt data)"
proof -
  let ?m = "bindE (decode_utf8 data)
      (loads rt handshake_reject_duplicate_keys handshake_reject_nonfinite_number)"
  have "isinstance_of exc [HandshakeError] \<or>
      isinstance_of exc [UnicodeDecodeError, JSONDecodeError, RecursionError, ValueError]"
    if raised: "?m = Inl exc" for exc
  proof -
    consider "cls exc = UnicodeDecodeError"
      | s where "loads rt handshake_reject_duplicate_keys handshake_reject_nonfinite_number s = Inl exc"
      using raised by (auto simp: decode_utf8_def bindE_eq_Inl opt_else_eq_Inl)
    then show ?thesis
    proof cases
      case 2
      have "handshake_reject_nonfinite_number t \<noteq> Inl out_of_fuel" for t
        by (simp add: handshake_reject_nonfinite_number_def handshake_error_def out_of_fuel_def)
      with handshake_hook.loads_raises [OF 2] show ?thesis
        by (auto simp: isinstance_of_def handshake_reject_nonfinite_number_def)
    qed (simp add: isinstance_of_def)
  qed
  then show ?thesis
    by (cases ?m) (auto simp: handshake_parse_json_def isinstance_of_def)
qed

lemma parse_message_raises [raises_intros]:
  "raises_only HandshakeError (parse_message rt x kind expected)"
  by (cases x)
    (auto simp: parse_message_def Let_def intro!: raises_intros split: pyval.splits)

lemma parse_message_Inr:
  assumes "parse_message rt x kind expected = Inr items"
  shows "set (object_keys items) = set expected"
    and "\<exists>data. x = PBytes data \<and> handshake_parse_json rt data = Inr (PDict items)"
    and "lit ''kind'' \<in> set expected \<Longrightarrow> map_of items (PStr (lit ''kind'')) = Some (PStr kind)"
proof -
  obtain data where x: "x = PBytes data"
    using assms by (cases x) (auto simp: parse_message_def)
  obtain raw where raw: "handshake_parse_json rt data = Inr raw"
    using assms x by (auto simp: parse_message_def res_simps)
  have items: "raw = PDict items" "set (object_keys items) = set expected"
    "case map_of items (PStr (lit ''kind'')) of None \<Rightarrow> True | Some k \<Rightarrow> k = PStr kind"
    using assms x raw
    by (cases raw; auto simp: parse_message_def Let_def res_simps split: option.splits)+
  show "set (object_keys items) = set expected" by (rule items(2))
  show "\<exists>data. x = PBytes data \<and> handshake_parse_json rt data = Inr (PDict items)"
    using x raw items(1) by simp
  assume "lit ''kind'' \<in> set expected"
  with items(2) object_get_present [of "lit ''kind''" items]
  show "map_of items (PStr (lit ''kind'')) = Some (PStr kind)"
    using items(3) by (auto simp: object_get_def opt_else_eq_Inr)
qed

lemma object_get_fields_raises:
  "parse_message rt x kind expected = Inr items \<Longrightarrow> f \<in> set expected \<Longrightarrow>
     raises_only HandshakeError (object_get items f)"
  using parse_message_Inr(1) object_get_present by fastforce

lemma from_bytes_raises:
  assumes "runtime_ok rt"
  shows "raises_only HandshakeError (offer_from_bytes rt x)"
    and "raises_only HandshakeError (response_from_bytes rt x)"
    and "raises_only HandshakeError (confirmation_from_bytes rt x)"
proof -
  have "raises_only HandshakeError (offer_to_bytes rt m)" if "offer_valid rt m" for m
    using offer_bytes(1) [OF that assms] by simp
  then show "raises_only HandshakeError (offer_from_bytes rt x)"
    unfolding offer_from_bytes_def
    by (intro raises_intros object_get_fields_raises; (assumption)?)
      (auto simp: handshake_fields_defs make_offer_eq_Inr)
  have "raises_only HandshakeError (response_to_bytes rt m)" if "response_valid rt m" for m
    using response_bytes(1) [OF that assms] by simp
  then show "raises_only HandshakeError (response_from_bytes rt x)"
    unfolding response_from_bytes_def
    by (intro raises_intros object_get_fields_raises; (assumption)?)
      (auto simp: handshake_fields_defs make_response_eq_Inr)
  have "raises_only HandshakeError (confirmation_to_bytes rt m)" if "confirmation_valid rt m" for m
    using confirmation_bytes(1) [OF that assms] by simp
  then show "raises_only HandshakeError (confirmation_from_bytes rt x)"
    unfolding confirmation_from_bytes_def
    by (intro raises_intros object_get_fields_raises; (assumption)?)
      (auto simp: handshake_fields_defs make_confirmation_eq_Inr)
qed

text \<open>Acceptance: whatever a parser returns is valid and its input is the encoding.\<close>

lemma from_bytes_Inr:
  "offer_from_bytes rt x = Inr m1 \<Longrightarrow>
     offer_valid rt m1 \<and> (\<exists>b. x = PBytes b \<and> offer_to_bytes rt m1 = Inr b)"
  "response_from_bytes rt x = Inr m2 \<Longrightarrow>
     response_valid rt m2 \<and> (\<exists>b. x = PBytes b \<and> response_to_bytes rt m2 = Inr b)"
  "confirmation_from_bytes rt x = Inr m3 \<Longrightarrow>
     confirmation_valid rt m3 \<and> (\<exists>b. x = PBytes b \<and> confirmation_to_bytes rt m3 = Inr b)"
  unfolding offer_from_bytes_def response_from_bytes_def confirmation_from_bytes_def
  by (auto simp only: bindE_eq_Inr construct_and_verify_canonical_eq_Inr make_offer_eq_Inr
      make_response_eq_Inr make_confirmation_eq_Inr)

section \<open>Examples\<close>

definition sample_offer :: "HandshakeOffer" where
  "sample_offer =
     \<lparr>ofr_version = 1, ofr_suite = lit ''AES_GCM_SIV'', ofr_initiator = lit ''alice'',
      ofr_responder = lit ''bob'', ofr_initiator_ephemeral = replicate 32 1,
      ofr_initiator_signing = replicate 32 2, ofr_signature = replicate 64 3\<rparr>"

definition sample_response :: "HandshakeResponse" where
  "sample_response =
     \<lparr>rsp_version = 1, rsp_suite = lit ''AES_GCM_SIV'', rsp_initiator = lit ''alice'',
      rsp_responder = lit ''bob'', rsp_initiator_ephemeral = replicate 32 1,
      rsp_initiator_signing = replicate 32 2, rsp_responder_ephemeral = replicate 32 4,
      rsp_responder_signing = replicate 32 5, rsp_key_confirmation = replicate 32 6,
      rsp_signature = replicate 64 7\<rparr>"

definition sample_confirmation :: "HandshakeConfirmation" where
  "sample_confirmation =
     \<lparr>cnf_version = 1, cnf_suite = lit ''AES_GCM_SIV'', cnf_initiator = lit ''alice'',
      cnf_responder = lit ''bob'', cnf_initiator_ephemeral = replicate 32 1,
      cnf_responder_ephemeral = replicate 32 4, cnf_key_confirmation = replicate 32 8,
      cnf_signature = replicate 64 9\<rparr>"

lemma sample_common_ok: "common_ok rt 1 (lit ''AES_GCM_SIV'') (lit ''alice'') (lit ''bob'')"
  by (simp add: common_ok_def PROTOCOL_VERSION_def SUPPORTED_HANDSHAKE_SUITES_def name_ok_plain
      MAX_PARTICIPANT_NAME_BYTES_def lit_def)

lemma sample_messages_valid:
  "offer_valid rt sample_offer" "response_valid rt sample_response"
  "confirmation_valid rt sample_confirmation"
  by (simp_all add: offer_valid_def sample_offer_def response_valid_def sample_response_def
      confirmation_valid_def sample_confirmation_def sample_common_ok)

section \<open>Properties\<close>

text \<open>
  C13. Every valid handshake message of the three kinds encodes, within the size limit that
  \<^verbatim>\<open>_encode_message\<close> enforces, and its parser gives the message back.
\<close>

theorem handshake_roundtrip:
  assumes "runtime_ok rt" "offer_valid rt m1" "response_valid rt m2" "confirmation_valid rt m3"
  shows "\<exists>b1 b2 b3.
    offer_to_bytes rt m1 = Inr b1 \<and> offer_from_bytes rt (PBytes b1) = Inr m1 \<and>
    response_to_bytes rt m2 = Inr b2 \<and> response_from_bytes rt (PBytes b2) = Inr m2 \<and>
    confirmation_to_bytes rt m3 = Inr b3 \<and> confirmation_from_bytes rt (PBytes b3) = Inr m3 \<and>
    length b1 \<le> MAX_HANDSHAKE_MESSAGE_BYTES \<and> length b2 \<le> MAX_HANDSHAKE_MESSAGE_BYTES \<and>
    length b3 \<le> MAX_HANDSHAKE_MESSAGE_BYTES"
proof -
  have "length (payload_bytes p) \<le> MAX_HANDSHAKE_MESSAGE_BYTES" if "payload_ok p" for p
    using that ulen_payload [of p] by (simp add: payload_ok_def ulen_def payload_bytes_def)
  then show ?thesis
    using offer_bytes [OF assms(2,1)] response_bytes [OF assms(3,1)] confirmation_bytes [OF assms(4,1)]
      offer_payload_ok [OF assms(2)] response_payload_ok [OF assms(3)] confirmation_payload_ok [OF assms(4)]
    by blast
qed

theorem handshake_roundtrip_witness:
  "\<exists>b. response_to_bytes sample_runtime sample_response = Inr b \<and>
     response_from_bytes sample_runtime (PBytes b) = Inr sample_response"
  using handshake_roundtrip [OF sample_runtime_ok sample_messages_valid] by blast

text \<open>
  C14. The wire form of the three messages is canonical: a parser accepts an input exactly when
  it is what \<^verbatim>\<open>to_bytes\<close> gives for the message it returns, and that message is valid.
\<close>

theorem handshake_canonical:
  assumes "runtime_ok rt"
  shows "(offer_from_bytes rt x = Inr m1 \<longleftrightarrow>
      offer_valid rt m1 \<and> (\<exists>b. x = PBytes b \<and> offer_to_bytes rt m1 = Inr b)) \<and>
    (response_from_bytes rt x = Inr m2 \<longleftrightarrow>
      response_valid rt m2 \<and> (\<exists>b. x = PBytes b \<and> response_to_bytes rt m2 = Inr b)) \<and>
    (confirmation_from_bytes rt x = Inr m3 \<longleftrightarrow>
      confirmation_valid rt m3 \<and> (\<exists>b. x = PBytes b \<and> confirmation_to_bytes rt m3 = Inr b))"
  using from_bytes_Inr [of rt x] offer_bytes [of rt m1, OF _ assms]
    response_bytes [of rt m2, OF _ assms] confirmation_bytes [of rt m3, OF _ assms]
  by auto

theorem handshake_canonical_witness:
  "\<exists>b. offer_to_bytes sample_runtime sample_offer = Inr b \<and>
     offer_from_bytes sample_runtime (PBytes b) = Inr sample_offer \<and>
     offer_from_bytes sample_runtime (PBytes (10 # b)) \<noteq> Inr sample_offer"
proof -
  obtain b where b: "offer_to_bytes sample_runtime sample_offer = Inr b"
    using offer_bytes [OF sample_messages_valid(1) sample_runtime_ok] by blast
  show ?thesis
    using b handshake_canonical [OF sample_runtime_ok, of "PBytes b" sample_offer]
      handshake_canonical [OF sample_runtime_ok, of "PBytes (10 # b)" sample_offer]
    by (auto simp: sample_messages_valid)
qed

text \<open>
  C22. The three parsers fail with \<open>HandshakeError\<close> only, whatever value they are given: neither
  the JSON decoder's exceptions nor those of the message constructors escape.
\<close>

theorem handshake_errors:
  assumes "runtime_ok rt"
  shows "raises_only HandshakeError (offer_from_bytes rt x) \<and>
    raises_only HandshakeError (response_from_bytes rt x) \<and>
    raises_only HandshakeError (confirmation_from_bytes rt x)"
  using from_bytes_raises [OF assms] by simp

theorem handshake_errors_witness:
  "raises_only HandshakeError (offer_from_bytes sample_runtime (PBytes (blit ''[NaN]''))) \<and>
   raises_only HandshakeError (response_from_bytes sample_runtime PNone)"
  using handshake_errors [OF sample_runtime_ok] by blast

text \<open>
  Messages are not confused for one another: no input is accepted by the parsers of two
  kinds.
\<close>

theorem handshake_kinds_disjoint:
  assumes "offer_from_bytes rt x = Inr m1 \<or> response_from_bytes rt x = Inr m2"
  shows "confirmation_from_bytes rt x \<noteq> Inr m3 \<and>
    \<not> (offer_from_bytes rt x = Inr m1 \<and> response_from_bytes rt x = Inr m2)"
proof -
  have kind: "\<exists>d items. x = PBytes d \<and> handshake_parse_json rt d = Inr (PDict items) \<and>
      map_of items (PStr (lit ''kind'')) = Some (PStr k)"
    if "parse_message rt x k f = Inr items" "lit ''kind'' \<in> set f" for k f items
    using parse_message_Inr(2,3) [OF that(1)] that(2) by blast
  have "\<exists>d items. x = PBytes d \<and> handshake_parse_json rt d = Inr (PDict items) \<and>
      map_of items (PStr (lit ''kind'')) = Some (PStr OFFER_KIND)"
    if "offer_from_bytes rt x = Inr m1"
    using that by (auto simp: offer_from_bytes_def bindE_eq_Inr handshake_fields_defs dest!: kind)
  moreover have "\<exists>d items. x = PBytes d \<and> handshake_parse_json rt d = Inr (PDict items) \<and>
      map_of items (PStr (lit ''kind'')) = Some (PStr RESPONSE_KIND)"
    if "response_from_bytes rt x = Inr m2"
    using that by (auto simp: response_from_bytes_def bindE_eq_Inr handshake_fields_defs dest!: kind)
  moreover have "\<exists>d items. x = PBytes d \<and> handshake_parse_json rt d = Inr (PDict items) \<and>
      map_of items (PStr (lit ''kind'')) = Some (PStr CONFIRMATION_KIND)"
    if "confirmation_from_bytes rt x = Inr m3"
    using that by (auto simp: confirmation_from_bytes_def bindE_eq_Inr handshake_fields_defs dest!: kind)
  moreover have "OFFER_KIND \<noteq> RESPONSE_KIND" "OFFER_KIND \<noteq> CONFIRMATION_KIND"
    "RESPONSE_KIND \<noteq> CONFIRMATION_KIND"
    by (simp_all add: OFFER_KIND_def RESPONSE_KIND_def CONFIRMATION_KIND_def)
  ultimately show ?thesis using assms by fastforce
qed

theorem handshake_kinds_disjoint_witness:
  "\<exists>b. offer_to_bytes sample_runtime sample_offer = Inr b \<and>
     confirmation_from_bytes sample_runtime (PBytes b) \<noteq> Inr sample_confirmation"
proof -
  have "offer_from_bytes sample_runtime (PBytes (payload_bytes (offer_payload sample_offer))) =
      Inr sample_offer"
    by (rule offer_bytes(2) [OF sample_messages_valid(1) sample_runtime_ok])
  from handshake_kinds_disjoint [OF disjI1 [OF this]]
    offer_bytes(1) [OF sample_messages_valid(1) sample_runtime_ok]
  show ?thesis by blast
qed

end
