(* ===== verification/Transcript.thy ===== *)
theory Transcript
  imports HandshakeCodec
begin

text \<open>
  What the handshake signs: the offer's context, the transcript and the two payloads over it.
  All are a label followed by length-prefixed fields, so they determine what they were made of,
  and the labels keep the three signatures apart.
\<close>

interpretation handshake_fields: prefix_code encode_field
  by unfold_locales (auto simp: encode_field_def dest: prefixed_prefix_free)

lemma dec_int_inj: "dec_int i = dec_int j \<Longrightarrow> i = j"
proof -
  have no_minus: "dec_nat n \<noteq> 45 # s" for n s
    using dec_nat_digits [of n] by (auto simp: is_digit_def)
  have "m = n" if "dec_nat m = dec_nat n" for m n
    using that digits_value_dec_nat by metis
  then show "dec_int i = dec_int j \<Longrightarrow> i = j"
    using no_minus no_minus [symmetric]
    by (auto simp: dec_int_def split: if_splits) fastforce+
qed

lemma version_field_inj:
  assumes "bindE (int_text v) ascii_encode = Inr b" "bindE (int_text v') ascii_encode = Inr b"
  shows "v = v'"
proof -
  obtain t t' where "int_text v = Inr t" "int_text v' = Inr t'" "t = t'"
    using assms ascii_encode_inj by (auto simp: bindE_eq_Inr)
  then have "dec_int v = dec_int v'" by (auto simp: int_text_def split: if_splits)
  then show ?thesis by (rule dec_int_inj)
qed

section \<open>The context of the offer and the transcript\<close>

lemma handshake_context_fields:
  assumes "handshake_context v su i r ie isk = Inr p"
  obtains vb sb ib rb a where
    "bindE (int_text v) ascii_encode = Inr vb" "utf8_encode su = Inr sb" "utf8_encode i = Inr ib"
    "utf8_encode r = Inr rb" "p = blit ''CypherSyntax/handshake-offer/v1'' @ a"
    "join_parts (map encode_field [vb, sb, ib, rb, ie, isk]) = Inr a"
proof -
  from assms obtain t vb sb ib rb f1 f2 f3 f4 f5 f6 where
    v: "int_text v = Inr t" "ascii_encode t = Inr vb" and
    f: "utf8_encode su = Inr sb" "utf8_encode i = Inr ib" "utf8_encode r = Inr rb"
    "encode_field vb = Inr f1" "encode_field sb = Inr f2" "encode_field ib = Inr f3"
    "encode_field rb = Inr f4" "encode_field ie = Inr f5" "encode_field isk = Inr f6"
    "p = blit ''CypherSyntax/handshake-offer/v1'' @ f1 @ f2 @ f3 @ f4 @ f5 @ f6"
    unfolding handshake_context_def join_parts_simps bindE_eq_Inr bindE_assoc bindE_simps
    by auto
  have "bindE (int_text v) ascii_encode = Inr vb" by (simp add: v)
  from that [OF this f(1-3,10)] show thesis by (simp add: f(4-9))
qed

lemma handshake_context_inj:
  assumes "handshake_context v su i r ie isk = Inr p" "handshake_context v' su' i' r' ie' isk' = Inr p"
  shows "v = v' \<and> su = su' \<and> i = i' \<and> r = r' \<and> ie = ie' \<and> isk = isk'"
proof -
  obtain vb sb ib rb a where 1: "bindE (int_text v) ascii_encode = Inr vb" "utf8_encode su = Inr sb"
    "utf8_encode i = Inr ib" "utf8_encode r = Inr rb"
    "p = blit ''CypherSyntax/handshake-offer/v1'' @ a"
    "join_parts (map encode_field [vb, sb, ib, rb, ie, isk]) = Inr a"
    by (rule handshake_context_fields [OF assms(1)])
  obtain vb' sb' ib' rb' a' where 2: "bindE (int_text v') ascii_encode = Inr vb'"
    "utf8_encode su' = Inr sb'" "utf8_encode i' = Inr ib'" "utf8_encode r' = Inr rb'"
    "p = blit ''CypherSyntax/handshake-offer/v1'' @ a'"
    "join_parts (map encode_field [vb', sb', ib', rb', ie', isk']) = Inr a'"
    by (rule handshake_context_fields [OF assms(2)])
  from 1(5) 2(5) have "a' = a" by simp
  from handshake_fields.fields_inj [OF 1(6) 2(6) [unfolded this]]
  have "vb = vb'" "sb = sb'" "ib = ib'" "rb = rb'" "ie = ie'" "isk = isk'" by simp_all
  with 1(1-4) 2(1-4) show ?thesis
    using version_field_inj utf8_encode_inj by blast
qed

lemma validate_for_offer_eq_Inr [res_simps]:
  "validate_for_offer m q = Inr u \<longleftrightarrow>
     rsp_version m = ofr_version q \<and> rsp_suite m = ofr_suite q \<and>
     rsp_initiator m = ofr_initiator q \<and> rsp_responder m = ofr_responder q \<and>
     rsp_initiator_ephemeral m = ofr_initiator_ephemeral q \<and>
     rsp_initiator_signing m = ofr_initiator_signing q"
  by (auto simp: validate_for_offer_def res_simps)

lemma validate_for_response_eq_Inr [res_simps]:
  "validate_for_response k m = Inr u \<longleftrightarrow>
     cnf_version k = rsp_version m \<and> cnf_suite k = rsp_suite m \<and>
     cnf_initiator k = rsp_initiator m \<and> cnf_responder k = rsp_responder m \<and>
     cnf_initiator_ephemeral k = rsp_initiator_ephemeral m \<and>
     cnf_responder_ephemeral k = rsp_responder_ephemeral m"
  by (auto simp: validate_for_response_def res_simps)

lemma handshake_transcript_fields:
  assumes "handshake_transcript q m = Inr t"
  obtains vb sb ib rb a where
    "bindE (int_text (ofr_version q)) ascii_encode = Inr vb" "utf8_encode (ofr_suite q) = Inr sb"
    "utf8_encode (ofr_initiator q) = Inr ib" "utf8_encode (ofr_responder q) = Inr rb"
    "t = blit ''CypherSyntax/handshake-transcript/v1'' @ a"
    "join_parts (map encode_field
       [vb, sb, ib, rb, ofr_initiator_ephemeral q, ofr_initiator_signing q, ofr_signature q,
        rsp_responder_ephemeral m, rsp_responder_signing m]) = Inr a"
    "validate_for_offer m q = Inr ()"
proof -
  from assms obtain s vb sb ib rb f1 f2 f3 f4 f5 f6 f7 f8 f9 where
    v: "int_text (ofr_version q) = Inr s" "ascii_encode s = Inr vb" and
    f: "utf8_encode (ofr_suite q) = Inr sb" "utf8_encode (ofr_initiator q) = Inr ib"
    "utf8_encode (ofr_responder q) = Inr rb"
    "encode_field vb = Inr f1" "encode_field sb = Inr f2" "encode_field ib = Inr f3"
    "encode_field rb = Inr f4" "encode_field (ofr_initiator_ephemeral q) = Inr f5"
    "encode_field (ofr_initiator_signing q) = Inr f6" "encode_field (ofr_signature q) = Inr f7"
    "encode_field (rsp_responder_ephemeral m) = Inr f8"
    "encode_field (rsp_responder_signing m) = Inr f9"
    "t = blit ''CypherSyntax/handshake-transcript/v1'' @
       f1 @ f2 @ f3 @ f4 @ f5 @ f6 @ f7 @ f8 @ f9" and
    ok: "validate_for_offer m q = Inr ()"
    unfolding handshake_transcript_def join_parts_simps bindE_eq_Inr thenE_eq_Inr bindE_assoc
      bindE_simps
    by auto
  have "bindE (int_text (ofr_version q)) ascii_encode = Inr vb" by (simp add: v)
  from that [OF this f(1-3,13) _ ok] show thesis by (simp add: f(4-12))
qed

lemma handshake_transcript_inj:
  assumes "handshake_transcript q m = Inr t" "handshake_transcript q' m' = Inr t"
  shows "q = q' \<and> rsp_responder_ephemeral m = rsp_responder_ephemeral m' \<and>
    rsp_responder_signing m = rsp_responder_signing m'"
proof -
  obtain vb sb ib rb a where 1: "bindE (int_text (ofr_version q)) ascii_encode = Inr vb"
    "utf8_encode (ofr_suite q) = Inr sb" "utf8_encode (ofr_initiator q) = Inr ib"
    "utf8_encode (ofr_responder q) = Inr rb"
    "t = blit ''CypherSyntax/handshake-transcript/v1'' @ a"
    "join_parts (map encode_field
       [vb, sb, ib, rb, ofr_initiator_ephemeral q, ofr_initiator_signing q, ofr_signature q,
        rsp_responder_ephemeral m, rsp_responder_signing m]) = Inr a"
    by (rule handshake_transcript_fields [OF assms(1)])
  obtain vb' sb' ib' rb' a' where 2: "bindE (int_text (ofr_version q')) ascii_encode = Inr vb'"
    "utf8_encode (ofr_suite q') = Inr sb'" "utf8_encode (ofr_initiator q') = Inr ib'"
    "utf8_encode (ofr_responder q') = Inr rb'"
    "t = blit ''CypherSyntax/handshake-transcript/v1'' @ a'"
    "join_parts (map encode_field
       [vb', sb', ib', rb', ofr_initiator_ephemeral q', ofr_initiator_signing q', ofr_signature q',
        rsp_responder_ephemeral m', rsp_responder_signing m']) = Inr a'"
    by (rule handshake_transcript_fields [OF assms(2)])
  from 1(5) 2(5) have "a' = a" by simp
  from handshake_fields.fields_inj [OF 1(6) 2(6) [unfolded this]]
  have eqs: "vb = vb'" "sb = sb'" "ib = ib'" "rb = rb'"
    "ofr_initiator_ephemeral q = ofr_initiator_ephemeral q'"
    "ofr_initiator_signing q = ofr_initiator_signing q'" "ofr_signature q = ofr_signature q'"
    "rsp_responder_ephemeral m = rsp_responder_ephemeral m'"
    "rsp_responder_signing m = rsp_responder_signing m'" by simp_all
  have "ofr_version q = ofr_version q'"
    using 1(1) 2(1) eqs(1) version_field_inj by blast
  moreover have "ofr_suite q = ofr_suite q'" "ofr_initiator q = ofr_initiator q'"
    "ofr_responder q = ofr_responder q'"
    using 1(2-4) 2(2-4) eqs(2-4) utf8_encode_inj by blast+
  ultimately have "q = q'" using eqs(5-7) by (cases q; cases q') simp
  with eqs(8,9) show ?thesis by simp
qed

section \<open>The payloads over the transcript\<close>

lemma response_signature_payload_fields:
  assumes "response_signature_payload m q = Inr p"
  obtains t a where "handshake_transcript q m = Inr t"
    "p = blit ''CypherSyntax/handshake-response-signature/v1'' @ a"
    "join_parts (map encode_field [t, rsp_key_confirmation m]) = Inr a"
  using assms unfolding response_signature_payload_def by (auto simp: bindE_eq_Inr)

lemma confirmation_signature_payload_fields:
  assumes "confirmation_signature_payload k q m = Inr p"
  obtains t a where "validate_for_response k m = Inr ()" "handshake_transcript q m = Inr t"
    "p = blit ''CypherSyntax/handshake-confirmation-signature/v1'' @ a"
    "join_parts (map encode_field [t, rsp_key_confirmation m, cnf_key_confirmation k]) = Inr a"
  using assms unfolding confirmation_signature_payload_def
  by (auto simp: bindE_eq_Inr thenE_eq_Inr)

lemma offer_signature_payload_eq_Inr:
  "offer_signature_payload rt q = Inr p \<longleftrightarrow>
     common_ok rt (ofr_version q) (ofr_suite q) (ofr_initiator q) (ofr_responder q) \<and>
     length (ofr_initiator_ephemeral q) = 32 \<and> length (ofr_initiator_signing q) = 32 \<and>
     handshake_context (ofr_version q) (ofr_suite q) (ofr_initiator q) (ofr_responder q)
       (ofr_initiator_ephemeral q) (ofr_initiator_signing q) = Inr p"
  by (simp add: offer_signature_payload_def signature_payload_for_def thenE_eq_Inr
      validate_offer_fields_eq_Inr)

lemma offer_payload_inj:
  assumes "offer_signature_payload rt q = Inr p" "offer_signature_payload rt q' = Inr p"
  shows "q\<lparr>ofr_signature := s\<rparr> = q'\<lparr>ofr_signature := s\<rparr>"
proof -
  have "ofr_version q = ofr_version q' \<and> ofr_suite q = ofr_suite q' \<and>
      ofr_initiator q = ofr_initiator q' \<and> ofr_responder q = ofr_responder q' \<and>
      ofr_initiator_ephemeral q = ofr_initiator_ephemeral q' \<and>
      ofr_initiator_signing q = ofr_initiator_signing q'"
    using assms handshake_context_inj by (auto simp: offer_signature_payload_eq_Inr)
  then show ?thesis by (cases q; cases q') simp
qed

lemma response_payload_inj:
  assumes "response_signature_payload m q = Inr p" "response_signature_payload m' q' = Inr p"
  shows "q = q' \<and> m\<lparr>rsp_signature := s\<rparr> = m'\<lparr>rsp_signature := s\<rparr>"
proof -
  obtain t a where 1: "handshake_transcript q m = Inr t"
    "p = blit ''CypherSyntax/handshake-response-signature/v1'' @ a"
    "join_parts (map encode_field [t, rsp_key_confirmation m]) = Inr a"
    by (rule response_signature_payload_fields [OF assms(1)])
  obtain t' a' where 2: "handshake_transcript q' m' = Inr t'"
    "p = blit ''CypherSyntax/handshake-response-signature/v1'' @ a'"
    "join_parts (map encode_field [t', rsp_key_confirmation m']) = Inr a'"
    by (rule response_signature_payload_fields [OF assms(2)])
  from 1(2) 2(2) have "a' = a" by simp
  from handshake_fields.fields_inj [OF 1(3) 2(3) [unfolded this]]
  have "t' = t" and kc: "rsp_key_confirmation m = rsp_key_confirmation m'" by simp_all
  from handshake_transcript_inj [OF 1(1) 2(1) [unfolded this(1)]]
  have eq: "q = q'" "rsp_responder_ephemeral m = rsp_responder_ephemeral m'"
    "rsp_responder_signing m = rsp_responder_signing m'" by simp_all
  have "validate_for_offer m q = Inr ()" "validate_for_offer m' q' = Inr ()"
    using 1(1) 2(1) by (auto simp: handshake_transcript_def thenE_eq_Inr)
  with eq kc have "m\<lparr>rsp_signature := s\<rparr> = m'\<lparr>rsp_signature := s\<rparr>"
    by (cases m; cases m') (simp add: validate_for_offer_eq_Inr)
  with eq(1) show ?thesis by simp
qed

lemma confirmation_payload_inj:
  assumes "confirmation_signature_payload k q m = Inr p"
    and "confirmation_signature_payload k' q' m' = Inr p"
  shows "q = q' \<and> m\<lparr>rsp_signature := s\<rparr> = m'\<lparr>rsp_signature := s\<rparr> \<and>
    k\<lparr>cnf_signature := s\<rparr> = k'\<lparr>cnf_signature := s\<rparr>"
proof -
  obtain t a where 1: "validate_for_response k m = Inr ()" "handshake_transcript q m = Inr t"
    "p = blit ''CypherSyntax/handshake-confirmation-signature/v1'' @ a"
    "join_parts (map encode_field [t, rsp_key_confirmation m, cnf_key_confirmation k]) = Inr a"
    by (rule confirmation_signature_payload_fields [OF assms(1)])
  obtain t' a' where 2: "validate_for_response k' m' = Inr ()" "handshake_transcript q' m' = Inr t'"
    "p = blit ''CypherSyntax/handshake-confirmation-signature/v1'' @ a'"
    "join_parts (map encode_field [t', rsp_key_confirmation m', cnf_key_confirmation k']) = Inr a'"
    by (rule confirmation_signature_payload_fields [OF assms(2)])
  from 1(3) 2(3) have "a' = a" by simp
  from handshake_fields.fields_inj [OF 1(4) 2(4) [unfolded this]]
  have "t' = t" and kc: "rsp_key_confirmation m = rsp_key_confirmation m'"
    "cnf_key_confirmation k = cnf_key_confirmation k'" by simp_all
  from handshake_transcript_inj [OF 1(2) 2(2) [unfolded this(1)]]
  have eq: "q = q'" "rsp_responder_ephemeral m = rsp_responder_ephemeral m'"
    "rsp_responder_signing m = rsp_responder_signing m'" by simp_all
  have "validate_for_offer m q = Inr ()" "validate_for_offer m' q' = Inr ()"
    using 1(2) 2(2) by (auto simp: handshake_transcript_def thenE_eq_Inr)
  with eq kc(1) have m: "m\<lparr>rsp_signature := s\<rparr> = m'\<lparr>rsp_signature := s\<rparr>"
    by (cases m; cases m') (simp add: validate_for_offer_eq_Inr)
  moreover have "k\<lparr>cnf_signature := s\<rparr> = k'\<lparr>cnf_signature := s\<rparr>"
    using 1(1) 2(1) kc m
    by (cases k; cases k'; cases m; cases m') (simp add: validate_for_response_eq_Inr)
  ultimately show ?thesis using eq(1) by simp
qed

section \<open>Valid messages can be signed\<close>

lemma encode_field_total:
  "length b < 2 ^ 32 \<Longrightarrow> encode_field b = Inr (be_bytes 4 (length b) @ b)"
  by (simp add: encode_field_def prefixed_def)

lemma join_fields_total:
  assumes "list_all (\<lambda>b. length b < 2 ^ 32) bs"
  shows "join_parts (map encode_field bs) =
    Inr (concat (map (\<lambda>b. be_bytes 4 (length b) @ b) bs))"
  using assms by (induction bs) (simp_all add: encode_field_total del: be_bytes.simps)

lemma version_field: "bindE (int_text PROTOCOL_VERSION) ascii_encode = Inr [49]"
  by (simp add: PROTOCOL_VERSION_def int_text_def max_str_digits_def dec_nat.simps dec_int_def
      ascii_encode_def to_byte_def)

lemma common_fields:
  assumes "common_ok rt v su i r"
  obtains sb ib rb where "bindE (int_text v) ascii_encode = Inr [49]"
    "utf8_encode su = Inr sb" "utf8_encode i = Inr ib" "utf8_encode r = Inr rb"
    "length sb \<le> 255" "length ib \<le> 255" "length rb \<le> 255"
proof -
  have name: "\<exists>b. utf8_encode s = Inr b \<and> length b \<le> 255" if "name_ok rt s" for s
    using that by (simp add: name_ok_def utf8_encode_def MAX_PARTICIPANT_NAME_BYTES_def)
  have "utf8_encode su = Inr (map to_byte su) \<and> length su \<le> 255"
    using assms by (auto simp: common_ok_def SUPPORTED_HANDSHAKE_SUITES_def lit_def
        intro!: utf8_encode_ascii)
  with name [of i] name [of r] version_field assms that show thesis
    by (fastforce simp: common_ok_def)
qed

lemma handshake_context_total:
  assumes "common_ok rt v su i r" "length ie = 32" "length isk = 32"
  shows "\<exists>p. handshake_context v su i r ie isk = Inr p"
proof -
  obtain sb ib rb where "bindE (int_text v) ascii_encode = Inr [49]"
    "utf8_encode su = Inr sb" "utf8_encode i = Inr ib" "utf8_encode r = Inr rb"
    "length sb \<le> 255" "length ib \<le> 255" "length rb \<le> 255"
    using assms(1) by (rule common_fields)
  then show ?thesis
    using assms(2,3) by (simp add: handshake_context_def encode_field_total del: bindE_assoc be_bytes.simps)
qed

lemma handshake_transcript_total:
  assumes "offer_valid rt q" "response_valid rt m" "validate_for_offer m q = Inr ()"
  shows "\<exists>t. handshake_transcript q m = Inr t \<and> length t < 2 ^ 32"
proof -
  have "common_ok rt (ofr_version q) (ofr_suite q) (ofr_initiator q) (ofr_responder q)"
    using assms(1) by (simp add: offer_valid_def)
  then obtain sb ib rb where "bindE (int_text (ofr_version q)) ascii_encode = Inr [49]"
    "utf8_encode (ofr_suite q) = Inr sb" "utf8_encode (ofr_initiator q) = Inr ib"
    "utf8_encode (ofr_responder q) = Inr rb"
    "length sb \<le> 255" "length ib \<le> 255" "length rb \<le> 255"
    by (rule common_fields)
  then show ?thesis
    using assms
    by (simp add: handshake_transcript_def offer_valid_def response_valid_def encode_field_total
        del: bindE_assoc be_bytes.simps)
qed

lemma signature_payloads_total:
  assumes "offer_valid rt q" "response_valid rt m" "validate_for_offer m q = Inr ()"
  shows "\<exists>p. offer_signature_payload rt q = Inr p"
    and "\<exists>p. response_signature_payload m q = Inr p"
    and "confirmation_valid rt k \<Longrightarrow> validate_for_response k m = Inr () \<Longrightarrow>
      \<exists>p. confirmation_signature_payload k q m = Inr p"
proof -
  show "\<exists>p. offer_signature_payload rt q = Inr p"
    using assms(1) handshake_context_total
    by (auto simp: offer_signature_payload_eq_Inr offer_valid_def)
  obtain t where t: "handshake_transcript q m = Inr t" "length t < 2 ^ 32"
    using handshake_transcript_total [OF assms] by blast
  show "\<exists>p. response_signature_payload m q = Inr p"
    using t assms(2)
    by (simp add: response_signature_payload_def encode_field_total response_valid_def
        del: be_bytes.simps)
  show "\<exists>p. confirmation_signature_payload k q m = Inr p"
    if "confirmation_valid rt k" "validate_for_response k m = Inr ()"
    using t assms(2) that
    by (simp add: confirmation_signature_payload_def encode_field_total response_valid_def
        confirmation_valid_def del: be_bytes.simps)
qed

lemma label_not_prefix:
  assumes "n < length a" "n < length b" "a ! n \<noteq> b ! n"
  shows "a @ x \<noteq> b @ y"
  using assms by (metis nth_append)

lemma sample_messages_match:
  "validate_for_offer sample_response sample_offer = Inr ()"
  "validate_for_response sample_confirmation sample_response = Inr ()"
  by (simp_all add: validate_for_offer_eq_Inr validate_for_response_eq_Inr sample_offer_def
      sample_response_def sample_confirmation_def)

section \<open>Properties\<close>

text \<open>
  C16. The transcript binds the handshake: two handshakes with the same transcript have the same
  offer, its signature included, and the same keys of the responder.
\<close>

theorem transcript_binds_handshake:
  assumes "handshake_transcript q m = Inr t" "handshake_transcript q' m' = Inr t"
  shows "q = q' \<and> rsp_responder_ephemeral m = rsp_responder_ephemeral m' \<and>
    rsp_responder_signing m = rsp_responder_signing m'"
  using assms by (rule handshake_transcript_inj)

theorem transcript_binds_handshake_witness:
  "\<exists>t. handshake_transcript sample_offer sample_response = Inr t \<and>
     handshake_transcript sample_offer (sample_response\<lparr>rsp_responder_signing := replicate 32 9\<rparr>) \<noteq>
       Inr t"
proof -
  obtain t where t: "handshake_transcript sample_offer sample_response = Inr t"
    using handshake_transcript_total [OF sample_messages_valid(1,2) sample_messages_match(1)] by blast
  moreover have "rsp_responder_signing sample_response \<noteq> replicate 32 9"
    by (simp add: sample_response_def)
  ultimately show ?thesis
    using transcript_binds_handshake [OF t, of sample_offer
        "sample_response\<lparr>rsp_responder_signing := replicate 32 9\<rparr>"] by auto
qed

text \<open>The labels keep the three payloads apart.\<close>

lemma signed_payloads_apart:
  assumes "offer_signature_payload rt q = Inr p1" "response_signature_payload m q' = Inr p2"
    and "confirmation_signature_payload k q'' m'' = Inr p3"
  shows "p1 \<noteq> p2 \<and> p1 \<noteq> p3 \<and> p2 \<noteq> p3"
proof -
  obtain a1 where 1: "p1 = blit ''CypherSyntax/handshake-offer/v1'' @ a1"
    using assms(1) unfolding offer_signature_payload_eq_Inr by (auto elim: handshake_context_fields)
  obtain a2 where 2: "p2 = blit ''CypherSyntax/handshake-response-signature/v1'' @ a2"
    using assms(2) by (rule response_signature_payload_fields)
  obtain a3 where 3: "p3 = blit ''CypherSyntax/handshake-confirmation-signature/v1'' @ a3"
    using assms(3) by (rule confirmation_signature_payload_fields)
  show ?thesis
    unfolding 1 2 3
    by (intro conjI label_not_prefix [of 23]) (simp_all add: blit_def)
qed

text \<open>
  C15. A signature covers everything that it should and nothing else: equal signed payloads come
  from equal offers (their own signature apart), from equal offer and response, or from equal offer,
  response and confirmation; and no payload of one kind is one of another, so that a signature made
  for one purpose is never valid for another.
\<close>

theorem signed_payloads_bind:
  "(offer_signature_payload rt q = Inr p \<longrightarrow> offer_signature_payload rt q' = Inr p \<longrightarrow>
      q\<lparr>ofr_signature := s\<rparr> = q'\<lparr>ofr_signature := s\<rparr>) \<and>
   (response_signature_payload m q = Inr p \<longrightarrow> response_signature_payload m' q' = Inr p \<longrightarrow>
      q = q' \<and> m\<lparr>rsp_signature := s\<rparr> = m'\<lparr>rsp_signature := s\<rparr>) \<and>
   (confirmation_signature_payload k q m = Inr p \<longrightarrow>
      confirmation_signature_payload k' q' m' = Inr p \<longrightarrow>
      q = q' \<and> m\<lparr>rsp_signature := s\<rparr> = m'\<lparr>rsp_signature := s\<rparr> \<and>
      k\<lparr>cnf_signature := s\<rparr> = k'\<lparr>cnf_signature := s\<rparr>) \<and>
   (offer_signature_payload rt q = Inr p1 \<longrightarrow> response_signature_payload m q' = Inr p2 \<longrightarrow>
      confirmation_signature_payload k q'' m'' = Inr p3 \<longrightarrow> p1 \<noteq> p2 \<and> p1 \<noteq> p3 \<and> p2 \<noteq> p3)"
proof -
  have "offer_signature_payload rt q = Inr p1 \<longrightarrow> response_signature_payload m q' = Inr p2 \<longrightarrow>
      confirmation_signature_payload k q'' m'' = Inr p3 \<longrightarrow> p1 \<noteq> p2 \<and> p1 \<noteq> p3 \<and> p2 \<noteq> p3"
    using signed_payloads_apart by (intro impI)
  then show ?thesis
    using offer_payload_inj response_payload_inj confirmation_payload_inj by blast
qed

theorem signed_payloads_bind_witness:
  "\<exists>p. response_signature_payload sample_response sample_offer = Inr p \<and>
     response_signature_payload (sample_response\<lparr>rsp_key_confirmation := replicate 32 0\<rparr>) sample_offer \<noteq>
       Inr p"
proof -
  obtain p where p: "response_signature_payload sample_response sample_offer = Inr p"
    using signature_payloads_total(2) [OF sample_messages_valid(1,2) sample_messages_match(1)] by blast
  moreover have "sample_response\<lparr>rsp_signature := []\<rparr> \<noteq>
      sample_response\<lparr>rsp_key_confirmation := replicate 32 0, rsp_signature := []\<rparr>"
    by (simp add: sample_response_def)
  ultimately show ?thesis
    using signed_payloads_bind [where m = sample_response and q = sample_offer and p = p and s = "[]"
        and m' = "sample_response\<lparr>rsp_key_confirmation := replicate 32 0\<rparr>" and q' = sample_offer]
    by blast
qed

end
