(* ===== verification/Session.thy ===== *)
theory Session
  imports Identity Kdf Replay Wire Transcript
begin

text \<open>
  \<^verbatim>\<open>src/cyphersyntax/session.py\<close>: the session that encrypts and decrypts messages, and the two
  sides of the handshake that make one.  An operation of an object is a function of the object
  that returns its result, a value or an exception, with the object after it.  \<^verbatim>\<open>encrypt\<close> holds
  \<^verbatim>\<open>_send_lock\<close> and \<^verbatim>\<open>decrypt\<close> changes only the replay window, under its lock, so each is one
  step.
\<close>

section \<open>Sessions\<close>

datatype AeadSuite = AES_GCM_SIV | CHACHA20_POLY1305

fun suite_value :: "AeadSuite \<Rightarrow> pystr" where
  "suite_value AES_GCM_SIV = lit ''AES_GCM_SIV''"
| "suite_value CHACHA20_POLY1305 = lit ''CHACHA20_POLY1305''"

text \<open>\<^verbatim>\<open>AeadSuite(value)\<close>\<close>

definition aead_suite :: "pystr \<Rightarrow> AeadSuite res" where
  "aead_suite value =
     (if value = suite_value AES_GCM_SIV then Inr AES_GCM_SIV
      else if value = suite_value CHACHA20_POLY1305 then Inr CHACHA20_POLY1305
      else Inl (Exn ValueError (value @ lit '' is not a valid AeadSuite'')))"

record SessionState =
  local_name :: pystr
  remote_name :: pystr
  suite :: AeadSuite
  root_key :: bytes
  local_ephemeral_public :: bytes
  remote_ephemeral_public :: bytes
  send_sequence :: int
  replay_window :: ReplayWindow

text \<open>The two methods of the cipher that \<^verbatim>\<open>_build_aead\<close> chooses.\<close>

definition aead_encrypt ::
    "crypto \<Rightarrow> AeadSuite \<Rightarrow> bytes \<Rightarrow> bytes \<Rightarrow> bytes \<Rightarrow> bytes \<Rightarrow> bytes res" where
  "aead_encrypt c su =
     (case su of AES_GCM_SIV \<Rightarrow> siv_encrypt c | CHACHA20_POLY1305 \<Rightarrow> chacha_encrypt c)"

definition aead_decrypt ::
    "crypto \<Rightarrow> AeadSuite \<Rightarrow> bytes \<Rightarrow> bytes \<Rightarrow> bytes \<Rightarrow> bytes \<Rightarrow> bytes res" where
  "aead_decrypt c su =
     (case su of AES_GCM_SIV \<Rightarrow> siv_decrypt c | CHACHA20_POLY1305 \<Rightarrow> chacha_decrypt c)"

text \<open>The default \<^verbatim>\<open>ReplayWindow()\<close>.\<close>

definition default_window :: "ReplayWindow" where
  "default_window = \<lparr>window_size = 1024, highest_seen = -1, seen = {}\<rparr>"

definition make_session ::
    "pystr \<Rightarrow> pystr \<Rightarrow> AeadSuite \<Rightarrow> bytes \<Rightarrow> bytes \<Rightarrow> bytes \<Rightarrow> SessionState" where
  "make_session local remote su root local_public remote_public =
     \<lparr>local_name = local, remote_name = remote, suite = su, root_key = root,
      local_ephemeral_public = local_public, remote_ephemeral_public = remote_public,
      send_sequence = 0, replay_window = default_window\<rparr>"

text \<open>The packet that \<^verbatim>\<open>encrypt\<close> makes under the lock.\<close>

definition encrypt_packet :: "crypto \<Rightarrow> runtime \<Rightarrow> SessionState \<Rightarrow> bytes \<Rightarrow> bytes res" where
  "encrypt_packet c rt self plaintext =
     thenE (raise_if (send_sequence self > MAX_MESSAGE_SEQUENCE)
             (Exn OverflowError (lit ''message sequence exhausted'')))
    (thenE (validate_message_sequence (PInt (send_sequence self)))
    (let sequence = send_sequence self;
         envelope = \<lparr>env_version = PInt PROTOCOL_VERSION,
           env_suite = PStr (suite_value (suite self)), env_sender = PStr (local_name self),
           env_recipient = PStr (remote_name self), env_sequence = PInt sequence,
           env_ciphertext = PBytes []\<rparr> in
     bindE (derive_message_key c (root_key self) (PInt sequence) (suite_value (suite self))
             (local_ephemeral_public self) (remote_ephemeral_public self)) (\<lambda>(key, nonce).
     bindE (bindE (associated_data rt envelope) (\<lambda>aad.
              aead_encrypt c (suite self) key nonce plaintext aad)) (\<lambda>ciphertext.
     envelope_to_bytes rt (envelope\<lparr>env_ciphertext := PBytes ciphertext\<rparr>)))))"

definition encrypt :: "crypto \<Rightarrow> runtime \<Rightarrow> pyval \<Rightarrow> SessionState \<Rightarrow> bytes res \<times> SessionState" where
  "encrypt c rt input self =
     (case input of
        PBytes plaintext \<Rightarrow>
          if length plaintext > MAX_PLAINTEXT_BYTES
          then (Inl (Exn ValueError (lit ''plaintext exceeds the maximum message size'')), self)
          else
            (case encrypt_packet c rt self plaintext of
               Inl e \<Rightarrow> (Inl e, self)
             | Inr packet \<Rightarrow> (Inr packet, self\<lparr>send_sequence := send_sequence self + 1\<rparr>))
      | _ \<Rightarrow> (Inl (Exn TypeError (lit ''plaintext must be bytes'')), self))"

text \<open>The checks of \<^verbatim>\<open>decrypt\<close> before the replay window is consulted.\<close>

definition check_envelope :: "SessionState \<Rightarrow> MessageEnvelope \<Rightarrow> unit res" where
  "check_envelope self envelope =
     thenE (raise_if (env_version envelope \<noteq> PInt PROTOCOL_VERSION)
             (Exn ValueError (lit ''unsupported envelope version: '' @
                dec_int (the_int (env_version envelope)))))
    (thenE (raise_if (env_suite envelope \<noteq> PStr (suite_value (suite self)))
             (Exn ValueError (lit ''AEAD suite mismatch'')))
    (thenE (raise_if (env_recipient envelope \<noteq> PStr (local_name self))
             (Exn ValueError (lit ''message recipient mismatch'')))
    (raise_if (env_sender envelope \<noteq> PStr (remote_name self))
             (Exn ValueError (lit ''message sender mismatch'')))))"

text \<open>The nested function \<^verbatim>\<open>authenticate\<close>.\<close>

definition authenticate :: "crypto \<Rightarrow> runtime \<Rightarrow> SessionState \<Rightarrow> MessageEnvelope \<Rightarrow> bytes res" where
  "authenticate c rt self envelope =
     bindE (derive_message_key c (root_key self) (env_sequence envelope)
             (suite_value (suite self)) (remote_ephemeral_public self)
             (local_ephemeral_public self)) (\<lambda>(key, nonce).
     bindE (associated_data rt envelope) (\<lambda>aad.
     aead_decrypt c (suite self) key nonce (the_bytes (env_ciphertext envelope)) aad))"

definition decrypt :: "crypto \<Rightarrow> runtime \<Rightarrow> pyval \<Rightarrow> SessionState \<Rightarrow> bytes res \<times> SessionState" where
  "decrypt c rt blob self =
     (case bindE (envelope_from_bytes rt blob) (\<lambda>envelope.
             thenE (check_envelope self envelope) (Inr envelope)) of
        Inl e \<Rightarrow> (Inl e, self)
      | Inr envelope \<Rightarrow>
          (let (result, window) =
                 authenticate_and_record (env_sequence envelope)
                   (\<lambda>w. (authenticate c rt self envelope, w)) (replay_window self) in
           (result, self\<lparr>replay_window := window\<rparr>)))"

section \<open>The initiator\<close>

record InitiatorHandshake =
  ini_identity :: Identity
  ini_remote_signing :: bytes
  ini_offer :: HandshakeOffer
  ini_supplemental :: bytes
  ini_ephemeral :: "bytes option"

text \<open>\<^verbatim>\<open>private_key.exchange(X25519PublicKey.from_public_bytes(public_key))\<close>\<close>

definition x25519_shared :: "crypto \<Rightarrow> bytes \<Rightarrow> bytes \<Rightarrow> bytes res" where
  "x25519_shared c private_key public_key =
     thenE (raise_if (\<not> x_public_ok c public_key)
             (Exn ValueError (lit ''An X25519 public key is 32 bytes long'')))
    (x_exchange c private_key public_key)"

definition zeros :: "nat \<Rightarrow> pyval" where
  "zeros n = PBytes (replicate n 0)"

text \<open>The confirmation that \<^verbatim>\<open>complete\<close> builds, first with a zero signature, then signed.\<close>

definition signed_confirmation ::
    "crypto \<Rightarrow> runtime \<Rightarrow> Identity \<Rightarrow> HandshakeOffer \<Rightarrow> HandshakeResponse \<Rightarrow> bytes \<Rightarrow>
       HandshakeConfirmation res" where
  "signed_confirmation c rt identity offer response key_confirmation =
     bindE (make_confirmation rt (PInt (rsp_version response)) (PStr (rsp_suite response))
             (PStr (rsp_initiator response)) (PStr (rsp_responder response))
             (PBytes (rsp_initiator_ephemeral response)) (PBytes (rsp_responder_ephemeral response))
             (PBytes key_confirmation) (zeros 64)) (\<lambda>unsigned.
     bindE (bindE (confirmation_signature_payload unsigned offer response) (\<lambda>payload.
              identity_sign c identity (PBytes payload))) (\<lambda>signature.
     make_confirmation rt (PInt (cnf_version unsigned)) (PStr (cnf_suite unsigned))
       (PStr (cnf_initiator unsigned)) (PStr (cnf_responder unsigned))
       (PBytes (cnf_initiator_ephemeral unsigned)) (PBytes (cnf_responder_ephemeral unsigned))
       (PBytes (cnf_key_confirmation unsigned)) (PBytes signature)))"

definition initiator_result ::
    "crypto \<Rightarrow> runtime \<Rightarrow> InitiatorHandshake \<Rightarrow> bytes \<Rightarrow> HandshakeResponse \<Rightarrow>
       (HandshakeConfirmation \<times> SessionState) res" where
  "initiator_result c rt self private_key response =
     thenE (validate_for_offer response (ini_offer self))
    (thenE (raise_if (rsp_responder_signing response \<noteq> ini_remote_signing self)
             (Exn InvalidSignatureError (lit ''responder signing key does not match trust anchor'')))
    (thenE (bindE (response_signature_payload response (ini_offer self)) (\<lambda>payload.
             verify_signature c (PBytes payload) (PBytes (rsp_signature response))
               (PBytes (ini_remote_signing self))))
    (bindE (aead_suite (rsp_suite response)) (\<lambda>su.
     bindE (x25519_shared c private_key (rsp_responder_ephemeral response)) (\<lambda>shared_secret.
     bindE (handshake_transcript (ini_offer self) response) (\<lambda>transcript.
     let transcript_hash = sha256 transcript;
         root = derive_session_root c shared_secret transcript_hash (ini_supplemental self) in
     bindE (derive_key_confirmation root transcript_hash (lit ''responder'')) (\<lambda>expected.
     thenE (raise_if (rsp_key_confirmation response \<noteq> expected)
             (Exn KeyConfirmationError (lit ''responder key confirmation failed'')))
    (bindE (derive_key_confirmation root transcript_hash (lit ''initiator'')) (\<lambda>key_confirmation.
     bindE (signed_confirmation c rt (ini_identity self) (ini_offer self) response key_confirmation)
       (\<lambda>confirmation.
         Inr (confirmation,
              make_session (ofr_initiator (ini_offer self)) (ofr_responder (ini_offer self)) su root
                (ofr_initiator_ephemeral (ini_offer self)) (rsp_responder_ephemeral response))))))))))))"

definition initiator_complete ::
    "crypto \<Rightarrow> runtime \<Rightarrow> HandshakeResponse \<Rightarrow> InitiatorHandshake \<Rightarrow>
       (HandshakeConfirmation \<times> SessionState) res \<times> InitiatorHandshake" where
  "initiator_complete c rt response self =
     (case ini_ephemeral self of
        None \<Rightarrow>
          (Inl (Exn RuntimeError (lit ''initiator handshake has already been completed'')), self)
      | Some private_key \<Rightarrow>
          (case initiator_result c rt self private_key response of
             Inl e \<Rightarrow> (Inl e, self)
           | Inr r \<Rightarrow> (Inr r, self\<lparr>ini_ephemeral := None\<rparr>)))"

definition initiator_completed :: "InitiatorHandshake \<Rightarrow> bool" where
  "initiator_completed self \<longleftrightarrow> ini_ephemeral self = None"

section \<open>The responder\<close>

record ResponderHandshake =
  res_remote_signing :: bytes
  res_offer :: HandshakeOffer
  res_response :: HandshakeResponse
  res_suite :: AeadSuite
  res_root_key :: "bytes option"

definition responder_result ::
    "crypto \<Rightarrow> ResponderHandshake \<Rightarrow> bytes \<Rightarrow> HandshakeConfirmation \<Rightarrow> SessionState res" where
  "responder_result c self root confirmation =
     thenE (validate_for_response confirmation (res_response self))
    (thenE (bindE (confirmation_signature_payload confirmation (res_offer self) (res_response self))
             (\<lambda>payload.
               verify_signature c (PBytes payload) (PBytes (cnf_signature confirmation))
                 (PBytes (res_remote_signing self))))
    (bindE (handshake_transcript (res_offer self) (res_response self)) (\<lambda>transcript.
     bindE (derive_key_confirmation root (sha256 transcript) (lit ''initiator'')) (\<lambda>expected.
     thenE (raise_if (cnf_key_confirmation confirmation \<noteq> expected)
             (Exn KeyConfirmationError (lit ''initiator key confirmation failed'')))
     (Inr (make_session (ofr_responder (res_offer self)) (ofr_initiator (res_offer self))
             (res_suite self) root (rsp_responder_ephemeral (res_response self))
             (ofr_initiator_ephemeral (res_offer self))))))))"

definition responder_complete ::
    "crypto \<Rightarrow> HandshakeConfirmation \<Rightarrow> ResponderHandshake \<Rightarrow>
       SessionState res \<times> ResponderHandshake" where
  "responder_complete c confirmation self =
     (case res_root_key self of
        None \<Rightarrow>
          (Inl (Exn RuntimeError (lit ''responder handshake has already been completed'')), self)
      | Some root \<Rightarrow>
          (case responder_result c self root confirmation of
             Inl e \<Rightarrow> (Inl e, self)
           | Inr session \<Rightarrow> (Inr session, self\<lparr>res_root_key := None\<rparr>)))"

definition responder_completed :: "ResponderHandshake \<Rightarrow> bool" where
  "responder_completed self \<longleftrightarrow> res_root_key self = None"

section \<open>The factory\<close>

text \<open>The ephemeral private key that \<^verbatim>\<open>X25519PrivateKey.generate()\<close> draws is an argument.\<close>

definition factory_initiator ::
    "crypto \<Rightarrow> runtime \<Rightarrow> bytes \<Rightarrow> Identity \<Rightarrow> pyval \<Rightarrow> bytes \<Rightarrow> AeadSuite \<Rightarrow> bytes \<Rightarrow>
       InitiatorHandshake res" where
  "factory_initiator c rt ephemeral identity remote remote_signing su supplemental =
     (let ephemeral_public = PBytes (x_public c ephemeral);
          signing_public = PBytes (ed25519_public_bytes c identity);
          version = PInt PROTOCOL_VERSION;
          suite_name = PStr (suite_value su);
          name = PStr (id_name identity) in
      bindE (signature_payload_for rt version suite_name name remote ephemeral_public signing_public)
        (\<lambda>payload.
      bindE (bindE (identity_sign c identity (PBytes payload)) (\<lambda>signature.
               make_offer rt version suite_name name remote ephemeral_public signing_public
                 (PBytes signature))) (\<lambda>offer.
      Inr \<lparr>ini_identity = identity, ini_remote_signing = remote_signing, ini_offer = offer,
           ini_supplemental = supplemental, ini_ephemeral = Some ephemeral\<rparr>)))"

definition factory_responder ::
    "crypto \<Rightarrow> runtime \<Rightarrow> bytes \<Rightarrow> Identity \<Rightarrow> bytes \<Rightarrow> HandshakeOffer \<Rightarrow> bytes \<Rightarrow>
       (HandshakeResponse \<times> ResponderHandshake) res" where
  "factory_responder c rt ephemeral identity remote_signing offer supplemental =
     thenE (raise_if (id_name identity \<noteq> ofr_responder offer)
             (Exn ValueError (lit ''local identity does not match handshake responder'')))
    (thenE (raise_if (ofr_initiator_signing offer \<noteq> remote_signing)
             (Exn InvalidSignatureError (lit ''initiator signing key does not match trust anchor'')))
    (thenE (bindE (offer_signature_payload rt offer) (\<lambda>payload.
             verify_signature c (PBytes payload) (PBytes (ofr_signature offer))
               (PBytes remote_signing)))
    (bindE (aead_suite (ofr_suite offer)) (\<lambda>su.
     let ephemeral_public = PBytes (x_public c ephemeral);
         signing_public = PBytes (ed25519_public_bytes c identity) in
     bindE (x25519_shared c ephemeral (ofr_initiator_ephemeral offer)) (\<lambda>shared_secret.
     bindE (response_from_offer rt offer ephemeral_public signing_public (zeros 32) (zeros 64))
       (\<lambda>provisional.
     bindE (handshake_transcript offer provisional) (\<lambda>transcript.
     let transcript_hash = sha256 transcript;
         root = derive_session_root c shared_secret transcript_hash supplemental in
     bindE (derive_key_confirmation root transcript_hash (lit ''responder'')) (\<lambda>key_confirmation.
     bindE (response_from_offer rt offer ephemeral_public signing_public
             (PBytes key_confirmation) (zeros 64)) (\<lambda>unsigned.
     bindE (bindE (response_signature_payload unsigned offer) (\<lambda>payload.
              bindE (identity_sign c identity (PBytes payload)) (\<lambda>signature.
              response_from_offer rt offer ephemeral_public signing_public
                (PBytes key_confirmation) (PBytes signature)))) (\<lambda>response.
     Inr (response,
          \<lparr>res_remote_signing = remote_signing, res_offer = offer, res_response = response,
           res_suite = su, res_root_key = Some root\<rparr>)))))))))))"

text \<open>\<^verbatim>\<open>pair_for_tests\<close>: the whole handshake in one process.\<close>

definition pair_for_tests ::
    "crypto \<Rightarrow> runtime \<Rightarrow> bytes \<Rightarrow> bytes \<Rightarrow> Identity \<Rightarrow> Identity \<Rightarrow> AeadSuite \<Rightarrow> bytes \<Rightarrow>
       (SessionState \<times> SessionState) res" where
  "pair_for_tests c rt alice_ephemeral bob_ephemeral alice bob su supplemental =
     bindE (factory_initiator c rt alice_ephemeral alice (PStr (id_name bob))
             (ed25519_public_bytes c bob) su supplemental) (\<lambda>pending_alice.
     bindE (factory_responder c rt bob_ephemeral bob (ed25519_public_bytes c alice)
             (ini_offer pending_alice) supplemental) (\<lambda>(response, pending_bob).
     bindE (fst (initiator_complete c rt response pending_alice)) (\<lambda>(confirmation, alice_session).
     bindE (fst (responder_complete c confirmation pending_bob)) (\<lambda>bob_session.
     Inr (alice_session, bob_session)))))"

end
