(* ===== verification/Channel.thy ===== *)
theory Channel
  imports Session
begin

text \<open>
  The message channel of two sessions that a handshake made: what one encrypts the other
  decrypts, in any order of delivery that its replay window admits, and what the operations do
  when they fail.
\<close>

section \<open>Sessions that belong together\<close>

definition session_ok :: "runtime \<Rightarrow> SessionState \<Rightarrow> bool" where
  "session_ok rt s \<longleftrightarrow>
     name_ok rt (local_name s) \<and> name_ok rt (remote_name s) \<and> local_name s \<noteq> remote_name s \<and>
     length (local_ephemeral_public s) = 32 \<and> length (remote_ephemeral_public s) = 32"

definition mirrored :: "SessionState \<Rightarrow> SessionState \<Rightarrow> bool" where
  "mirrored a b \<longleftrightarrow>
     local_name a = remote_name b \<and> remote_name a = local_name b \<and> suite a = suite b \<and>
     root_key a = root_key b \<and> local_ephemeral_public a = remote_ephemeral_public b \<and>
     remote_ephemeral_public a = local_ephemeral_public b"

text \<open>AES-GCM-SIV has no encryption of the empty plaintext.\<close>

definition plaintext_ok :: "AeadSuite \<Rightarrow> bytes \<Rightarrow> bool" where
  "plaintext_ok su p \<longleftrightarrow> length p \<le> MAX_PLAINTEXT_BYTES \<and> (su = AES_GCM_SIV \<longrightarrow> p \<noteq> [])"

lemma suite_value_ok: "suite_name_ok (suite_value su)"
  by (cases su) (simp_all add: suite_name_ok_def MAX_SUITE_NAME_BYTES_def lit_def is_upper_def
      is_digit_def)

lemma aead_correct:
  assumes "ciphers_correct c" "length key = 32" "length nonce = 12" "plaintext_ok su p"
  shows "\<exists>ct. aead_encrypt c su key nonce p aad = Inr ct \<and> length ct = length p + 16 \<and>
    aead_decrypt c su key nonce ct aad = Inr p"
  using assms
  by (cases su) (auto simp: ciphers_correct_def cipher_correct_def plaintext_ok_def
      aead_encrypt_def aead_decrypt_def)

lemma traffic_info_total:
  assumes "length s = 32" "length r = 32"
  shows "\<exists>info. traffic_info (suite_value su) s r = Inr info"
proof -
  have "\<exists>b. utf8_encode (suite_value su) = Inr b \<and> length b \<le> 255"
    by (cases su) (auto simp: utf8_encode_def lit_def is_scalar_def is_surrogate_def utf8_char_def)
  with assms show ?thesis
    by (auto simp: traffic_info_def length_prefixed_def prefixed_def)
qed

lemma derive_message_key_total:
  assumes "lengths_ok c" "length s = 32" "length r = 32" "0 \<le> n" "n \<le> MAX_MESSAGE_SEQUENCE"
  shows "\<exists>key nonce. derive_message_key c root (PInt n) (suite_value su) s r = Inr (key, nonce) \<and>
    length key = 32 \<and> length nonce = 12"
proof -
  obtain info where "traffic_info (suite_value su) s r = Inr info"
    using traffic_info_total [OF assms(2,3)] by blast
  then have "\<exists>key nonce. derive_message_key c root (PInt n) (suite_value su) s r = Inr (key, nonce)"
    using assms(4,5) by (simp add: derive_message_key_def derive_directional_secret_def res_simps
        validate_message_sequence_def Let_def)
  then show ?thesis using derive_message_key_eq_Inr [OF assms(1)] by blast
qed

section \<open>One message\<close>

text \<open>The envelope of the message that a session sends at a sequence.\<close>

definition envelope_at :: "SessionState \<Rightarrow> bytes \<Rightarrow> MessageEnvelope" where
  "envelope_at a ct =
     make_envelope PROTOCOL_VERSION (suite_value (suite a)) (local_name a) (remote_name a)
       (send_sequence a) ct"

lemma session_metadata_ok:
  assumes "session_ok rt a" "0 \<le> send_sequence a" "send_sequence a \<le> MAX_MESSAGE_SEQUENCE"
  shows "metadata_ok rt PROTOCOL_VERSION (suite_value (suite a)) (local_name a) (remote_name a)
    (send_sequence a)"
  using assms by (simp add: metadata_ok_def session_ok_def suite_value_ok PROTOCOL_VERSION_def
      MAX_PROTOCOL_VERSION_def)

lemma encrypt_packet_works:
  assumes "crypto_correct c" "runtime_ok rt" "session_ok rt a"
    and "0 \<le> send_sequence a" "send_sequence a \<le> MAX_MESSAGE_SEQUENCE"
    and "plaintext_ok (suite a) p" "mirrored a b"
  shows "\<exists>packet ct. encrypt_packet c rt a p = Inr packet \<and>
    envelope_from_bytes rt (PBytes packet) = Inr (envelope_at a ct) \<and>
    check_envelope b (envelope_at a ct) = Inr () \<and> authenticate c rt b (envelope_at a ct) = Inr p"
proof -
  note ok = session_metadata_ok [OF assms(3-5)]
  have lens: "lengths_ok c" "ciphers_correct c"
    using assms(1) by (simp_all add: crypto_correct_def)
  have pubs: "length (local_ephemeral_public a) = 32" "length (remote_ephemeral_public a) = 32"
    using assms(3) by (simp_all add: session_ok_def)
  obtain key nonce where key: "derive_message_key c (root_key a) (PInt (send_sequence a))
      (suite_value (suite a)) (local_ephemeral_public a) (remote_ephemeral_public a) =
      Inr (key, nonce)" "length key = 32" "length nonce = 12"
    using derive_message_key_total [OF lens(1) pubs assms(4,5)] by blast
  define aad where "aad = map to_byte (flat_text True (assoc_items PROTOCOL_VERSION
    (suite_value (suite a)) (local_name a) (remote_name a) (send_sequence a)))"
  have aad: "associated_data rt (envelope_at a ct) = Inr aad" for ct
    using ok by (simp add: associated_data_eq_Inr [OF assms(2)] envelope_at_def make_envelope_def aad_def)
  obtain ct where ct: "aead_encrypt c (suite a) key nonce p aad = Inr ct"
    "length ct = length p + 16" "aead_decrypt c (suite a) key nonce ct aad = Inr p"
    using aead_correct [OF lens(2) key(2,3) assms(6)] by blast
  have ctok: "ciphertext_ok ct"
    using ct(2) assms(6) by (simp add: ciphertext_ok_def plaintext_ok_def AEAD_TAG_BYTES_def
        MAX_CIPHERTEXT_BYTES_def)
  let ?packet = "map to_byte (envelope_text PROTOCOL_VERSION (suite_value (suite a)) (local_name a)
    (remote_name a) (send_sequence a) ct)"
  have "encrypt_packet c rt a p = Inr ?packet"
    using assms(4,5) key(1) aad ct(1) envelope_to_bytes_make [OF ok ctok assms(2)]
    by (simp add: encrypt_packet_def validate_message_sequence_def envelope_at_def make_envelope_def
        Let_def)
  moreover have "envelope_from_bytes rt (PBytes ?packet) = Inr (envelope_at a ct)"
    unfolding envelope_at_def by (rule envelope_from_bytes_make [OF ok ctok assms(2)])
  moreover have "check_envelope b (envelope_at a ct) = Inr ()"
    using assms(7) by (simp add: check_envelope_def envelope_at_def make_envelope_def mirrored_def)
  moreover have "authenticate c rt b (envelope_at a ct) = Inr p"
    using assms(7) key(1) aad [of ct] ct(3)
    by (simp add: authenticate_def mirrored_def envelope_at_def make_envelope_def)
  ultimately show ?thesis by blast
qed

text \<open>What an encryption that succeeds has done.\<close>

lemma encrypt_packet_Inr:
  assumes "encrypt_packet c rt a p = Inr packet"
  shows "0 \<le> send_sequence a \<and> send_sequence a \<le> MAX_MESSAGE_SEQUENCE \<and>
    (\<exists>ct. envelope_to_bytes rt (envelope_at a ct) = Inr packet)"
  using assms
  by (auto simp: encrypt_packet_def res_simps Let_def envelope_at_def make_envelope_def
      split: prod.splits)

lemma encrypt_cases:
  obtains (failed) e where "encrypt c rt x a = (Inl e, a)"
  | (sent) p packet where "x = PBytes p" "length p \<le> MAX_PLAINTEXT_BYTES"
      "encrypt_packet c rt a p = Inr packet"
      "encrypt c rt x a = (Inr packet, a\<lparr>send_sequence := send_sequence a + 1\<rparr>)"
proof (cases x)
  case (PBytes p)
  then show thesis
    by (cases "length p > MAX_PLAINTEXT_BYTES"; cases "encrypt_packet c rt a p")
      (auto simp: encrypt_def intro: that)
qed (auto simp: encrypt_def intro: that)

section \<open>Receiving\<close>

text \<open>
  The attempt on the replay window that a blob makes at a receiver, when it passes the checks
  before the window.
\<close>

definition blob_attempt :: "crypto \<Rightarrow> runtime \<Rightarrow> SessionState \<Rightarrow> pyval \<Rightarrow> (exn + bytes attempt)" where
  "blob_attempt c rt b blob =
     bindE (envelope_from_bytes rt blob) (\<lambda>envelope.
     thenE (check_envelope b envelope)
     (Inr (env_sequence envelope, authenticate c rt b envelope)))"

lemma decrypt_attempt:
  "decrypt c rt blob b =
     (case blob_attempt c rt b blob of
        Inl e \<Rightarrow> (Inl e, b)
      | Inr a \<Rightarrow> (fst (attempt_step a (replay_window b)),
                  b\<lparr>replay_window := snd (attempt_step a (replay_window b))\<rparr>))"
  by (auto simp: decrypt_def blob_attempt_def attempt_step_def split: sum.splits prod.splits)
    (auto simp: res_simps)

lemma blob_attempt_window [simp]:
  "blob_attempt c rt (b\<lparr>replay_window := w\<rparr>) blob = blob_attempt c rt b blob"
  by (simp add: blob_attempt_def check_envelope_def authenticate_def)

text \<open>A receiver's history: the results of decrypting blobs one after another.\<close>

fun decrypt_all :: "crypto \<Rightarrow> runtime \<Rightarrow> pyval list \<Rightarrow> SessionState \<Rightarrow> bytes res list" where
  "decrypt_all c rt [] b = []"
| "decrypt_all c rt (x # xs) b =
     fst (decrypt c rt x b) # decrypt_all c rt xs (snd (decrypt c rt x b))"

text \<open>
  The sequence that a blob claims, for the blobs that parse.
\<close>

definition blob_sequence :: "runtime \<Rightarrow> pyval \<Rightarrow> int" where
  "blob_sequence rt blob =
     (case envelope_from_bytes rt blob of Inl e \<Rightarrow> 0 | Inr env \<Rightarrow> the_int (env_sequence env))"

definition accepted_sequences :: "runtime \<Rightarrow> pyval list \<Rightarrow> bytes res list \<Rightarrow> int list" where
  "accepted_sequences rt blobs rs =
     map (\<lambda>(x, r). blob_sequence rt x) (filter (\<lambda>(x, r). \<not> isl r) (zip blobs rs))"

lemma blob_attempt_sequence:
  "blob_attempt c rt b x = Inr a \<Longrightarrow> the_int (fst a) = blob_sequence rt x"
  by (auto simp: blob_attempt_def blob_sequence_def res_simps)

lemma decrypt_all_accepted:
  "\<exists>as :: bytes attempt list. accepted_sequences rt xs (decrypt_all c rt xs b) =
     accepted as (window_run (replay_window b) as)"
proof (induction xs arbitrary: b)
  case Nil
  show ?case by (rule exI [of _ "[]"]) (simp add: accepted_sequences_def accepted_def)
next
  case (Cons x xs)
  show ?case
  proof (cases "blob_attempt c rt b x")
    case (Inl e)
    with Cons [of b] show ?thesis
      by (simp add: decrypt_attempt accepted_sequences_def)
  next
    case (Inr a)
    let ?w = "snd (attempt_step a (replay_window b))"
    have "\<exists>as :: bytes attempt list. accepted_sequences rt xs (decrypt_all c rt xs (b\<lparr>replay_window := ?w\<rparr>)) =
        accepted as (window_run ?w as)"
      using Cons [of "b\<lparr>replay_window := ?w\<rparr>"] by simp
    then obtain as :: "bytes attempt list" where "accepted_sequences rt xs
        (decrypt_all c rt xs (b\<lparr>replay_window := ?w\<rparr>)) = accepted as (window_run ?w as)" ..
    then have "accepted_sequences rt (x # xs) (decrypt_all c rt (x # xs) b) =
        accepted (a # as) (window_run (replay_window b) (a # as))"
      using Inr blob_attempt_sequence [OF Inr]
      by (simp add: decrypt_attempt accepted_sequences_def accepted_def)
    then show ?thesis by blast
  qed
qed

section \<open>A conversation\<close>

text \<open>A sender's history: the packets of the plaintexts that were encrypted.\<close>

fun encrypt_all :: "crypto \<Rightarrow> runtime \<Rightarrow> pyval list \<Rightarrow> SessionState \<Rightarrow> bytes res list \<times> SessionState" where
  "encrypt_all c rt [] a = ([], a)"
| "encrypt_all c rt (x # xs) a =
     (fst (encrypt c rt x a) # fst (encrypt_all c rt xs (snd (encrypt c rt x a))),
      snd (encrypt_all c rt xs (snd (encrypt c rt x a))))"

text \<open>The packets that were produced, failures left out.\<close>

definition packets :: "bytes res list \<Rightarrow> bytes list" where
  "packets rs = map projr (filter (\<lambda>r. \<not> isl r) rs)"

lemma encrypt_all_sequences:
  assumes "runtime_ok rt"
  shows "map (\<lambda>p. blob_sequence rt (PBytes p)) (packets (fst (encrypt_all c rt xs a))) =
      map (\<lambda>i. send_sequence a + int i) [0..<length (packets (fst (encrypt_all c rt xs a)))]
    \<and> send_sequence (snd (encrypt_all c rt xs a)) =
      send_sequence a + int (length (packets (fst (encrypt_all c rt xs a))))
    \<and> (packets (fst (encrypt_all c rt xs a)) \<noteq> [] \<longrightarrow>
         0 \<le> send_sequence a \<and>
         send_sequence (snd (encrypt_all c rt xs a)) \<le> MAX_MESSAGE_SEQUENCE + 1)"
proof (induction xs arbitrary: a)
  case Nil
  show ?case by (simp add: packets_def)
next
  case (Cons x xs)
  show ?case
  proof (rule encrypt_cases [of c rt x a])
    fix e
    assume "encrypt c rt x a = (Inl e, a)"
    with Cons [of a] show ?thesis by (auto simp: packets_def)
  next
    fix p packet
    assume sent: "x = PBytes p" "length p \<le> MAX_PLAINTEXT_BYTES" "encrypt_packet c rt a p = Inr packet"
      "encrypt c rt x a = (Inr packet, a\<lparr>send_sequence := send_sequence a + 1\<rparr>)"
    let ?a = "a\<lparr>send_sequence := send_sequence a + 1\<rparr>"
    obtain rs a' where rec: "encrypt_all c rt xs ?a = (rs, a')" by fastforce
    obtain ct where range: "0 \<le> send_sequence a" "send_sequence a \<le> MAX_MESSAGE_SEQUENCE"
      and "envelope_to_bytes rt (envelope_at a ct) = Inr packet"
      using encrypt_packet_Inr [OF sent(3)] by blast
    then have "envelope_from_bytes rt (PBytes packet) = Inr (envelope_at a ct)"
      using envelope_to_bytes_valid envelope_from_bytes_make [OF _ _ assms]
        envelope_to_bytes_make [OF _ _ assms]
      unfolding envelope_at_def by fastforce
    then have seq: "blob_sequence rt (PBytes packet) = send_sequence a"
      by (simp add: blob_sequence_def envelope_at_def make_envelope_def)
    have all: "packets (fst (encrypt_all c rt (x # xs) a)) = packet # packets rs"
      "snd (encrypt_all c rt (x # xs) a) = a'"
      using sent(4) rec by (simp_all add: packets_def)
    have IH: "map (\<lambda>p. blob_sequence rt (PBytes p)) (packets rs) =
        map (\<lambda>i. send_sequence a + 1 + int i) [0..<length (packets rs)]"
      "send_sequence a' = send_sequence a + 1 + int (length (packets rs))"
      "packets rs \<noteq> [] \<longrightarrow> send_sequence a' \<le> MAX_MESSAGE_SEQUENCE + 1"
      using Cons [of ?a] rec by auto
    have "map (\<lambda>i. send_sequence a + int i) [0..<Suc n] =
        send_sequence a # map (\<lambda>i. send_sequence a + 1 + int i) [0..<n]" for n
      by (subst upt_conv_Cons) (simp_all add: map_Suc_upt [symmetric] comp_def del: upt_Suc)
    then show ?thesis
      using IH seq range unfolding all by (cases "packets rs = []") (simp_all del: upt_Suc)
  qed
qed

text \<open>Genuine packets: what the peer makes of them is what the specification of the window says.\<close>

lemma decrypt_genuine:
  assumes "envelope_from_bytes rt (PBytes packet) = Inr e" "check_envelope b e = Inr ()"
    and "authenticate c rt b e = Inr p"
  shows "blob_attempt c rt b (PBytes packet) = Inr (env_sequence e, Inr p)"
  using assms by (simp add: blob_attempt_def)

lemma decrypt_all_attempts:
  assumes "list_all2 (\<lambda>x a. blob_attempt c rt b x = Inr a) xs as"
  shows "decrypt_all c rt xs b = window_run (replay_window b) as"
proof -
  have "decrypt_all c rt xs (b\<lparr>replay_window := w\<rparr>) = window_run w as" for w
    using assms
  proof (induction xs as arbitrary: w rule: list_all2_induct)
    case (Cons x xs a as)
    from Cons.hyps(1) Cons.IH [of "snd (attempt_step a w)"] show ?case
      by (simp add: decrypt_attempt)
  qed simp
  from this [of "replay_window b"] show ?thesis by simp
qed

text \<open>The attempts that the packets of a list of plaintexts make, the first at sequence \<open>n\<close>.\<close>

fun attempts_from :: "int \<Rightarrow> bytes list \<Rightarrow> bytes attempt list" where
  "attempts_from n [] = []"
| "attempts_from n (p # ps) = (PInt n, Inr p) # attempts_from (n + 1) ps"

lemma length_attempts_from [simp]: "length (attempts_from n ps) = length ps"
  by (induction ps arbitrary: n) simp_all

lemma nth_attempts_from:
  "i < length ps \<Longrightarrow> attempts_from n ps ! i = (PInt (n + int i), Inr (ps ! i))"
  by (induction ps arbitrary: n i) (auto simp: nth_Cons split: nat.splits)

lemma blob_attempt_sender [simp]:
  "mirrored (a\<lparr>send_sequence := n\<rparr>) b = mirrored a b"
  "session_ok rt (a\<lparr>send_sequence := n\<rparr>) = session_ok rt a"
  by (simp_all add: mirrored_def session_ok_def)

lemma encrypt_all_works:
  assumes "crypto_correct c" "runtime_ok rt" "session_ok rt a" "mirrored a b"
    and "0 \<le> send_sequence a" "send_sequence a + int (length ps) \<le> MAX_MESSAGE_SEQUENCE + 1"
    and "list_all (plaintext_ok (suite a)) ps"
  shows "\<exists>pks. fst (encrypt_all c rt (map PBytes ps) a) = map Inr pks \<and>
    list_all2 (\<lambda>x t. blob_attempt c rt b x = Inr t) (map PBytes pks)
      (attempts_from (send_sequence a) ps)"
  using assms(3-7)
proof (induction ps arbitrary: a)
  case (Cons p ps)
  let ?a = "a\<lparr>send_sequence := send_sequence a + 1\<rparr>"
  obtain packet ct where sent: "encrypt_packet c rt a p = Inr packet"
    "envelope_from_bytes rt (PBytes packet) = Inr (envelope_at a ct)"
    "check_envelope b (envelope_at a ct) = Inr ()" "authenticate c rt b (envelope_at a ct) = Inr p"
    using encrypt_packet_works [OF assms(1,2) Cons.prems(1,3), of p b] Cons.prems by auto
  then have enc: "encrypt c rt (PBytes p) a = (Inr packet, ?a)"
    using Cons.prems(5) by (simp add: encrypt_def plaintext_ok_def)
  have att: "blob_attempt c rt b (PBytes packet) = Inr (PInt (send_sequence a), Inr p)"
    using decrypt_genuine [OF sent(2-4)] by (simp add: envelope_at_def make_envelope_def)
  obtain pks where "fst (encrypt_all c rt (map PBytes ps) ?a) = map Inr pks"
    "list_all2 (\<lambda>x t. blob_attempt c rt b x = Inr t) (map PBytes pks)
      (attempts_from (send_sequence a + 1) ps)"
    using Cons.IH [of ?a] Cons.prems by auto
  with enc att show ?case
    by (intro exI [of _ "packet # pks"]) simp
qed simp

lemma spec_run_in_order:
  assumes "0 \<le> n" "n + int (length ps) \<le> MAX_MESSAGE_SEQUENCE + 1" "list_all (\<lambda>m. m < n) acc" "0 < k"
  shows "spec_run k acc (attempts_from n ps) = map Inr ps"
  using assms
proof (induction ps arbitrary: n acc)
  case (Cons p ps)
  have "spec_check k acc (PInt n) = Inr ()"
    using Cons.prems by (auto simp: spec_check_def validate_message_sequence_def Let_def
        list_ex_iff list_all_iff)
  moreover have "list_all (\<lambda>m. m < n + 1) (n # acc)"
    using Cons.prems(3) by (auto simp: list_all_iff)
  ultimately show ?case using Cons.IH [of "n + 1" "n # acc"] Cons.prems by simp
qed simp

lemma default_window_new: "new_window (PInt 1024) = Inr default_window"
  by (simp add: new_window_def default_window_def)

lemma in_order_run:
  assumes "crypto_correct c" "runtime_ok rt" "session_ok rt a" "mirrored a b"
    and "send_sequence a = 0" "replay_window b = default_window"
    and "int (length ps) \<le> MAX_MESSAGE_SEQUENCE + 1" "list_all (plaintext_ok (suite a)) ps"
  shows "\<exists>pks. fst (encrypt_all c rt (map PBytes ps) a) = map Inr pks \<and>
    decrypt_all c rt (map PBytes pks) b = map Inr ps"
proof -
  obtain pks where enc: "fst (encrypt_all c rt (map PBytes ps) a) = map Inr pks"
    and att: "list_all2 (\<lambda>x t. blob_attempt c rt b x = Inr t) (map PBytes pks) (attempts_from 0 ps)"
    using encrypt_all_works [OF assms(1-4), of ps] assms(5,7,8) by auto
  have "decrypt_all c rt (map PBytes pks) b = spec_run 1024 [] (attempts_from 0 ps)"
    using decrypt_all_attempts [OF att] window_run_sim [OF new_window_sim [OF default_window_new]]
      assms(6) by simp
  also have "\<dots> = map Inr ps"
    using assms(7) by (intro spec_run_in_order) simp_all
  finally show ?thesis using enc by blast
qed

section \<open>Properties\<close>

definition sample_session :: "SessionState" where
  "sample_session =
     make_session (lit ''alice'') (lit ''bob'') AES_GCM_SIV (replicate 32 7) (replicate 32 1)
       (replicate 32 2)"

definition sample_peer :: "SessionState" where
  "sample_peer =
     make_session (lit ''bob'') (lit ''alice'') AES_GCM_SIV (replicate 32 7) (replicate 32 2)
       (replicate 32 1)"

lemma sample_sessions:
  "session_ok rt sample_session" "mirrored sample_session sample_peer"
  "send_sequence sample_session = 0" "replay_window sample_peer = default_window"
  "suite sample_session = AES_GCM_SIV"
  by (simp_all add: session_ok_def mirrored_def sample_session_def sample_peer_def make_session_def
      name_ok_plain MAX_PARTICIPANT_NAME_BYTES_def lit_def)

text \<open>
  C8. The channel refines the replay specification: whatever plaintexts are sent from a fresh
  session, and whichever of the packets are delivered to the peer, in any order and any number
  of times, every delivery is answered as the window over all accepted sequences says: with the
  plaintext of the packet, or with the replay error.
\<close>

theorem channel_refines_window:
  assumes "crypto_correct c" "runtime_ok rt" "session_ok rt a" "mirrored a b"
    and "send_sequence a = 0" "replay_window b = default_window"
    and "int (length ps) \<le> MAX_MESSAGE_SEQUENCE + 1" "list_all (plaintext_ok (suite a)) ps"
    and "list_all (\<lambda>i. i < length ps) order"
  shows "\<exists>pks. fst (encrypt_all c rt (map PBytes ps) a) = map Inr pks \<and> length pks = length ps \<and>
    decrypt_all c rt (map (\<lambda>i. PBytes (pks ! i)) order) b =
      spec_run 1024 [] (map (\<lambda>i. (PInt (int i), Inr (ps ! i))) order)"
proof -
  obtain pks where enc: "fst (encrypt_all c rt (map PBytes ps) a) = map Inr pks"
    and att: "list_all2 (\<lambda>x t. blob_attempt c rt b x = Inr t) (map PBytes pks) (attempts_from 0 ps)"
    using encrypt_all_works [OF assms(1-4), of ps] assms(5,7,8) by auto
  have len: "length pks = length ps" using att list_all2_lengthD by fastforce
  have "blob_attempt c rt b (PBytes (pks ! i)) = Inr (PInt (int i), Inr (ps ! i))"
    if "i < length ps" for i
    using list_all2_nthD [OF att, of i] that len by (simp add: nth_attempts_from)
  then have "list_all2 (\<lambda>x t. blob_attempt c rt b x = Inr t) (map (\<lambda>i. PBytes (pks ! i)) order)
      (map (\<lambda>i. (PInt (int i), Inr (ps ! i))) order)"
    using assms(9) by (induction order) simp_all
  from decrypt_all_attempts [OF this] have "decrypt_all c rt (map (\<lambda>i. PBytes (pks ! i)) order) b =
      spec_run 1024 [] (map (\<lambda>i. (PInt (int i), Inr (ps ! i))) order)"
    using window_run_sim [OF new_window_sim [OF default_window_new]] assms(6) by simp
  with enc len show ?thesis by blast
qed

theorem channel_refines_window_witness:
  "\<exists>pks. fst (encrypt_all toy_crypto sample_runtime [PBytes [1], PBytes [2]] sample_session) = map Inr pks \<and>
    decrypt_all toy_crypto sample_runtime [PBytes (pks ! 1), PBytes (pks ! 0), PBytes (pks ! 1)] sample_peer =
      [Inr [2], Inr [1], Inl (Exn ReplayDetectedError (lit ''replayed sequence number: '' @ dec_int 1))]"
proof -
  have spec: "spec_run 1024 [] [(PInt 1, Inr [2]), (PInt 0, Inr [1]), (PInt 1, Inr [2 :: byte])] =
      [Inr [2], Inr [1], Inl (Exn ReplayDetectedError (lit ''replayed sequence number: '' @ dec_int 1))]"
    by (simp add: spec_check_def validate_message_sequence_def MAX_MESSAGE_SEQUENCE_def Let_def)
  obtain pks where
    "fst (encrypt_all toy_crypto sample_runtime (map PBytes [[1], [2]]) sample_session) = map Inr pks"
    "decrypt_all toy_crypto sample_runtime (map (\<lambda>i. PBytes (pks ! i)) [1, 0, 1]) sample_peer =
      spec_run 1024 [] (map (\<lambda>i. (PInt (int i), Inr ([[1], [2]] ! i))) [1, 0, 1])"
    using channel_refines_window [OF toy_crypto_correct sample_runtime_ok sample_sessions(1-4),
        of "[[1], [2]]" "[1, 0, 1]"]
    by (auto simp: plaintext_ok_def protocol_constants sample_sessions(5) simp del: encrypt_all.simps
        decrypt_all.simps spec_run.simps)
  then show ?thesis
    using spec by (intro exI [of _ pks]) (simp del: encrypt_all.simps decrypt_all.simps spec_run.simps)
qed

text \<open>
  C9. An in-order conversation is delivered completely: up to 2 to the 64 plaintexts sent from
  a fresh session come out of the peer unchanged and in order.
\<close>

theorem channel_in_order:
  assumes "crypto_correct c" "runtime_ok rt" "session_ok rt a" "mirrored a b"
    and "send_sequence a = 0" "replay_window b = default_window"
    and "int (length ps) \<le> MAX_MESSAGE_SEQUENCE + 1" "list_all (plaintext_ok (suite a)) ps"
  shows "\<exists>pks. fst (encrypt_all c rt (map PBytes ps) a) = map Inr pks \<and>
    decrypt_all c rt (map PBytes pks) b = map Inr ps"
  using assms by (rule in_order_run)

theorem channel_in_order_witness:
  "\<exists>pks. fst (encrypt_all toy_crypto sample_runtime [PBytes [1], PBytes [2], PBytes [1]] sample_session) =
      map Inr pks \<and>
    decrypt_all toy_crypto sample_runtime (map PBytes pks) sample_peer = [Inr [1], Inr [2], Inr [1]]"
  using channel_in_order [OF toy_crypto_correct sample_runtime_ok sample_sessions(1-4), of "[[1], [2], [1]]"]
  by (simp add: plaintext_ok_def protocol_constants sample_sessions(5))

text \<open>
  C10. No replay is ever accepted: whatever an adversary delivers to a session, in any order,
  the messages that \<^verbatim>\<open>decrypt\<close> returns have distinct sequence numbers.
\<close>

theorem decrypt_never_replays:
  "distinct (accepted_sequences rt blobs (decrypt_all c rt blobs b))"
proof -
  obtain as :: "bytes attempt list" where
    eq: "accepted_sequences rt blobs (decrypt_all c rt blobs b) =
      accepted as (window_run (replay_window b) as)"
    using decrypt_all_accepted by blast
  obtain ns where "accepted as (window_run (replay_window b) as) = window.admitted (replay_window b) ns"
    using accepted_admitted by blast
  with eq show ?thesis by (simp add: window.admitted_once)
qed

text \<open>
  The packets that a session sends, whatever it is asked to encrypt and however often that
  fails, carry consecutive sequence numbers from its counter on: none is reused and none is
  skipped, and the counter stops at 2 to the 64.
\<close>

theorem sent_sequences_consecutive:
  assumes "runtime_ok rt"
  shows "map (\<lambda>p. blob_sequence rt (PBytes p)) (packets (fst (encrypt_all c rt xs a))) =
      map (\<lambda>i. send_sequence a + int i) [0..<length (packets (fst (encrypt_all c rt xs a)))] \<and>
    (packets (fst (encrypt_all c rt xs a)) \<noteq> [] \<longrightarrow>
       send_sequence (snd (encrypt_all c rt xs a)) \<le> MAX_MESSAGE_SEQUENCE + 1)"
  using encrypt_all_sequences [OF assms, of c xs a] by blast

theorem sent_sequences_consecutive_witness:
  "\<exists>p0 p1. packets (fst (encrypt_all toy_crypto sample_runtime [PBytes [1], PNone, PBytes [2]] sample_session)) =
      [p0, p1] \<and>
    blob_sequence sample_runtime (PBytes p0) = 0 \<and> blob_sequence sample_runtime (PBytes p1) = 1"
proof -
  let ?b = "sample_session\<lparr>send_sequence := 1\<rparr>"
  have ok: "plaintext_ok (suite sample_session) [x]" for x
    by (simp add: plaintext_ok_def protocol_constants)
  obtain p0 where "encrypt_packet toy_crypto sample_runtime sample_session [1] = Inr p0"
    using encrypt_packet_works [OF toy_crypto_correct sample_runtime_ok sample_sessions(1) _ _ ok sample_sessions(2)]
    by (auto simp: sample_sessions MAX_MESSAGE_SEQUENCE_def)
  moreover obtain p1 where "encrypt_packet toy_crypto sample_runtime ?b [2] = Inr p1"
    using encrypt_packet_works [OF toy_crypto_correct sample_runtime_ok, of ?b "[2]" sample_peer] ok
    by (auto simp: sample_sessions MAX_MESSAGE_SEQUENCE_def)
  ultimately have "packets (fst (encrypt_all toy_crypto sample_runtime
      [PBytes [1], PNone, PBytes [2]] sample_session)) = [p0, p1]"
    by (simp add: encrypt_def packets_def sample_sessions MAX_PLAINTEXT_BYTES_def)
  with sent_sequences_consecutive [OF sample_runtime_ok, of toy_crypto "[PBytes [1], PNone, PBytes [2]]" sample_session]
  show ?thesis by (simp add: sample_sessions)
qed

text \<open>
  C23. A failed operation changes nothing: an \<^verbatim>\<open>encrypt\<close> that raises leaves the session as it
  was, and so does a \<^verbatim>\<open>decrypt\<close> that raises, so that a forged or misdirected packet uses up no
  sequence; and \<^verbatim>\<open>decrypt\<close> never touches anything but the window.
\<close>

theorem failed_operations_harmless:
  "(isl (fst (encrypt c rt x a)) \<longrightarrow> snd (encrypt c rt x a) = a) \<and>
   (isl (fst (decrypt c rt x b)) \<longrightarrow> snd (decrypt c rt x b) = b) \<and>
   (\<exists>w. snd (decrypt c rt x b) = b\<lparr>replay_window := w\<rparr>)"
proof (intro conjI)
  show "isl (fst (encrypt c rt x a)) \<longrightarrow> snd (encrypt c rt x a) = a"
    by (rule encrypt_cases [of c rt x a]) auto
  show "isl (fst (decrypt c rt x b)) \<longrightarrow> snd (decrypt c rt x b) = b"
    by (auto simp: decrypt_attempt attempt_step_cases split: sum.splits)
  have "snd (decrypt c rt x b) = b\<lparr>replay_window := replay_window (snd (decrypt c rt x b))\<rparr>"
    by (cases "blob_attempt c rt b x") (simp_all add: decrypt_attempt)
  then show "\<exists>w. snd (decrypt c rt x b) = b\<lparr>replay_window := w\<rparr>" ..
qed

theorem failed_operations_harmless_witness:
  "snd (encrypt toy_crypto sample_runtime PNone sample_session) = sample_session \<and>
   snd (decrypt toy_crypto sample_runtime (PBytes []) sample_peer) = sample_peer"
  using failed_operations_harmless [where c = toy_crypto and rt = sample_runtime and x = PNone
      and a = sample_session]
    failed_operations_harmless [where c = toy_crypto and rt = sample_runtime and x = "PBytes []"
      and b = sample_peer]
  by (auto simp: encrypt_def decrypt_def envelope_from_bytes_def)

text \<open>
  At the end of the sequence space encryption refuses with \<open>OverflowError\<close> and leaves the
  counter alone: it never wraps around to a used key.
\<close>

theorem encrypt_exhausted:
  assumes "MAX_MESSAGE_SEQUENCE < send_sequence a" "length p \<le> MAX_PLAINTEXT_BYTES"
  shows "encrypt c rt (PBytes p) a =
    (Inl (Exn OverflowError (lit ''message sequence exhausted'')), a)"
  using assms by (simp add: encrypt_def encrypt_packet_def)

theorem encrypt_exhausted_witness:
  "encrypt toy_crypto sample_runtime (PBytes [1]) (sample_session\<lparr>send_sequence := 2 ^ 64\<rparr>) =
    (Inl (Exn OverflowError (lit ''message sequence exhausted'')),
     sample_session\<lparr>send_sequence := 2 ^ 64\<rparr>)"
  by (rule encrypt_exhausted) (simp_all add: MAX_MESSAGE_SEQUENCE_def MAX_PLAINTEXT_BYTES_def)

end
