(* ===== verification/Agreement.thy ===== *)
theory Agreement
  imports Channel
begin

text \<open>
  The handshake of \<^verbatim>\<open>session.py\<close> as a protocol: an honest run ends with two sessions that
  belong together, and what each side knows of the other when it completes.
\<close>

section \<open>Steps that succeed\<close>

lemma derive_key_confirmation_total:
  assumes "role = lit ''initiator'' \<or> role = lit ''responder''"
  shows "\<exists>k. derive_key_confirmation root h role = Inr k \<and> length k = 32"
proof -
  have "ascii_encode role = Inr (map to_byte role)"
    using assms by (auto simp: ascii_encode_def lit_def)
  with assms show ?thesis by (auto simp: derive_key_confirmation_def confirmation_payload_def)
qed

lemma aead_suite_value [simp]: "aead_suite (suite_value su) = Inr su"
  by (cases su) (simp_all add: aead_suite_def)

lemma suite_value_supported: "suite_value su \<in> set SUPPORTED_HANDSHAKE_SUITES"
  by (cases su) (simp_all add: SUPPORTED_HANDSHAKE_SUITES_def)

lemma suite_supported: "s \<in> set SUPPORTED_HANDSHAKE_SUITES \<Longrightarrow> \<exists>su. s = suite_value su"
  by (metis SUPPORTED_HANDSHAKE_SUITES_def empty_iff insert_iff list.set suite_value.simps)

text \<open>The transcript and the payloads do not depend on the signature that is still missing.\<close>

lemma transcript_unsigned [simp]:
  "handshake_transcript q (m\<lparr>rsp_signature := s\<rparr>) = handshake_transcript q m"
  "handshake_transcript q (m\<lparr>rsp_key_confirmation := k\<rparr>) = handshake_transcript q m"
  by (simp_all add: handshake_transcript_def validate_for_offer_def)

lemma payload_unsigned [simp]:
  "response_signature_payload (m\<lparr>rsp_signature := s\<rparr>) q = response_signature_payload m q"
  "confirmation_signature_payload (k\<lparr>cnf_signature := s\<rparr>) q m = confirmation_signature_payload k q m"
  "offer_signature_payload rt (q\<lparr>ofr_signature := s\<rparr>) = offer_signature_payload rt q"
  by (simp_all add: response_signature_payload_def confirmation_signature_payload_def
      offer_signature_payload_def validate_for_response_def)

text \<open>The response that a responder with the given keys makes of an offer.\<close>

definition response_of ::
    "HandshakeOffer \<Rightarrow> bytes \<Rightarrow> bytes \<Rightarrow> bytes \<Rightarrow> bytes \<Rightarrow> HandshakeResponse" where
  "response_of q ephemeral signing key_confirmation signature =
     \<lparr>rsp_version = ofr_version q, rsp_suite = ofr_suite q, rsp_initiator = ofr_initiator q,
      rsp_responder = ofr_responder q, rsp_initiator_ephemeral = ofr_initiator_ephemeral q,
      rsp_initiator_signing = ofr_initiator_signing q, rsp_responder_ephemeral = ephemeral,
      rsp_responder_signing = signing, rsp_key_confirmation = key_confirmation,
      rsp_signature = signature\<rparr>"

lemma response_from_offer_eq_Inr:
  "response_from_offer rt q (PBytes e) (PBytes sk) (PBytes k) (PBytes s) = Inr m \<longleftrightarrow>
     m = response_of q e sk k s \<and> response_valid rt m"
  by (cases m) (auto simp: response_from_offer_def make_response_eq_Inr response_of_def)

lemma response_of_valid:
  assumes "offer_valid rt q" "length e = 32" "length sk = 32" "length k = 32" "length s = 64"
    and "e \<noteq> ofr_initiator_ephemeral q"
  shows "response_valid rt (response_of q e sk k s)"
  using assms by (simp add: response_valid_def offer_valid_def response_of_def)

lemma response_of_matches [simp]: "validate_for_offer (response_of q e sk k s) q = Inr ()"
  by (simp add: validate_for_offer_eq_Inr response_of_def)

lemma response_of_fields [simp]:
  "rsp_responder_ephemeral (response_of q e sk k s) = e"
  "rsp_responder_signing (response_of q e sk k s) = sk"
  "rsp_key_confirmation (response_of q e sk k s) = k"
  "rsp_signature (response_of q e sk k s) = s"
  by (simp_all add: response_of_def)

lemma response_of_update:
  "response_of q e sk k s = (response_of q e sk k s')\<lparr>rsp_signature := s\<rparr>"
  "response_of q e sk k s = (response_of q e sk k' s')\<lparr>rsp_key_confirmation := k, rsp_signature := s\<rparr>"
  by (simp_all add: response_of_def)

section \<open>The three messages of an honest run\<close>

lemma factory_initiator_works:
  assumes "lengths_ok c" "name_ok rt (id_name i)" "name_ok rt remote" "id_name i \<noteq> remote"
  shows "\<exists>q p. factory_initiator c rt e i (PStr remote) rs su supp =
      Inr \<lparr>ini_identity = i, ini_remote_signing = rs, ini_offer = q, ini_supplemental = supp,
           ini_ephemeral = Some e\<rparr> \<and>
    offer_valid rt q \<and> ofr_suite q = suite_value su \<and> ofr_initiator q = id_name i \<and>
    ofr_responder q = remote \<and> ofr_initiator_ephemeral q = x_public c e \<and>
    ofr_initiator_signing q = ed25519_public_bytes c i \<and> offer_signature_payload rt q = Inr p \<and>
    ofr_signature q = ed_sign c (id_signing_private i) p"
proof -
  have lens: "length (x_public c e) = 32" "length (ed25519_public_bytes c i) = 32"
    "\<And>d. length (ed_sign c (id_signing_private i) d) = 64"
    using assms(1) by (simp_all add: lengths_ok_def ed25519_public_bytes_def)
  have ok: "common_ok rt PROTOCOL_VERSION (suite_value su) (id_name i) remote"
    using assms(2-4) by (simp add: common_ok_def suite_value_supported)
  define q where "q s = \<lparr>ofr_version = PROTOCOL_VERSION, ofr_suite = suite_value su,
    ofr_initiator = id_name i, ofr_responder = remote, ofr_initiator_ephemeral = x_public c e,
    ofr_initiator_signing = ed25519_public_bytes c i, ofr_signature = s\<rparr>" for s
  obtain p where p: "handshake_context PROTOCOL_VERSION (suite_value su) (id_name i) remote
      (x_public c e) (ed25519_public_bytes c i) = Inr p"
    using handshake_context_total [OF ok lens(1,2)] by blast
  have pay: "signature_payload_for rt (PInt PROTOCOL_VERSION) (PStr (suite_value su))
      (PStr (id_name i)) (PStr remote) (PBytes (x_public c e)) (PBytes (ed25519_public_bytes c i)) =
      Inr p"
    using ok lens p by (simp add: signature_payload_for_def thenE_eq_Inr validate_offer_fields_eq_Inr)
  let ?s = "ed_sign c (id_signing_private i) p"
  have valid: "offer_valid rt (q ?s)"
    using ok lens by (simp add: offer_valid_def q_def)
  then have make: "make_offer rt (PInt PROTOCOL_VERSION) (PStr (suite_value su)) (PStr (id_name i))
      (PStr remote) (PBytes (x_public c e)) (PBytes (ed25519_public_bytes c i)) (PBytes ?s) =
      Inr (q ?s)"
    by (simp add: make_offer_eq_Inr q_def)
  have "offer_signature_payload rt (q ?s) = Inr p"
    using pay by (simp add: offer_signature_payload_def q_def)
  with valid show ?thesis
    by (intro exI [of _ "q ?s"] exI [of _ p])
      (simp add: factory_initiator_def pay make identity_sign_def, simp add: q_def)
qed

lemma factory_responder_works:
  assumes "lengths_ok c" "offer_valid rt q" "id_name i = ofr_responder q"
    and "ofr_initiator_signing q = rs" "offer_signature_payload rt q = Inr p"
    and "ed_public_ok c rs" "ed_verifies c rs (ofr_signature q) p" "ofr_suite q = suite_value su"
    and "x25519_shared c e (ofr_initiator_ephemeral q) = Inr shared"
    and "x_public c e \<noteq> ofr_initiator_ephemeral q"
  shows "\<exists>m t root pay.
    factory_responder c rt e i rs q supp =
      Inr (m, \<lparr>res_remote_signing = rs, res_offer = q, res_response = m, res_suite = su,
               res_root_key = Some root\<rparr>) \<and>
    response_valid rt m \<and> validate_for_offer m q = Inr () \<and>
    rsp_responder_ephemeral m = x_public c e \<and>
    rsp_responder_signing m = ed25519_public_bytes c i \<and>
    handshake_transcript q m = Inr t \<and> root = derive_session_root c shared (sha256 t) supp \<and>
    derive_key_confirmation root (sha256 t) (lit ''responder'') = Inr (rsp_key_confirmation m) \<and>
    response_signature_payload m q = Inr pay \<and> rsp_signature m = ed_sign c (id_signing_private i) pay"
proof -
  let ?E = "x_public c e" and ?S = "ed25519_public_bytes c i"
  have lens: "length ?E = 32" "length ?S = 32" "\<And>d. length (ed_sign c (id_signing_private i) d) = 64"
    using assms(1) by (simp_all add: lengths_ok_def ed25519_public_bytes_def)
  let ?z = "replicate 32 0" and ?y = "replicate 64 0"
  have valid: "response_valid rt (response_of q ?E ?S k s)" if "length k = 32" "length s = 64" for k s
    using response_of_valid [OF assms(2) lens(1,2) that assms(10)] .
  then have make: "response_from_offer rt q (PBytes ?E) (PBytes ?S) (PBytes k) (PBytes s) =
      Inr (response_of q ?E ?S k s)" if "length k = 32" "length s = 64" for k s
    using that by (simp add: response_from_offer_eq_Inr)
  obtain t where t: "handshake_transcript q (response_of q ?E ?S ?z ?y) = Inr t"
    using handshake_transcript_total [OF assms(2) valid response_of_matches] by force
  define root where "root = derive_session_root c shared (sha256 t) supp"
  obtain k where k: "derive_key_confirmation root (sha256 t) (lit ''responder'') = Inr k" "length k = 32"
    using derive_key_confirmation_total by blast
  obtain pay where pay: "response_signature_payload (response_of q ?E ?S k ?y) q = Inr pay"
    using signature_payloads_total(2) [OF assms(2) valid response_of_matches, of k ?y] k(2) by auto
  let ?m = "response_of q ?E ?S k (ed_sign c (id_signing_private i) pay)"
  have tm: "handshake_transcript q ?m = Inr t"
    using t response_of_update(2) [of q ?E ?S k "ed_sign c (id_signing_private i) pay" ?z ?y] by simp
  have pm: "response_signature_payload ?m q = Inr pay"
    using pay response_of_update(1) [of q ?E ?S k "ed_sign c (id_signing_private i) pay" ?y] by simp
  have ver: "verify_signature c (PBytes p) (PBytes (ofr_signature q)) (PBytes rs) = Inr ()"
    using assms(6,7) by (simp add: verify_signature_eq_Inr)
  have "factory_responder c rt e i rs q supp =
      Inr (?m, \<lparr>res_remote_signing = rs, res_offer = q, res_response = ?m, res_suite = su,
                res_root_key = Some root\<rparr>)"
    using assms(3-5,8,9) ver make [of ?z ?y] make [OF k(2)] t k(1) pay lens(3)
    by (simp add: factory_responder_def zeros_def Let_def root_def identity_sign_def)
  moreover have "response_valid rt ?m" using valid k(2) lens(3) by simp
  ultimately show ?thesis
    using tm pm k(1) root_def
    by - (rule exI [of _ ?m], rule exI [of _ t], rule exI [of _ root],
        rule exI [of _ pay], simp)
qed

text \<open>The confirmation that an initiator makes of a response.\<close>

definition confirmation_of :: "HandshakeResponse \<Rightarrow> bytes \<Rightarrow> bytes \<Rightarrow> HandshakeConfirmation" where
  "confirmation_of m key_confirmation signature =
     \<lparr>cnf_version = rsp_version m, cnf_suite = rsp_suite m, cnf_initiator = rsp_initiator m,
      cnf_responder = rsp_responder m, cnf_initiator_ephemeral = rsp_initiator_ephemeral m,
      cnf_responder_ephemeral = rsp_responder_ephemeral m,
      cnf_key_confirmation = key_confirmation, cnf_signature = signature\<rparr>"

lemma confirmation_of_fields [simp]:
  "cnf_version (confirmation_of m k s) = rsp_version m"
  "cnf_suite (confirmation_of m k s) = rsp_suite m"
  "cnf_initiator (confirmation_of m k s) = rsp_initiator m"
  "cnf_responder (confirmation_of m k s) = rsp_responder m"
  "cnf_initiator_ephemeral (confirmation_of m k s) = rsp_initiator_ephemeral m"
  "cnf_responder_ephemeral (confirmation_of m k s) = rsp_responder_ephemeral m"
  "cnf_key_confirmation (confirmation_of m k s) = k" "cnf_signature (confirmation_of m k s) = s"
  by (simp_all add: confirmation_of_def)

lemma confirmation_of_matches [simp]: "validate_for_response (confirmation_of m k s) m = Inr ()"
  by (simp add: validate_for_response_eq_Inr confirmation_of_def)

lemma confirmation_of_valid:
  "response_valid rt m \<Longrightarrow> length k = 32 \<Longrightarrow> length s = 64 \<Longrightarrow>
     confirmation_valid rt (confirmation_of m k s)"
  by (simp add: confirmation_valid_def response_valid_def confirmation_of_def)

lemma confirmation_of_update: "confirmation_of m k s = (confirmation_of m k s')\<lparr>cnf_signature := s\<rparr>"
  by (simp add: confirmation_of_def)

lemma signed_confirmation_eq_Inr:
  "signed_confirmation c rt i q m k = Inr n \<longleftrightarrow>
     (\<exists>p. confirmation_valid rt (confirmation_of m k (replicate 64 0)) \<and>
        confirmation_signature_payload (confirmation_of m k (replicate 64 0)) q m = Inr p \<and>
        n = confirmation_of m k (ed_sign c (id_signing_private i) p) \<and> confirmation_valid rt n)"
proof -
  have make: "make_confirmation rt (PInt (rsp_version m)) (PStr (rsp_suite m)) (PStr (rsp_initiator m))
      (PStr (rsp_responder m)) (PBytes (rsp_initiator_ephemeral m)) (PBytes (rsp_responder_ephemeral m))
      (PBytes k) (PBytes s) = Inr x \<longleftrightarrow> x = confirmation_of m k s \<and> confirmation_valid rt x" for s x
    by (cases x) (auto simp: make_confirmation_eq_Inr confirmation_of_def)
  show ?thesis
    by (auto simp: signed_confirmation_def zeros_def bindE_eq_Inr make identity_sign_def)
qed

text \<open>What a completed initiator has checked, and what it returns.\<close>

lemma initiator_result_eq_Inr:
  "initiator_result c rt st priv m = Inr (n, s) \<longleftrightarrow>
     validate_for_offer m (ini_offer st) = Inr () \<and>
     rsp_responder_signing m = ini_remote_signing st \<and>
     (\<exists>p su shared t root.
        response_signature_payload m (ini_offer st) = Inr p \<and>
        ed_public_ok c (ini_remote_signing st) \<and>
        ed_verifies c (ini_remote_signing st) (rsp_signature m) p \<and>
        aead_suite (rsp_suite m) = Inr su \<and>
        x25519_shared c priv (rsp_responder_ephemeral m) = Inr shared \<and>
        handshake_transcript (ini_offer st) m = Inr t \<and>
        root = derive_session_root c shared (sha256 t) (ini_supplemental st) \<and>
        derive_key_confirmation root (sha256 t) (lit ''responder'') = Inr (rsp_key_confirmation m) \<and>
        (\<exists>k. derive_key_confirmation root (sha256 t) (lit ''initiator'') = Inr k \<and>
           signed_confirmation c rt (ini_identity st) (ini_offer st) m k = Inr n) \<and>
        s = make_session (ofr_initiator (ini_offer st)) (ofr_responder (ini_offer st)) su root
              (ofr_initiator_ephemeral (ini_offer st)) (rsp_responder_ephemeral m))"
  by (auto simp: initiator_result_def res_simps Let_def)

lemma responder_result_eq_Inr:
  "responder_result c st root n = Inr s \<longleftrightarrow>
     validate_for_response n (res_response st) = Inr () \<and>
     (\<exists>p t. confirmation_signature_payload n (res_offer st) (res_response st) = Inr p \<and>
        ed_public_ok c (res_remote_signing st) \<and>
        ed_verifies c (res_remote_signing st) (cnf_signature n) p \<and>
        handshake_transcript (res_offer st) (res_response st) = Inr t \<and>
        derive_key_confirmation root (sha256 t) (lit ''initiator'') = Inr (cnf_key_confirmation n) \<and>
        s = make_session (ofr_responder (res_offer st)) (ofr_initiator (res_offer st))
              (res_suite st) root (rsp_responder_ephemeral (res_response st))
              (ofr_initiator_ephemeral (res_offer st)))"
  by (auto simp: responder_result_def res_simps)

section \<open>An honest run over the wire\<close>

text \<open>
  The run of \<^verbatim>\<open>demo.py\<close>: each message is serialised by its sender and parsed by its receiver.
\<close>

definition over_wire :: "('m \<Rightarrow> bytes res) \<Rightarrow> (pyval \<Rightarrow> 'm res) \<Rightarrow> 'm \<Rightarrow> 'm res" where
  "over_wire to_bytes from_bytes m = bindE (to_bytes m) (\<lambda>b. from_bytes (PBytes b))"

definition run_handshake ::
    "crypto \<Rightarrow> runtime \<Rightarrow> bytes \<Rightarrow> bytes \<Rightarrow> Identity \<Rightarrow> Identity \<Rightarrow> AeadSuite \<Rightarrow> bytes \<Rightarrow> bytes \<Rightarrow>
       (SessionState \<times> SessionState) res" where
  "run_handshake c rt alice_ephemeral bob_ephemeral alice bob su alice_supplemental bob_supplemental =
     bindE (factory_initiator c rt alice_ephemeral alice (PStr (id_name bob))
             (ed25519_public_bytes c bob) su alice_supplemental) (\<lambda>pending_alice.
     bindE (over_wire (offer_to_bytes rt) (offer_from_bytes rt) (ini_offer pending_alice))
       (\<lambda>received_offer.
     bindE (factory_responder c rt bob_ephemeral bob (ed25519_public_bytes c alice)
             received_offer bob_supplemental) (\<lambda>(response, pending_bob).
     bindE (over_wire (response_to_bytes rt) (response_from_bytes rt) response) (\<lambda>received_response.
     bindE (fst (initiator_complete c rt received_response pending_alice))
       (\<lambda>(confirmation, alice_session).
     bindE (over_wire (confirmation_to_bytes rt) (confirmation_from_bytes rt) confirmation)
       (\<lambda>received_confirmation.
     bindE (fst (responder_complete c received_confirmation pending_bob)) (\<lambda>bob_session.
     Inr (alice_session, bob_session))))))))"

lemma over_wire_valid:
  assumes "runtime_ok rt"
  shows "offer_valid rt q \<Longrightarrow> over_wire (offer_to_bytes rt) (offer_from_bytes rt) q = Inr q"
    and "response_valid rt m \<Longrightarrow> over_wire (response_to_bytes rt) (response_from_bytes rt) m = Inr m"
    and "confirmation_valid rt n \<Longrightarrow>
      over_wire (confirmation_to_bytes rt) (confirmation_from_bytes rt) n = Inr n"
  using offer_bytes [OF _ assms] response_bytes [OF _ assms] confirmation_bytes [OF _ assms]
  by (simp_all add: over_wire_def)

text \<open>The honest run without the wire, which \<open>pair_for_tests\<close> is.\<close>

lemma honest_run:
  assumes "crypto_correct c" "runtime_ok rt" "name_ok rt (id_name alice)" "name_ok rt (id_name bob)"
    and "id_name alice \<noteq> id_name bob" "x_public c eb \<noteq> x_public c ea"
  shows "\<exists>sa sb. run_handshake c rt ea eb alice bob su supp supp = Inr (sa, sb) \<and>
    pair_for_tests c rt ea eb alice bob su supp = Inr (sa, sb) \<and>
    mirrored sa sb \<and> session_ok rt sa \<and> session_ok rt sb \<and>
    send_sequence sa = 0 \<and> send_sequence sb = 0 \<and> suite sa = su \<and>
    replay_window sa = default_window \<and> replay_window sb = default_window"
proof -
  let ?A = "ed25519_public_bytes c alice" and ?B = "ed25519_public_bytes c bob"
  have lens: "lengths_ok c" using assms(1) by (simp add: crypto_correct_def)
  have sig: "ed_public_ok c (ed25519_public_bytes c i)"
    "ed_verifies c (ed25519_public_bytes c i) (ed_sign c (id_signing_private i) d) d" for i d
    using assms(1) by (simp_all add: crypto_correct_def signatures_correct_def ed25519_public_bytes_def)
  have "exchange_agrees c" using assms(1) by (simp add: crypto_correct_def)
  then obtain shared where "x_exchange c ea (x_public c eb) = Inr shared"
    "x_exchange c eb (x_public c ea) = Inr shared" "\<forall>k. x_public_ok c (x_public c k)"
    unfolding exchange_agrees_def by blast
  then have dh: "x25519_shared c eb (x_public c ea) = Inr shared"
    "x25519_shared c ea (x_public c eb) = Inr shared"
    by (simp_all add: x25519_shared_def)
  obtain q p where init: "factory_initiator c rt ea alice (PStr (id_name bob)) ?B su supp =
      Inr \<lparr>ini_identity = alice, ini_remote_signing = ?B, ini_offer = q, ini_supplemental = supp,
           ini_ephemeral = Some ea\<rparr>"
    and q: "offer_valid rt q" "ofr_suite q = suite_value su" "ofr_initiator q = id_name alice"
    "ofr_responder q = id_name bob" "ofr_initiator_ephemeral q = x_public c ea"
    "ofr_initiator_signing q = ?A" "offer_signature_payload rt q = Inr p"
    "ofr_signature q = ed_sign c (id_signing_private alice) p"
    using factory_initiator_works [OF lens assms(3-5)] by blast
  have verifies: "ed_verifies c ?A (ofr_signature q) p" by (simp add: q(8) sig(2))
  have secret: "x25519_shared c eb (ofr_initiator_ephemeral q) = Inr shared" by (simp add: q(5) dh(1))
  have fresh: "x_public c eb \<noteq> ofr_initiator_ephemeral q" by (simp add: q(5) assms(6))
  obtain m t root pay where resp: "factory_responder c rt eb bob ?A q supp =
      Inr (m, \<lparr>res_remote_signing = ?A, res_offer = q, res_response = m, res_suite = su,
               res_root_key = Some root\<rparr>)"
    and m: "response_valid rt m" "validate_for_offer m q = Inr ()"
    "rsp_responder_ephemeral m = x_public c eb" "rsp_responder_signing m = ?B"
    "handshake_transcript q m = Inr t" "root = derive_session_root c shared (sha256 t) supp"
    "derive_key_confirmation root (sha256 t) (lit ''responder'') = Inr (rsp_key_confirmation m)"
    "response_signature_payload m q = Inr pay" "rsp_signature m = ed_sign c (id_signing_private bob) pay"
    using factory_responder_works [OF lens q(1) q(4) [symmetric] q(6,7) sig(1) verifies q(2) secret fresh]
    by blast
  obtain k where k: "derive_key_confirmation root (sha256 t) (lit ''initiator'') = Inr k" "length k = 32"
    using derive_key_confirmation_total by blast
  have unsigned: "confirmation_valid rt (confirmation_of m k (replicate 64 0))"
    using confirmation_of_valid [OF m(1) k(2)] by simp
  obtain cp where cp: "confirmation_signature_payload (confirmation_of m k (replicate 64 0)) q m = Inr cp"
    using signature_payloads_total(3) [OF q(1) m(1,2) unsigned confirmation_of_matches] by blast
  define n where "n = confirmation_of m k (ed_sign c (id_signing_private alice) cp)"
  have n: "confirmation_valid rt n"
    using lens confirmation_of_valid [OF m(1) k(2)] by (simp add: n_def lengths_ok_def)
  have ncp: "confirmation_signature_payload n q m = Inr cp"
    using cp unfolding n_def
    by (subst confirmation_of_update [of _ _ _ "replicate 64 0"]) (simp only: payload_unsigned)
  have sc: "signed_confirmation c rt alice q m k = Inr n"
    using unsigned cp n unfolding signed_confirmation_eq_Inr n_def by blast
  have su: "rsp_suite m = suite_value su" using m(2) q(2) by (simp add: validate_for_offer_eq_Inr)
  define sa where "sa = make_session (id_name alice) (id_name bob) su root (x_public c ea) (x_public c eb)"
  define sb where "sb = make_session (id_name bob) (id_name alice) su root (x_public c eb) (x_public c ea)"
  have ini: "initiator_result c rt \<lparr>ini_identity = alice, ini_remote_signing = ?B, ini_offer = q,
      ini_supplemental = supp, ini_ephemeral = Some ea\<rparr> ea m = Inr (n, sa)"
    using m k sc su dh(2) sig(1) [of bob] sig(2) [of bob] q
    by (simp add: initiator_result_eq_Inr sa_def)
  have res: "responder_result c \<lparr>res_remote_signing = ?A, res_offer = q, res_response = m,
      res_suite = su, res_root_key = Some root\<rparr> root n = Inr sb"
    using m(3,5) k sig(1) [of alice] sig(2) [of alice] q(3-5) ncp
    by (simp add: responder_result_eq_Inr sb_def) (simp add: n_def)
  have "run_handshake c rt ea eb alice bob su supp supp = Inr (sa, sb)"
    using init resp ini res over_wire_valid [OF assms(2)] q(1) m(1) n
    by (simp add: run_handshake_def initiator_complete_def responder_complete_def)
  moreover have "pair_for_tests c rt ea eb alice bob su supp = Inr (sa, sb)"
    using init resp ini res
    by (simp add: pair_for_tests_def initiator_complete_def responder_complete_def)
  moreover have "mirrored sa sb \<and> session_ok rt sa \<and> session_ok rt sb \<and>
    send_sequence sa = 0 \<and> send_sequence sb = 0 \<and> suite sa = su \<and>
    replay_window sa = default_window \<and> replay_window sb = default_window"
    using assms(3-5) lens
    by (auto simp: mirrored_def session_ok_def sa_def sb_def make_session_def lengths_ok_def)
  ultimately show ?thesis by blast
qed

section \<open>What a run has done\<close>

lemma factory_initiator_Inr:
  assumes "factory_initiator c rt e i remote rs su supp = Inr st"
  shows "ini_identity st = i" "ini_remote_signing st = rs" "ini_supplemental st = supp"
    "ini_ephemeral st = Some e" "ofr_initiator_ephemeral (ini_offer st) = x_public c e"
    "offer_valid rt (ini_offer st)" "ofr_initiator (ini_offer st) = id_name i"
  using assms
  by (auto simp: factory_initiator_def Let_def bindE_eq_Inr make_offer_eq_Inr)

lemma factory_responder_Inr:
  assumes "factory_responder c rt e i rs q supp = Inr (m, st)"
  shows "res_remote_signing st = rs" "res_offer st = q" "res_response st = m"
    "ofr_initiator_signing q = rs" "id_name i = ofr_responder q"
    "rsp_responder_ephemeral m = x_public c e"
    "rsp_responder_signing m = ed25519_public_bytes c i"
    "validate_for_offer m q = Inr ()" "aead_suite (ofr_suite q) = Inr (res_suite st)"
    "\<exists>shared t. x25519_shared c e (ofr_initiator_ephemeral q) = Inr shared \<and>
       handshake_transcript q m = Inr t \<and>
       res_root_key st = Some (derive_session_root c shared (sha256 t) supp)"
proof -
  let ?E = "x_public c e" and ?S = "ed25519_public_bytes c i"
  obtain su shared prov t k s where
    r: "id_name i = ofr_responder q" "ofr_initiator_signing q = rs" "aead_suite (ofr_suite q) = Inr su"
    "x25519_shared c e (ofr_initiator_ephemeral q) = Inr shared"
    "response_from_offer rt q (PBytes ?E) (PBytes ?S) (zeros 32) (zeros 64) = Inr prov"
    "handshake_transcript q prov = Inr t"
    "response_from_offer rt q (PBytes ?E) (PBytes ?S) (PBytes k) (PBytes s) = Inr m"
    and st: "st = \<lparr>res_remote_signing = rs, res_offer = q, res_response = m, res_suite = su,
               res_root_key = Some (derive_session_root c shared (sha256 t) supp)\<rparr>"
    using assms
    by (auto simp: factory_responder_def Let_def bindE_eq_Inr thenE_eq_Inr raise_if_eq_Inr)
  have m: "m = response_of q ?E ?S k s" and prov: "prov = response_of q ?E ?S (replicate 32 0) (replicate 64 0)"
    using r(5,7) by (simp_all add: response_from_offer_eq_Inr zeros_def)
  have "handshake_transcript q m = Inr t"
    using r(6) unfolding m prov response_of_update(2) [of q ?E ?S k s "replicate 32 0" "replicate 64 0"]
    by simp
  with r st show "\<exists>shared t. x25519_shared c e (ofr_initiator_ephemeral q) = Inr shared \<and>
       handshake_transcript q m = Inr t \<and>
       res_root_key st = Some (derive_session_root c shared (sha256 t) supp)" by auto
  show "res_remote_signing st = rs" "res_offer st = q" "res_response st = m"
    "ofr_initiator_signing q = rs" "id_name i = ofr_responder q"
    "rsp_responder_ephemeral m = x_public c e"
    "rsp_responder_signing m = ed25519_public_bytes c i"
    "validate_for_offer m q = Inr ()" "aead_suite (ofr_suite q) = Inr (res_suite st)"
    using r st m by simp_all
qed

lemma initiator_complete_Inr:
  "fst (initiator_complete c rt m st) = Inr x \<longleftrightarrow>
     (\<exists>e. ini_ephemeral st = Some e \<and> initiator_result c rt st e m = Inr x)"
  by (auto simp: initiator_complete_def split: option.splits sum.splits)

lemma responder_complete_Inr:
  "fst (responder_complete c n st) = Inr x \<longleftrightarrow>
     (\<exists>root. res_root_key st = Some root \<and> responder_result c st root n = Inr x)"
  by (auto simp: responder_complete_def split: option.splits sum.splits)

text \<open>
  What an identity signs when its owner uses this code only: offers, the responses of its
  responder runs and the confirmations of its initiator runs.
\<close>

definition response_signed :: "crypto \<Rightarrow> runtime \<Rightarrow> Identity \<Rightarrow> bytes \<Rightarrow> bool" where
  "response_signed c rt i d \<longleftrightarrow>
     (\<exists>e rs q supp m st. factory_responder c rt e i rs q supp = Inr (m, st) \<and>
        response_signature_payload m q = Inr d)"

definition confirmation_signed :: "crypto \<Rightarrow> runtime \<Rightarrow> Identity \<Rightarrow> bytes \<Rightarrow> bool" where
  "confirmation_signed c rt i d \<longleftrightarrow>
     (\<exists>e remote rs su supp st m n s. factory_initiator c rt e i remote rs su supp = Inr st \<and>
        fst (initiator_complete c rt m st) = Inr (n, s) \<and>
        confirmation_signature_payload n (ini_offer st) m = Inr d)"

definition signed_by :: "crypto \<Rightarrow> runtime \<Rightarrow> Identity \<Rightarrow> bytes \<Rightarrow> bool" where
  "signed_by c rt i d \<longleftrightarrow>
     (\<exists>q. offer_signature_payload rt q = Inr d) \<or> response_signed c rt i d \<or>
     confirmation_signed c rt i d"

lemma payload_kinds:
  assumes "response_signature_payload m q = Inr d"
  shows "offer_signature_payload rt q' \<noteq> Inr d" "confirmation_signature_payload n q'' m'' \<noteq> Inr d"
proof -
  obtain a where d: "d = blit ''CypherSyntax/handshake-response-signature/v1'' @ a"
    using assms by (rule response_signature_payload_fields)
  have neq: "blit ''CypherSyntax/handshake-response-signature/v1'' @ a \<noteq>
      blit ''CypherSyntax/handshake-offer/v1'' @ x"
    "blit ''CypherSyntax/handshake-response-signature/v1'' @ a \<noteq>
      blit ''CypherSyntax/handshake-confirmation-signature/v1'' @ x" for x
    by (rule label_not_prefix [of 23]; simp add: blit_def)+
  show "offer_signature_payload rt q' \<noteq> Inr d"
    using neq(1) unfolding d offer_signature_payload_eq_Inr by (auto elim: handshake_context_fields)
  show "confirmation_signature_payload n q'' m'' \<noteq> Inr d"
    using neq(2) unfolding d by (auto elim: confirmation_signature_payload_fields)
qed

lemma confirmation_payload_kinds:
  assumes "confirmation_signature_payload n q m = Inr d"
  shows "offer_signature_payload rt q' \<noteq> Inr d"
proof -
  obtain a where d: "d = blit ''CypherSyntax/handshake-confirmation-signature/v1'' @ a"
    using assms by (rule confirmation_signature_payload_fields)
  have neq: "blit ''CypherSyntax/handshake-confirmation-signature/v1'' @ a \<noteq>
      blit ''CypherSyntax/handshake-offer/v1'' @ x" for x
    by (rule label_not_prefix [of 23]; simp add: blit_def)
  show ?thesis
    using neq unfolding d offer_signature_payload_eq_Inr by (auto elim: handshake_context_fields)
qed

lemma signed_by_response:
  "signed_by c rt i d \<Longrightarrow> response_signature_payload m q = Inr d \<Longrightarrow> response_signed c rt i d"
  using payload_kinds by (auto simp: signed_by_def confirmation_signed_def)

lemma signed_by_confirmation:
  "signed_by c rt i d \<Longrightarrow> confirmation_signature_payload n q m = Inr d \<Longrightarrow> confirmation_signed c rt i d"
  using payload_kinds(2) confirmation_payload_kinds by (auto simp: signed_by_def response_signed_def)

lemma exchange_secret:
  assumes "exchange_agrees c" "x25519_shared c a (x_public c b) = Inr s" "x25519_shared c b (x_public c a) = Inr s'"
  shows "s = s'"
proof -
  obtain u where "x_exchange c a (x_public c b) = Inr u" "x_exchange c b (x_public c a) = Inr u"
    using assms(1) unfolding exchange_agrees_def by blast
  with assms(2,3) show ?thesis by (auto simp: x25519_shared_def thenE_eq_Inr)
qed

lemma responder_run_agrees:
  assumes "exchange_agrees c" and st: "ini_ephemeral st = Some ea"
      "ofr_initiator_ephemeral (ini_offer st) = x_public c ea"
    and fin: "fst (initiator_complete c rt m st) = Inr (n, sa)"
    and run: "factory_responder c rt eb bob rs (ini_offer st) suppb = Inr (m', pend)"
    and same: "m'\<lparr>rsp_signature := []\<rparr> = m\<lparr>rsp_signature := []\<rparr>"
    and supp: "suppb = ini_supplemental st"
  shows "res_root_key pend = Some (root_key sa)" "res_suite pend = suite sa"
proof -
  have m': "m' = m\<lparr>rsp_signature := rsp_signature m'\<rparr>"
    using same by (cases m; cases m') simp
  obtain su shared t where r: "validate_for_offer m (ini_offer st) = Inr ()"
    "aead_suite (rsp_suite m) = Inr su" "x25519_shared c ea (rsp_responder_ephemeral m) = Inr shared"
    "handshake_transcript (ini_offer st) m = Inr t"
    "sa = make_session (ofr_initiator (ini_offer st)) (ofr_responder (ini_offer st)) su
       (derive_session_root c shared (sha256 t) (ini_supplemental st))
       (ofr_initiator_ephemeral (ini_offer st)) (rsp_responder_ephemeral m)"
    using fin st(1) by (auto simp: initiator_complete_Inr initiator_result_eq_Inr)
  obtain shared' t' where r': "x25519_shared c eb (x_public c ea) = Inr shared'"
    "handshake_transcript (ini_offer st) m' = Inr t'"
    "res_root_key pend = Some (derive_session_root c shared' (sha256 t') suppb)"
    using factory_responder_Inr(10) [OF run] st(2) by auto
  have eb: "rsp_responder_ephemeral m = x_public c eb"
    using factory_responder_Inr(6) [OF run] m' by (metis HandshakeResponse.select_convs(7)
        HandshakeResponse.surjective HandshakeResponse.update_convs(10))
  have "handshake_transcript (ini_offer st) m' = handshake_transcript (ini_offer st) m"
    by (subst m') (rule transcript_unsigned(1))
  with r(4) r'(2) have "t' = t" by simp
  moreover have "shared = shared'"
    using exchange_secret [OF assms(1)] r(3) r'(1) unfolding eb by blast
  ultimately show "res_root_key pend = Some (root_key sa)"
    using r'(3) r(5) supp by (simp add: make_session_def)
  show "res_suite pend = suite sa"
    using factory_responder_Inr(9) [OF run] r(1,2,5)
    by (simp add: make_session_def validate_for_offer_eq_Inr)
qed

section \<open>Properties\<close>

text \<open>
  C1. An honest handshake works: two identities with distinct names that trust each other's
  keys and hold the same supplemental secret end, with every message sent over the wire as bytes
  and also within one process, with two fresh sessions that belong together: the same root key and
  suite, names and ephemeral keys swapped.
\<close>

theorem honest_handshake:
  assumes "crypto_correct c" "runtime_ok rt" "name_ok rt (id_name alice)" "name_ok rt (id_name bob)"
    and "id_name alice \<noteq> id_name bob" "x_public c eb \<noteq> x_public c ea"
  shows "\<exists>sa sb. run_handshake c rt ea eb alice bob su supp supp = Inr (sa, sb) \<and>
    pair_for_tests c rt ea eb alice bob su supp = Inr (sa, sb) \<and>
    mirrored sa sb \<and> session_ok rt sa \<and> session_ok rt sb \<and>
    send_sequence sa = 0 \<and> send_sequence sb = 0 \<and> suite sa = su \<and>
    replay_window sa = default_window \<and> replay_window sb = default_window"
  using assms by (rule honest_run)

lemma sample_names:
  "name_ok rt (id_name sample_alice)" "name_ok rt (id_name sample_bob)"
  "id_name sample_alice \<noteq> id_name sample_bob"
  "\<not> path_component (id_name sample_alice)" "\<not> path_component (id_name sample_bob)"
  by (simp_all add: sample_alice_def sample_bob_def name_ok_plain MAX_PARTICIPANT_NAME_BYTES_def
      lit_def path_component_def)

lemma sample_ephemerals: "x_public toy_crypto [12] \<noteq> x_public toy_crypto [11]"
  by (simp add: toy_crypto_def fit_def)

theorem honest_handshake_witness:
  "\<exists>sa sb. run_handshake toy_crypto sample_runtime [11] [12] sample_alice sample_bob AES_GCM_SIV
      [13] [13] = Inr (sa, sb) \<and> mirrored sa sb"
  using honest_handshake [OF toy_crypto_correct sample_runtime_ok sample_names(1-3) sample_ephemerals]
  by blast

text \<open>The steps of an honest run of the examples.\<close>

lemma sample_run:
  obtains st m pend n sa sb where
    "factory_initiator toy_crypto sample_runtime [11] sample_alice (PStr (id_name sample_bob))
       (ed25519_public_bytes toy_crypto sample_bob) AES_GCM_SIV [13] = Inr st"
    "factory_responder toy_crypto sample_runtime [12] sample_bob
       (ed25519_public_bytes toy_crypto sample_alice) (ini_offer st) [13] = Inr (m, pend)"
    "fst (initiator_complete toy_crypto sample_runtime m st) = Inr (n, sa)"
    "fst (responder_complete toy_crypto n pend) = Inr sb"
proof -
  obtain sa sb where "pair_for_tests toy_crypto sample_runtime [11] [12] sample_alice sample_bob
      AES_GCM_SIV [13] = Inr (sa, sb)"
    using honest_run [OF toy_crypto_correct sample_runtime_ok sample_names(1-3) sample_ephemerals]
    by blast
  then show thesis
    by (auto simp: pair_for_tests_def bindE_eq_Inr intro: that)
qed

text \<open>
  C2. Agreement of the responder: when an initiator completes, and the signature it accepted was
  made by the owner of the trusted key (who uses this code), then the responder has run with this
  very offer and made this very response, its signature apart; and if the two hold the same
  supplemental secret, the responder's root key and suite are those of the initiator's session.
\<close>

theorem initiator_authenticates_responder:
  assumes "exchange_agrees c"
    and "factory_initiator c rt ea alice remote (ed25519_public_bytes c bob) su supp = Inr st"
    and "fst (initiator_complete c rt m st) = Inr (n, sa)"
    and "\<And>p. response_signature_payload m (ini_offer st) = Inr p \<Longrightarrow>
      ed_verifies c (ed25519_public_bytes c bob) (rsp_signature m) p \<Longrightarrow> signed_by c rt bob p"
  shows "\<exists>eb rs suppb m' pend. factory_responder c rt eb bob rs (ini_offer st) suppb = Inr (m', pend) \<and>
    m'\<lparr>rsp_signature := []\<rparr> = m\<lparr>rsp_signature := []\<rparr> \<and> id_name bob = remote_name sa \<and>
    (suppb = supp \<longrightarrow> res_root_key pend = Some (root_key sa) \<and> res_suite pend = suite sa)"
proof -
  note st = factory_initiator_Inr [OF assms(2)]
  obtain p where p: "response_signature_payload m (ini_offer st) = Inr p"
      "ed_verifies c (ed25519_public_bytes c bob) (rsp_signature m) p"
    and name: "remote_name sa = ofr_responder (ini_offer st)"
    using assms(3) st(2) by (auto simp: initiator_complete_Inr initiator_result_eq_Inr make_session_def)
  obtain eb rs q suppb m' pend where run: "factory_responder c rt eb bob rs q suppb = Inr (m', pend)"
    "response_signature_payload m' q = Inr p"
    using signed_by_response [OF assms(4) [OF p] p(1)] by (auto simp: response_signed_def)
  have q: "q = ini_offer st" and same: "m'\<lparr>rsp_signature := []\<rparr> = m\<lparr>rsp_signature := []\<rparr>"
    using response_payload_inj [OF run(2) p(1)] by simp_all
  have "res_root_key pend = Some (root_key sa) \<and> res_suite pend = suite sa" if "suppb = supp"
    using responder_run_agrees [OF assms(1) st(4,5) assms(3) run(1) [unfolded q] same] that st(3) by simp
  then show ?thesis
    using run(1) same name factory_responder_Inr(5) [OF run(1)] unfolding q by fastforce
qed

theorem initiator_authenticates_responder_witness:
  "\<exists>st m n sa eb rs suppb m' pend.
     fst (initiator_complete toy_crypto sample_runtime m st) = Inr (n, sa) \<and>
     factory_responder toy_crypto sample_runtime eb sample_bob rs (ini_offer st) suppb = Inr (m', pend) \<and>
     m'\<lparr>rsp_signature := []\<rparr> = m\<lparr>rsp_signature := []\<rparr>"
proof -
  obtain st m pend n sa sb where run:
    "factory_initiator toy_crypto sample_runtime [11] sample_alice (PStr (id_name sample_bob))
       (ed25519_public_bytes toy_crypto sample_bob) AES_GCM_SIV [13] = Inr st"
    "factory_responder toy_crypto sample_runtime [12] sample_bob
       (ed25519_public_bytes toy_crypto sample_alice) (ini_offer st) [13] = Inr (m, pend)"
    "fst (initiator_complete toy_crypto sample_runtime m st) = Inr (n, sa)"
    by (rule sample_run)
  have dh: "exchange_agrees toy_crypto" using toy_crypto_correct by (simp add: crypto_correct_def)
  have "signed_by toy_crypto sample_runtime sample_bob p"
    if "response_signature_payload m (ini_offer st) = Inr p" for p
    using run(2) that unfolding signed_by_def response_signed_def by blast
  from initiator_authenticates_responder [OF dh run(1,3) this] run(3) show ?thesis by blast
qed

text \<open>
  C3. Agreement of the initiator: when a responder completes, and the signature it accepted was
  made by the owner of the trusted key (who uses this code), then the initiator has completed a run
  with this offer, this response and this confirmation, signatures of the last two apart; and if
  the two hold the same supplemental secret, the two sessions belong together.
\<close>

theorem responder_authenticates_initiator:
  assumes "exchange_agrees c"
    and "factory_responder c rt eb bob (ed25519_public_bytes c alice) q supp = Inr (m, pend)"
    and "fst (responder_complete c n pend) = Inr sb"
    and "\<And>p. confirmation_signature_payload n q m = Inr p \<Longrightarrow>
      ed_verifies c (ed25519_public_bytes c alice) (cnf_signature n) p \<Longrightarrow> signed_by c rt alice p"
  shows "\<exists>ea remote rs su suppa st m' n' sa. factory_initiator c rt ea alice remote rs su suppa = Inr st \<and>
    ini_offer st = q \<and> fst (initiator_complete c rt m' st) = Inr (n', sa) \<and>
    m'\<lparr>rsp_signature := []\<rparr> = m\<lparr>rsp_signature := []\<rparr> \<and> n'\<lparr>cnf_signature := []\<rparr> = n\<lparr>cnf_signature := []\<rparr> \<and>
    (suppa = supp \<longrightarrow> mirrored sa sb)"
proof -
  note pend = factory_responder_Inr [OF assms(2)]
  obtain root p where sb: "res_root_key pend = Some root"
      "sb = make_session (ofr_responder q) (ofr_initiator q) (res_suite pend) root
         (rsp_responder_ephemeral m) (ofr_initiator_ephemeral q)"
    and p: "confirmation_signature_payload n q m = Inr p"
      "ed_verifies c (ed25519_public_bytes c alice) (cnf_signature n) p"
    using assms(3) pend(1-3) by (auto simp: responder_complete_Inr responder_result_eq_Inr)
  obtain ea remote rs su suppa st m' n' sa where run:
    "factory_initiator c rt ea alice remote rs su suppa = Inr st"
    "fst (initiator_complete c rt m' st) = Inr (n', sa)"
    "confirmation_signature_payload n' (ini_offer st) m' = Inr p"
    using signed_by_confirmation [OF assms(4) [OF p] p(1)] by (auto simp: confirmation_signed_def)
  note st = factory_initiator_Inr [OF run(1)]
  have q: "ini_offer st = q" and m: "m'\<lparr>rsp_signature := []\<rparr> = m\<lparr>rsp_signature := []\<rparr>"
    and n: "n'\<lparr>cnf_signature := []\<rparr> = n\<lparr>cnf_signature := []\<rparr>"
    using confirmation_payload_inj [OF run(3) p(1)] by simp_all
  have eph: "rsp_responder_ephemeral m' = rsp_responder_ephemeral m"
    using m by (cases m; cases m') simp
  obtain su' root' where sa: "sa = make_session (ofr_initiator q) (ofr_responder q) su' root'
      (ofr_initiator_ephemeral q) (rsp_responder_ephemeral m)"
    using run(2) unfolding initiator_complete_Inr initiator_result_eq_Inr q eph by blast
  have "mirrored sa sb" if supp: "suppa = supp"
  proof -
    have same: "supp = ini_supplemental st" using st(3) supp by simp
    note agree = responder_run_agrees [OF assms(1) st(4,5) run(2) assms(2) [folded q] m [symmetric] same]
    have "res_suite pend = su'" "root = root'"
      using agree sb(1) unfolding sa make_session_def by simp_all
    then show ?thesis unfolding mirrored_def sa sb(2) make_session_def by simp
  qed
  then show ?thesis using run(1,2) q m n by blast
qed

theorem responder_authenticates_initiator_witness:
  "\<exists>pend n sb st m' n' sa. fst (responder_complete toy_crypto n pend) = Inr sb \<and>
     fst (initiator_complete toy_crypto sample_runtime m' st) = Inr (n', sa) \<and>
     ini_offer st = res_offer pend \<and> n'\<lparr>cnf_signature := []\<rparr> = n\<lparr>cnf_signature := []\<rparr>"
proof -
  obtain st m pend n sa sb where run:
    "factory_initiator toy_crypto sample_runtime [11] sample_alice (PStr (id_name sample_bob))
       (ed25519_public_bytes toy_crypto sample_bob) AES_GCM_SIV [13] = Inr st"
    "factory_responder toy_crypto sample_runtime [12] sample_bob
       (ed25519_public_bytes toy_crypto sample_alice) (ini_offer st) [13] = Inr (m, pend)"
    "fst (initiator_complete toy_crypto sample_runtime m st) = Inr (n, sa)"
    "fst (responder_complete toy_crypto n pend) = Inr sb"
    by (rule sample_run)
  have dh: "exchange_agrees toy_crypto" using toy_crypto_correct by (simp add: crypto_correct_def)
  have "signed_by toy_crypto sample_runtime sample_alice p"
    if "confirmation_signature_payload n (ini_offer st) m = Inr p" for p
    using run(1,3) that unfolding signed_by_def confirmation_signed_def by blast
  from responder_authenticates_initiator [OF dh run(2,4) this]
  obtain st' m' n' and sa' :: SessionState where "ini_offer st' = ini_offer st"
    "fst (initiator_complete toy_crypto sample_runtime m' st') = Inr (n', sa')"
    "n'\<lparr>cnf_signature := []\<rparr> = n\<lparr>cnf_signature := []\<rparr>" by blast
  moreover have "res_offer pend = ini_offer st" by (rule factory_responder_Inr(2) [OF run(2)])
  ultimately show ?thesis using run(4) by fastforce
qed

text \<open>A handshake object that is asked to complete again and again.\<close>

fun initiator_tries :: "crypto \<Rightarrow> runtime \<Rightarrow> HandshakeResponse list \<Rightarrow> InitiatorHandshake \<Rightarrow>
    (HandshakeConfirmation \<times> SessionState) res list" where
  "initiator_tries c rt [] st = []"
| "initiator_tries c rt (m # ms) st =
     fst (initiator_complete c rt m st) # initiator_tries c rt ms (snd (initiator_complete c rt m st))"

fun responder_tries :: "crypto \<Rightarrow> HandshakeConfirmation list \<Rightarrow> ResponderHandshake \<Rightarrow>
    SessionState res list" where
  "responder_tries c [] st = []"
| "responder_tries c (n # ns) st =
     fst (responder_complete c n st) # responder_tries c ns (snd (responder_complete c n st))"

lemma initiator_tries_completed:
  "initiator_completed st \<Longrightarrow> filter (\<lambda>r. \<not> isl r) (initiator_tries c rt ms st) = []"
  by (induction ms arbitrary: st) (simp_all add: initiator_complete_def initiator_completed_def)

lemma responder_tries_completed:
  "responder_completed st \<Longrightarrow> filter (\<lambda>r. \<not> isl r) (responder_tries c ns st) = []"
  by (induction ns arbitrary: st) (simp_all add: responder_complete_def responder_completed_def)

lemma initiator_complete_cases:
  obtains e where "initiator_complete c rt m st = (Inl e, st)"
  | x where "initiator_complete c rt m st = (Inr x, st\<lparr>ini_ephemeral := None\<rparr>)"
proof (cases "ini_ephemeral st")
  case (Some e)
  then show thesis
    by (cases "initiator_result c rt st e m") (auto simp: initiator_complete_def intro: that)
qed (auto simp: initiator_complete_def intro: that)

lemma responder_complete_cases:
  obtains e where "responder_complete c n st = (Inl e, st)"
  | x where "responder_complete c n st = (Inr x, st\<lparr>res_root_key := None\<rparr>)"
proof (cases "res_root_key st")
  case (Some root)
  then show thesis
    by (cases "responder_result c st root n") (auto simp: responder_complete_def intro: that)
qed (auto simp: responder_complete_def intro: that)

text \<open>
  C4. Completion is one-shot: however often and with whatever messages a pending handshake is
  completed, at most one session comes out of it; and an attempt that fails leaves the handshake
  pending, so that a forged message cannot cancel it.
\<close>

theorem completion_one_shot:
  "length (filter (\<lambda>r. \<not> isl r) (initiator_tries c rt ms st)) \<le> 1 \<and>
   length (filter (\<lambda>r. \<not> isl r) (responder_tries c ns st')) \<le> 1 \<and>
   (isl (fst (initiator_complete c rt m st)) \<longrightarrow> snd (initiator_complete c rt m st) = st) \<and>
   (isl (fst (responder_complete c n st')) \<longrightarrow> snd (responder_complete c n st') = st')"
proof (intro conjI)
  show "length (filter (\<lambda>r. \<not> isl r) (initiator_tries c rt ms st)) \<le> 1"
  proof (induction ms arbitrary: st)
    case (Cons m ms)
    show ?case
      by (rule initiator_complete_cases [of c rt m st])
        (use Cons in \<open>simp_all add: initiator_tries_completed initiator_completed_def\<close>)
  qed simp
  show "length (filter (\<lambda>r. \<not> isl r) (responder_tries c ns st')) \<le> 1"
  proof (induction ns arbitrary: st')
    case (Cons n ns)
    show ?case
      by (rule responder_complete_cases [of c n st'])
        (use Cons in \<open>simp_all add: responder_tries_completed responder_completed_def\<close>)
  qed simp
  show "isl (fst (initiator_complete c rt m st)) \<longrightarrow> snd (initiator_complete c rt m st) = st"
    by (rule initiator_complete_cases [of c rt m st]) simp_all
  show "isl (fst (responder_complete c n st')) \<longrightarrow> snd (responder_complete c n st') = st'"
    by (rule responder_complete_cases [of c n st']) simp_all
qed

theorem completion_one_shot_witness:
  "\<exists>m st. \<not> isl (fst (initiator_complete toy_crypto sample_runtime m st)) \<and>
     length (filter (\<lambda>r. \<not> isl r) (initiator_tries toy_crypto sample_runtime [m, m] st)) \<le> 1"
proof -
  obtain st m pend n sa sb where
    "fst (initiator_complete toy_crypto sample_runtime m st) = Inr (n, sa)"
    by (rule sample_run)
  then show ?thesis
    using completion_one_shot [of toy_crypto sample_runtime "[m, m]" st] by fastforce
qed

end
