(* ===== verification/Concurrency.thy ===== *)
theory Concurrency
  imports Channel
begin

text \<open>
  The locks of \<^verbatim>\<open>src/cyphersyntax/session.py\<close> and \<^verbatim>\<open>src/cyphersyntax/replay.py\<close>: any number of
  threads call \<^verbatim>\<open>encrypt\<close> and \<^verbatim>\<open>decrypt\<close> of one \<^verbatim>\<open>SessionState\<close> object, and a scheduler chooses
  whose next step runs.  Taking or releasing a lock is a step, and so is each of the statements that
  read or change a shared attribute, so that without \<^verbatim>\<open>_send_lock\<close> or the lock of the window the
  threads would race.  Three groups of accesses are one step each, all of them under a lock: the two
  tests of the sequence before it is used, the reads of \<^verbatim>\<open>_check_unlocked\<close>, and the test and the
  assignment of \<^verbatim>\<open>highest_seen\<close>.  The
  theorems show that the locks make every interleaving equal to one order of whole calls, the
  functions \<^const>\<open>encrypt\<close> and \<^const>\<open>decrypt\<close> of the other theories, and that no call waits for
  ever.
\<close>

section \<open>The statements under the locks\<close>

text \<open>The two checks of \<^verbatim>\<open>self.send_sequence\<close> and the rest of \<^verbatim>\<open>encrypt\<close> for the sequence read.\<close>

definition sequence_check :: "SessionState \<Rightarrow> unit res" where
  "sequence_check self =
     thenE (raise_if (send_sequence self > MAX_MESSAGE_SEQUENCE)
             (Exn OverflowError (lit ''message sequence exhausted'')))
    (thenE (validate_message_sequence (PInt (send_sequence self))) (Inr ()))"

definition seal_packet ::
    "crypto \<Rightarrow> runtime \<Rightarrow> SessionState \<Rightarrow> int \<Rightarrow> bytes \<Rightarrow> bytes res" where
  "seal_packet c rt self sequence plaintext =
     (let envelope = \<lparr>env_version = PInt PROTOCOL_VERSION,
           env_suite = PStr (suite_value (suite self)), env_sender = PStr (local_name self),
           env_recipient = PStr (remote_name self), env_sequence = PInt sequence,
           env_ciphertext = PBytes []\<rparr> in
     bindE (derive_message_key c (root_key self) (PInt sequence) (suite_value (suite self))
             (local_ephemeral_public self) (remote_ephemeral_public self)) (\<lambda>(key, nonce).
     bindE (bindE (associated_data rt envelope) (\<lambda>aad.
              aead_encrypt c (suite self) key nonce plaintext aad)) (\<lambda>ciphertext.
     envelope_to_bytes rt (envelope\<lparr>env_ciphertext := PBytes ciphertext\<rparr>))))"

lemma encrypt_packet_split:
  "encrypt_packet c rt self p =
     thenE (sequence_check self) (seal_packet c rt self (send_sequence self) p)"
  by (cases "send_sequence self > MAX_MESSAGE_SEQUENCE";
      cases "validate_message_sequence (PInt (send_sequence self))")
    (simp_all add: encrypt_packet_def sequence_check_def seal_packet_def Let_def)

text \<open>The three assignments of \<^verbatim>\<open>_record_unlocked\<close>\<close>

definition record_add :: "int \<Rightarrow> ReplayWindow \<Rightarrow> ReplayWindow" where
  "record_add sequence self = self\<lparr>seen := insert sequence (seen self)\<rparr>"

definition record_highest :: "int \<Rightarrow> ReplayWindow \<Rightarrow> ReplayWindow" where
  "record_highest sequence self =
     (if sequence > highest_seen self then self\<lparr>highest_seen := sequence\<rparr> else self)"

definition record_prune :: "ReplayWindow \<Rightarrow> ReplayWindow" where
  "record_prune self =
     (let floor = highest_seen self - window_size self in
      self\<lparr>seen := Set.filter (\<lambda>number. number > floor) (seen self)\<rparr>)"

lemma record_unlocked_split:
  "record_prune (record_highest n (record_add n w)) = record_unlocked w n"
  by (simp add: record_prune_def record_highest_def record_add_def record_unlocked_def Let_def)

section \<open>Threads\<close>

datatype operation = Encrypt pyval | Decrypt pyval

text \<open>
  Where a thread is: its call, with the local variables it has assigned so far.
\<close>

datatype phase =
    Idle
  | Started operation
  | EncWaiting bytes
  | EncLocked bytes
  | EncChecked bytes
  | EncSequence bytes int
  | EncBuilt bytes bytes
  | EncAdding bytes bytes int
  | EncReleasing bytes "bytes res"
  | DecWaiting pyval MessageEnvelope
  | DecLocked pyval MessageEnvelope
  | DecChecked pyval MessageEnvelope
  | DecOpened pyval MessageEnvelope bytes
  | DecAdded pyval MessageEnvelope bytes
  | DecHighest pyval MessageEnvelope bytes
  | DecReleasing pyval "bytes res"
  | Returning operation "bytes res"

text \<open>
  What an observer records: the call, the moment at which it takes effect, and its return.
\<close>

datatype event =
    Called nat operation
  | Effect nat operation "bytes res"
  | Returned nat operation "bytes res"

record system =
  shared :: SessionState
  send_lock :: "nat option"
  window_lock :: "nat option"
  phases :: "nat \<Rightarrow> phase"
  events :: "event list"

definition move :: "nat \<Rightarrow> phase \<Rightarrow> system \<Rightarrow> system" where
  "move i ph g = g\<lparr>phases := (phases g)(i := ph)\<rparr>"

definition emit :: "event \<Rightarrow> system \<Rightarrow> system" where
  "emit ev g = g\<lparr>events := events g @ [ev]\<rparr>"

text \<open>The call takes effect with this result.\<close>

definition effect :: "nat \<Rightarrow> operation \<Rightarrow> bytes res \<Rightarrow> phase \<Rightarrow> system \<Rightarrow> system" where
  "effect i k r ph g = emit (Effect i k r) (move i ph g)"

definition set_window :: "ReplayWindow \<Rightarrow> system \<Rightarrow> system" where
  "set_window w g = g\<lparr>shared := (shared g)\<lparr>replay_window := w\<rparr>\<rparr>"

text \<open>The checks of the argument before \<^verbatim>\<open>_send_lock\<close>, and those before the window.\<close>

definition encrypt_input :: "pyval \<Rightarrow> bytes res" where
  "encrypt_input input =
     (case input of
        PBytes plaintext \<Rightarrow>
          if length plaintext > MAX_PLAINTEXT_BYTES
          then Inl (Exn ValueError (lit ''plaintext exceeds the maximum message size''))
          else Inr plaintext
      | _ \<Rightarrow> Inl (Exn TypeError (lit ''plaintext must be bytes'')))"

definition decrypt_input :: "runtime \<Rightarrow> SessionState \<Rightarrow> pyval \<Rightarrow> MessageEnvelope res" where
  "decrypt_input rt self blob =
     bindE (envelope_from_bytes rt blob) (\<lambda>envelope.
       thenE (check_envelope self envelope) (Inr envelope))"

text \<open>
  The next statement of a thread, nothing when it has none or waits for a lock.
\<close>

fun advance :: "crypto \<Rightarrow> runtime \<Rightarrow> nat \<Rightarrow> phase \<Rightarrow> system \<Rightarrow> system option" where
  "advance c rt i Idle g = None"
| "advance c rt i (Started (Encrypt x)) g =
     (case encrypt_input x of
        Inl e \<Rightarrow> Some (effect i (Encrypt x) (Inl e) (Returning (Encrypt x) (Inl e)) g)
      | Inr p \<Rightarrow> Some (move i (EncWaiting p) g))"
| "advance c rt i (Started (Decrypt x)) g =
     (case decrypt_input rt (shared g) x of
        Inl e \<Rightarrow> Some (effect i (Decrypt x) (Inl e) (Returning (Decrypt x) (Inl e)) g)
      | Inr env \<Rightarrow> Some (move i (DecWaiting x env) g))"
| "advance c rt i (EncWaiting p) g =
     (if send_lock g = None then Some (move i (EncLocked p) (g\<lparr>send_lock := Some i\<rparr>)) else None)"
| "advance c rt i (EncLocked p) g =
     (case sequence_check (shared g) of
        Inl e \<Rightarrow> Some (effect i (Encrypt (PBytes p)) (Inl e) (EncReleasing p (Inl e)) g)
      | Inr _ \<Rightarrow> Some (move i (EncChecked p) g))"
| "advance c rt i (EncChecked p) g = Some (move i (EncSequence p (send_sequence (shared g))) g)"
| "advance c rt i (EncSequence p n) g =
     (case seal_packet c rt (shared g) n p of
        Inl e \<Rightarrow> Some (effect i (Encrypt (PBytes p)) (Inl e) (EncReleasing p (Inl e)) g)
      | Inr packet \<Rightarrow> Some (move i (EncBuilt p packet) g))"
| "advance c rt i (EncBuilt p packet) g =
     Some (move i (EncAdding p packet (send_sequence (shared g))) g)"
| "advance c rt i (EncAdding p packet n) g =
     Some (effect i (Encrypt (PBytes p)) (Inr packet) (EncReleasing p (Inr packet))
       (g\<lparr>shared := (shared g)\<lparr>send_sequence := n + 1\<rparr>\<rparr>))"
| "advance c rt i (EncReleasing p r) g =
     Some (move i (Returning (Encrypt (PBytes p)) r) (g\<lparr>send_lock := None\<rparr>))"
| "advance c rt i (DecWaiting x env) g =
     (if window_lock g = None then Some (move i (DecLocked x env) (g\<lparr>window_lock := Some i\<rparr>))
      else None)"
| "advance c rt i (DecLocked x env) g =
     (case check_unlocked (replay_window (shared g)) (env_sequence env) of
        Inl e \<Rightarrow> Some (effect i (Decrypt x) (Inl e) (DecReleasing x (Inl e)) g)
      | Inr _ \<Rightarrow> Some (move i (DecChecked x env) g))"
| "advance c rt i (DecChecked x env) g =
     (case authenticate c rt (shared g) env of
        Inl e \<Rightarrow> Some (effect i (Decrypt x) (Inl e) (DecReleasing x (Inl e)) g)
      | Inr m \<Rightarrow> Some (move i (DecOpened x env m) g))"
| "advance c rt i (DecOpened x env m) g =
     Some (move i (DecAdded x env m)
       (set_window (record_add (the_int (env_sequence env)) (replay_window (shared g))) g))"
| "advance c rt i (DecAdded x env m) g =
     Some (move i (DecHighest x env m)
       (set_window (record_highest (the_int (env_sequence env)) (replay_window (shared g))) g))"
| "advance c rt i (DecHighest x env m) g =
     Some (effect i (Decrypt x) (Inr m) (DecReleasing x (Inr m))
       (set_window (record_prune (replay_window (shared g))) g))"
| "advance c rt i (DecReleasing x r) g =
     Some (move i (Returning (Decrypt x) r) (g\<lparr>window_lock := None\<rparr>))"
| "advance c rt i (Returning k r) g = Some (emit (Returned i k r) (move i Idle g))"

text \<open>
  The scheduler: a thread that has nothing to do may call, any other may run its next statement.
\<close>

inductive thread_step :: "crypto \<Rightarrow> runtime \<Rightarrow> nat \<Rightarrow> system \<Rightarrow> system \<Rightarrow> bool" for c rt where
  call: "phases g i = Idle \<Longrightarrow> thread_step c rt i g (emit (Called i k) (move i (Started k) g))"
| run: "advance c rt i (phases g i) g = Some g' \<Longrightarrow> thread_step c rt i g g'"

inductive_cases thread_stepE: "thread_step c rt i g g'"
inductive_simps thread_step_iff: "thread_step c rt i g g'"

definition initial_system :: "SessionState \<Rightarrow> system" where
  "initial_system s = \<lparr>shared = s, send_lock = None, window_lock = None, phases = (\<lambda>_. Idle), events = []\<rparr>"

inductive reachable :: "crypto \<Rightarrow> runtime \<Rightarrow> SessionState \<Rightarrow> system \<Rightarrow> bool" for c rt s where
  start: "reachable c rt s (initial_system s)"
| more: "reachable c rt s g \<Longrightarrow> thread_step c rt i g g' \<Longrightarrow> reachable c rt s g'"

section \<open>The specification: one call after another\<close>

definition perform :: "crypto \<Rightarrow> runtime \<Rightarrow> operation \<Rightarrow> SessionState \<Rightarrow> bytes res \<times> SessionState" where
  "perform c rt k s = (case k of Encrypt x \<Rightarrow> encrypt c rt x s | Decrypt x \<Rightarrow> decrypt c rt x s)"

fun perform_all :: "crypto \<Rightarrow> runtime \<Rightarrow> operation list \<Rightarrow> SessionState \<Rightarrow> bytes res list \<times> SessionState" where
  "perform_all c rt [] s = ([], s)"
| "perform_all c rt (k # ks) s =
     (fst (perform c rt k s) # fst (perform_all c rt ks (snd (perform c rt k s))),
      snd (perform_all c rt ks (snd (perform c rt k s))))"

lemma perform_all_snoc:
  "perform_all c rt (ks @ [k]) s =
     (let (rs, s') = perform_all c rt ks s; (r, s'') = perform c rt k s' in (rs @ [r], s''))"
  by (induction ks arbitrary: s) (simp_all add: split_def Let_def)

text \<open>The calls in the order of their effects, with their results.\<close>

fun effect_of :: "event \<Rightarrow> (operation \<times> bytes res) list" where
  "effect_of (Effect i k r) = [(k, r)]"
| "effect_of _ = []"

definition effects :: "system \<Rightarrow> (operation \<times> bytes res) list" where
  "effects g = concat (map effect_of (events g))"

text \<open>
  The history of one thread: calls, effects and returns alternate, and a call returns what it
  did when it took effect.
\<close>

datatype status = Quiet | Pending operation | Effected operation "bytes res" | Broken

fun next_status :: "nat \<Rightarrow> event \<Rightarrow> status \<Rightarrow> status" where
  "next_status i (Called j k) st =
     (if i \<noteq> j then st else case st of Quiet \<Rightarrow> Pending k | _ \<Rightarrow> Broken)"
| "next_status i (Effect j k r) st =
     (if i \<noteq> j then st else case st of Pending k' \<Rightarrow> if k = k' then Effected k r else Broken | _ \<Rightarrow> Broken)"
| "next_status i (Returned j k r) st =
     (if i \<noteq> j then st
      else case st of Effected k' r' \<Rightarrow> if k = k' \<and> r = r' then Quiet else Broken | _ \<Rightarrow> Broken)"

definition thread_status :: "nat \<Rightarrow> event list \<Rightarrow> status" where
  "thread_status i evs = fold (next_status i) evs Quiet"

section \<open>The invariant\<close>

fun holds_send :: "phase \<Rightarrow> bool" where
  "holds_send (EncLocked p) = True"
| "holds_send (EncChecked p) = True"
| "holds_send (EncSequence p n) = True"
| "holds_send (EncBuilt p packet) = True"
| "holds_send (EncAdding p packet n) = True"
| "holds_send (EncReleasing p r) = True"
| "holds_send _ = False"

fun holds_window :: "phase \<Rightarrow> bool" where
  "holds_window (DecLocked x env) = True"
| "holds_window (DecChecked x env) = True"
| "holds_window (DecOpened x env m) = True"
| "holds_window (DecAdded x env m) = True"
| "holds_window (DecHighest x env m) = True"
| "holds_window (DecReleasing x r) = True"
| "holds_window _ = False"

text \<open>The window that others would see in the middle of \<^verbatim>\<open>_record_unlocked\<close>.\<close>

fun pending_window :: "phase \<Rightarrow> ReplayWindow \<Rightarrow> ReplayWindow" where
  "pending_window (DecAdded x env m) w = record_add (the_int (env_sequence env)) w"
| "pending_window (DecHighest x env m) w =
     record_highest (the_int (env_sequence env)) (record_add (the_int (env_sequence env)) w)"
| "pending_window _ w = w"

text \<open>What a thread knows of the abstract session \<open>a\<close>, the result of the effects so far.\<close>

fun phase_ok :: "crypto \<Rightarrow> runtime \<Rightarrow> SessionState \<Rightarrow> phase \<Rightarrow> bool" where
  "phase_ok c rt a (EncWaiting p) = (length p \<le> MAX_PLAINTEXT_BYTES)"
| "phase_ok c rt a (EncLocked p) = (length p \<le> MAX_PLAINTEXT_BYTES)"
| "phase_ok c rt a (EncChecked p) =
     (length p \<le> MAX_PLAINTEXT_BYTES \<and> sequence_check a = Inr ())"
| "phase_ok c rt a (EncSequence p n) =
     (length p \<le> MAX_PLAINTEXT_BYTES \<and> sequence_check a = Inr () \<and> n = send_sequence a)"
| "phase_ok c rt a (EncBuilt p packet) =
     (length p \<le> MAX_PLAINTEXT_BYTES \<and> encrypt_packet c rt a p = Inr packet)"
| "phase_ok c rt a (EncAdding p packet n) =
     (length p \<le> MAX_PLAINTEXT_BYTES \<and> encrypt_packet c rt a p = Inr packet \<and> n = send_sequence a)"
| "phase_ok c rt a (DecWaiting x env) = (decrypt_input rt a x = Inr env)"
| "phase_ok c rt a (DecLocked x env) = (decrypt_input rt a x = Inr env)"
| "phase_ok c rt a (DecChecked x env) =
     (decrypt_input rt a x = Inr env \<and> check_unlocked (replay_window a) (env_sequence env) = Inr ())"
| "phase_ok c rt a (DecOpened x env m) =
     (decrypt_input rt a x = Inr env \<and> check_unlocked (replay_window a) (env_sequence env) = Inr () \<and>
      authenticate c rt a env = Inr m)"
| "phase_ok c rt a (DecAdded x env m) =
     (decrypt_input rt a x = Inr env \<and> check_unlocked (replay_window a) (env_sequence env) = Inr () \<and>
      authenticate c rt a env = Inr m)"
| "phase_ok c rt a (DecHighest x env m) =
     (decrypt_input rt a x = Inr env \<and> check_unlocked (replay_window a) (env_sequence env) = Inr () \<and>
      authenticate c rt a env = Inr m)"
| "phase_ok c rt a _ = True"

fun phase_status :: "phase \<Rightarrow> status" where
  "phase_status Idle = Quiet"
| "phase_status (Started k) = Pending k"
| "phase_status (EncWaiting p) = Pending (Encrypt (PBytes p))"
| "phase_status (EncLocked p) = Pending (Encrypt (PBytes p))"
| "phase_status (EncChecked p) = Pending (Encrypt (PBytes p))"
| "phase_status (EncSequence p n) = Pending (Encrypt (PBytes p))"
| "phase_status (EncBuilt p packet) = Pending (Encrypt (PBytes p))"
| "phase_status (EncAdding p packet n) = Pending (Encrypt (PBytes p))"
| "phase_status (EncReleasing p r) = Effected (Encrypt (PBytes p)) r"
| "phase_status (DecWaiting x env) = Pending (Decrypt x)"
| "phase_status (DecLocked x env) = Pending (Decrypt x)"
| "phase_status (DecChecked x env) = Pending (Decrypt x)"
| "phase_status (DecOpened x env m) = Pending (Decrypt x)"
| "phase_status (DecAdded x env m) = Pending (Decrypt x)"
| "phase_status (DecHighest x env m) = Pending (Decrypt x)"
| "phase_status (DecReleasing x r) = Effected (Decrypt x) r"
| "phase_status (Returning k r) = Effected k r"

definition visible_window :: "system \<Rightarrow> ReplayWindow \<Rightarrow> ReplayWindow" where
  "visible_window g w =
     (case window_lock g of None \<Rightarrow> w | Some j \<Rightarrow> pending_window (phases g j) w)"

definition locks_ok :: "system \<Rightarrow> bool" where
  "locks_ok g \<longleftrightarrow> (\<forall>i. send_lock g = Some i \<longleftrightarrow> holds_send (phases g i)) \<and>
     (\<forall>i. window_lock g = Some i \<longleftrightarrow> holds_window (phases g i))"

definition coherent :: "crypto \<Rightarrow> runtime \<Rightarrow> SessionState \<Rightarrow> SessionState \<Rightarrow> system \<Rightarrow> bool" where
  "coherent c rt s a g \<longleftrightarrow>
     perform_all c rt (map fst (effects g)) s = (map snd (effects g), a) \<and>
     shared g = a\<lparr>replay_window := visible_window g (replay_window a)\<rparr> \<and>
     locks_ok g \<and>
     (\<forall>i. phase_ok c rt a (phases g i)) \<and>
     (\<forall>i. thread_status i (events g) = phase_status (phases g i))"

text \<open>The two halves of a session do not meet.\<close>

lemma halves_apart [simp]:
  "sequence_check (a\<lparr>replay_window := w\<rparr>) = sequence_check a"
  "seal_packet c rt (a\<lparr>replay_window := w\<rparr>) n p = seal_packet c rt a n p"
  "decrypt_input rt (a\<lparr>replay_window := w\<rparr>) x = decrypt_input rt a x"
  "decrypt_input rt (a\<lparr>send_sequence := n\<rparr>) x = decrypt_input rt a x"
  "authenticate c rt (a\<lparr>replay_window := w\<rparr>) env = authenticate c rt a env"
  "authenticate c rt (a\<lparr>send_sequence := n\<rparr>) env = authenticate c rt a env"
  by (simp_all add: sequence_check_def seal_packet_def decrypt_input_def check_envelope_def
      authenticate_def)

lemma encrypt_packet_window [simp]:
  "encrypt_packet c rt (a\<lparr>replay_window := w\<rparr>) p = encrypt_packet c rt a p"
  by (simp add: encrypt_packet_split)

lemma phase_ok_send:
  "phase_ok c rt a ph \<Longrightarrow> \<not> holds_send ph \<Longrightarrow> phase_ok c rt (a\<lparr>send_sequence := n\<rparr>) ph"
  by (cases ph) simp_all

lemma phase_ok_window:
  "phase_ok c rt a ph \<Longrightarrow> \<not> holds_window ph \<Longrightarrow> phase_ok c rt (a\<lparr>replay_window := w\<rparr>) ph"
  by (cases ph) simp_all

lemma pending_window_free [simp]: "\<not> holds_window ph \<Longrightarrow> pending_window ph w = w"
  by (cases ph) simp_all

lemma thread_status_snoc [simp]:
  "thread_status i (evs @ [ev]) = next_status i ev (thread_status i evs)"
  by (simp add: thread_status_def)

text \<open>What the projections of a changed system are.\<close>

lemma effects_simps [simp]:
  "effects (move i ph g) = effects g"
  "effects (set_window w g) = effects g"
  "effects (g\<lparr>send_lock := l\<rparr>) = effects g"
  "effects (g\<lparr>window_lock := l\<rparr>) = effects g"
  "effects (g\<lparr>shared := x\<rparr>) = effects g"
  "effects (emit ev g) = effects g @ effect_of ev"
  by (simp_all add: effects_def move_def set_window_def emit_def)

lemma system_simps [simp]:
  "phases (move i ph g) = (phases g)(i := ph)" "shared (move i ph g) = shared g"
  "send_lock (move i ph g) = send_lock g" "window_lock (move i ph g) = window_lock g"
  "events (move i ph g) = events g"
  "phases (emit ev g) = phases g" "shared (emit ev g) = shared g"
  "send_lock (emit ev g) = send_lock g" "window_lock (emit ev g) = window_lock g"
  "events (emit ev g) = events g @ [ev]"
  "phases (set_window w g) = phases g" "shared (set_window w g) = (shared g)\<lparr>replay_window := w\<rparr>"
  "send_lock (set_window w g) = send_lock g" "window_lock (set_window w g) = window_lock g"
  "events (set_window w g) = events g"
  by (simp_all add: move_def emit_def set_window_def)

section \<open>Every statement keeps the invariant\<close>

lemma coherentD:
  assumes "coherent c rt s a g"
  shows "perform_all c rt (map fst (effects g)) s = (map snd (effects g), a)"
    and "shared g = a\<lparr>replay_window := visible_window g (replay_window a)\<rparr>"
    and "locks_ok g" and "\<And>j. phase_ok c rt a (phases g j)"
    and "\<And>j. thread_status j (events g) = phase_status (phases g j)"
  using assms by (simp_all add: coherent_def)

lemma locks_okD:
  assumes "locks_ok g"
  shows "send_lock g = Some i \<longleftrightarrow> holds_send (phases g i)"
    and "window_lock g = Some i \<longleftrightarrow> holds_window (phases g i)"
  using assms by (simp_all add: locks_ok_def)

text \<open>A statement that changes local variables only.\<close>

lemma coherent_local:
  assumes co: "coherent c rt s a g" and ph: "phase_ok c rt a ph"
    and same: "holds_send ph = holds_send (phases g i)" "holds_window ph = holds_window (phases g i)"
      "pending_window ph = pending_window (phases g i)" "phase_status ph = phase_status (phases g i)"
  shows "coherent c rt s a (move i ph g)"
proof -
  have "visible_window (move i ph g) w = visible_window g w" for w
    using same(3) by (auto simp: visible_window_def split: option.splits)
  moreover have "locks_ok (move i ph g)"
    using coherentD(3) [OF co] same(1,2) by (simp add: locks_ok_def)
  ultimately show ?thesis
    using coherentD [OF co] ph same(4) by (simp add: coherent_def)
qed

text \<open>A statement at which a call takes effect that leaves the session as it is: a failure.\<close>

lemma coherent_failure:
  assumes co: "coherent c rt s a g" and k: "phase_status (phases g i) = Pending k"
    and r: "perform c rt k a = (Inl e, a)" and ph: "phase_status ph = Effected k (Inl e)"
    and same: "holds_send ph = holds_send (phases g i)" "holds_window ph = holds_window (phases g i)"
      "pending_window ph = pending_window (phases g i)" "phase_ok c rt a ph"
  shows "coherent c rt s a (effect i k (Inl e) ph g)"
proof -
  let ?g = "effect i k (Inl e) ph g"
  have "visible_window ?g w = visible_window g w" for w
    using same(3) by (auto simp: visible_window_def effect_def split: option.splits)
  moreover have "locks_ok ?g"
    using coherentD(3) [OF co] same(1,2) by (simp add: locks_ok_def effect_def)
  moreover have "perform_all c rt (map fst (effects ?g)) s = (map snd (effects ?g), a)"
    using coherentD(1) [OF co] r by (simp add: perform_all_snoc effect_def)
  ultimately show ?thesis
    using coherentD [OF co] ph same(4) k by (simp add: coherent_def effect_def)
qed

text \<open>Taking and giving back a lock.\<close>

lemma coherent_locks:
  assumes co: "coherent c rt s a g" and ph: "phase_ok c rt a ph"
    and status: "phase_status ph = phase_status (phases g i)"
    and g': "shared g' = shared g" "phases g' = (phases g)(i := ph)" "events g' = events g"
    and locks: "locks_ok g'" and visible: "\<And>w. visible_window g' w = visible_window g w"
  shows "coherent c rt s a g'"
proof -
  have "effects g' = effects g" using g'(3) by (simp add: effects_def)
  then show ?thesis
    using coherentD [OF co] ph status g' locks visible by (simp add: coherent_def)
qed

lemma coherent_take_send:
  assumes co: "coherent c rt s a g" and p: "phases g i = EncWaiting p" and free: "send_lock g = None"
  shows "coherent c rt s a (move i (EncLocked p) (g\<lparr>send_lock := Some i\<rparr>))"
proof (rule coherent_locks [OF co, of "EncLocked p" i])
  show "phase_ok c rt a (EncLocked p)" using coherentD(4) [OF co, of i] p by simp
  have none: "\<not> holds_send (phases g j)" for j
    using locks_okD(1) [OF coherentD(3) [OF co], of j] free by simp
  have "window_lock g = Some j \<longleftrightarrow> holds_window (phases g j)" for j
    using locks_okD(2) [OF coherentD(3) [OF co]] .
  with none p show "locks_ok (move i (EncLocked p) (g\<lparr>send_lock := Some i\<rparr>))"
    by (auto simp: locks_ok_def)
  show "visible_window (move i (EncLocked p) (g\<lparr>send_lock := Some i\<rparr>)) w = visible_window g w" for w
    using p by (auto simp: visible_window_def split: option.splits)
qed (simp_all add: p)

lemma coherent_drop_send:
  assumes co: "coherent c rt s a g" and p: "phases g i = EncReleasing p r"
  shows "coherent c rt s a (move i (Returning (Encrypt (PBytes p)) r) (g\<lparr>send_lock := None\<rparr>))"
proof (rule coherent_locks [OF co, of "Returning (Encrypt (PBytes p)) r" i])
  have own: "send_lock g = Some i"
    using locks_okD(1) [OF coherentD(3) [OF co], of i] p by simp
  have "holds_send (phases g j) \<Longrightarrow> j = i" for j
    using locks_okD(1) [OF coherentD(3) [OF co], of j] own by simp
  moreover have "window_lock g = Some j \<longleftrightarrow> holds_window (phases g j)" for j
    using locks_okD(2) [OF coherentD(3) [OF co]] .
  ultimately show "locks_ok (move i (Returning (Encrypt (PBytes p)) r) (g\<lparr>send_lock := None\<rparr>))"
    using p by (auto simp: locks_ok_def)
  show "visible_window (move i (Returning (Encrypt (PBytes p)) r) (g\<lparr>send_lock := None\<rparr>)) w =
      visible_window g w" for w
    using p by (auto simp: visible_window_def split: option.splits)
qed (simp_all add: p)

lemma coherent_take_window:
  assumes co: "coherent c rt s a g" and p: "phases g i = DecWaiting x env" and free: "window_lock g = None"
  shows "coherent c rt s a (move i (DecLocked x env) (g\<lparr>window_lock := Some i\<rparr>))"
proof (rule coherent_locks [OF co, of "DecLocked x env" i])
  show "phase_ok c rt a (DecLocked x env)" using coherentD(4) [OF co, of i] p by simp
  have none: "\<not> holds_window (phases g j)" for j
    using locks_okD(2) [OF coherentD(3) [OF co], of j] free by simp
  have "send_lock g = Some j \<longleftrightarrow> holds_send (phases g j)" for j
    using locks_okD(1) [OF coherentD(3) [OF co]] .
  with none p show "locks_ok (move i (DecLocked x env) (g\<lparr>window_lock := Some i\<rparr>))"
    by (auto simp: locks_ok_def)
  show "visible_window (move i (DecLocked x env) (g\<lparr>window_lock := Some i\<rparr>)) w = visible_window g w" for w
    using free by (simp add: visible_window_def)
qed (simp_all add: p)

lemma coherent_drop_window:
  assumes co: "coherent c rt s a g" and p: "phases g i = DecReleasing x r"
  shows "coherent c rt s a (move i (Returning (Decrypt x) r) (g\<lparr>window_lock := None\<rparr>))"
proof (rule coherent_locks [OF co, of "Returning (Decrypt x) r" i])
  have own: "window_lock g = Some i"
    using locks_okD(2) [OF coherentD(3) [OF co], of i] p by simp
  have "holds_window (phases g j) \<Longrightarrow> j = i" for j
    using locks_okD(2) [OF coherentD(3) [OF co], of j] own by simp
  moreover have "send_lock g = Some j \<longleftrightarrow> holds_send (phases g j)" for j
    using locks_okD(1) [OF coherentD(3) [OF co]] .
  ultimately show "locks_ok (move i (Returning (Decrypt x) r) (g\<lparr>window_lock := None\<rparr>))"
    using p by (auto simp: locks_ok_def)
  show "visible_window (move i (Returning (Decrypt x) r) (g\<lparr>window_lock := None\<rparr>)) w =
      visible_window g w" for w
    using own p by (simp add: visible_window_def)
qed (simp_all add: p)

text \<open>The call and its return.\<close>

lemma coherent_call:
  assumes co: "coherent c rt s a g" and p: "phases g i = Idle"
  shows "coherent c rt s a (emit (Called i k) (move i (Started k) g))"
proof -
  have "visible_window (emit (Called i k) (move i (Started k) g)) w = visible_window g w" for w
    using p by (auto simp: visible_window_def split: option.splits)
  moreover have "locks_ok (emit (Called i k) (move i (Started k) g))"
    using coherentD(3) [OF co] p by (simp add: locks_ok_def)
  ultimately show ?thesis
    using coherentD [OF co] p by (simp add: coherent_def)
qed

lemma coherent_return:
  assumes co: "coherent c rt s a g" and p: "phases g i = Returning k r"
  shows "coherent c rt s a (emit (Returned i k r) (move i Idle g))"
proof -
  have "visible_window (emit (Returned i k r) (move i Idle g)) w = visible_window g w" for w
    using p by (auto simp: visible_window_def split: option.splits)
  moreover have "locks_ok (emit (Returned i k r) (move i Idle g))"
    using coherentD(3) [OF co] p by (simp add: locks_ok_def)
  ultimately show ?thesis
    using coherentD [OF co] p by (simp add: coherent_def)
qed

text \<open>The moment at which a packet is sent: the new counter is written.\<close>

lemma coherent_sent:
  assumes co: "coherent c rt s a g" and p: "phases g i = EncAdding p packet n"
  shows "coherent c rt s (a\<lparr>send_sequence := n + 1\<rparr>)
    (effect i (Encrypt (PBytes p)) (Inr packet) (EncReleasing p (Inr packet))
       (g\<lparr>shared := (shared g)\<lparr>send_sequence := n + 1\<rparr>\<rparr>))" (is "coherent c rt s ?a ?g")
proof -
  have ok: "length p \<le> MAX_PLAINTEXT_BYTES" "encrypt_packet c rt a p = Inr packet" "n = send_sequence a"
    using coherentD(4) [OF co, of i] p by simp_all
  have own: "send_lock g = Some i"
    using locks_okD(1) [OF coherentD(3) [OF co], of i] p by simp
  have others: "phase_ok c rt ?a (phases g j)" if "j \<noteq> i" for j
    using that own locks_okD(1) [OF coherentD(3) [OF co], of j] coherentD(4) [OF co, of j]
    by (simp add: phase_ok_send)
  have "perform c rt (Encrypt (PBytes p)) a = (Inr packet, ?a)"
    using ok by (simp add: perform_def encrypt_def)
  then have "perform_all c rt (map fst (effects ?g)) s = (map snd (effects ?g), ?a)"
    using coherentD(1) [OF co] by (simp add: perform_all_snoc effect_def)
  moreover have "locks_ok ?g"
    using coherentD(3) [OF co] p by (simp add: locks_ok_def effect_def)
  moreover have "visible_window ?g w = visible_window g w" for w
    using p by (auto simp: visible_window_def effect_def split: option.splits)
  ultimately show ?thesis
    using coherentD(2,5) [OF co] others p by (simp add: coherent_def effect_def)
qed

text \<open>The first two assignments of \<^verbatim>\<open>_record_unlocked\<close>, which nobody else sees.\<close>

lemma coherent_record:
  assumes co: "coherent c rt s a g" and own: "window_lock g = Some i"
    and ph: "phase_ok c rt a ph" "holds_window ph" "phase_status ph = phase_status (phases g i)"
    and w: "w = pending_window ph (replay_window a)"
  shows "coherent c rt s a (move i ph (set_window w g))"
proof -
  have "holds_window (phases g i)"
    using locks_okD(2) [OF coherentD(3) [OF co], of i] own by simp
  moreover have "holds_window q \<Longrightarrow> \<not> holds_send q" for q
    by (cases q) simp_all
  ultimately have "locks_ok (move i ph (set_window w g))"
    using coherentD(3) [OF co] ph(2) by (simp add: locks_ok_def)
  moreover have "visible_window (move i ph (set_window w g)) (replay_window a) = w"
    using own w by (simp add: visible_window_def)
  ultimately show ?thesis
    using coherentD [OF co] ph by (simp add: coherent_def)
qed

text \<open>The moment at which a message is accepted: the pruned window is written.\<close>

lemma decrypt_accepts:
  assumes "decrypt_input rt a x = Inr env" "authenticate c rt a env = Inr m"
    and "check_unlocked (replay_window a) (env_sequence env) = Inr ()"
  shows "decrypt c rt x a =
    (Inr m, a\<lparr>replay_window := record_unlocked (replay_window a) (the_int (env_sequence env))\<rparr>)"
  using assms by (simp add: decrypt_def decrypt_input_def authenticate_and_record_def)

lemma coherent_accepted:
  assumes co: "coherent c rt s a g" and p: "phases g i = DecHighest x env m"
  shows "\<exists>a'. coherent c rt s a'
    (effect i (Decrypt x) (Inr m) (DecReleasing x (Inr m))
       (set_window (record_prune (replay_window (shared g))) g))" (is "\<exists>a'. coherent c rt s a' ?g")
proof
  let ?w = "record_unlocked (replay_window a) (the_int (env_sequence env))"
  let ?a = "a\<lparr>replay_window := ?w\<rparr>"
  have ok: "decrypt_input rt a x = Inr env" "authenticate c rt a env = Inr m"
    "check_unlocked (replay_window a) (env_sequence env) = Inr ()"
    using coherentD(4) [OF co, of i] p by simp_all
  have own: "window_lock g = Some i"
    using locks_okD(2) [OF coherentD(3) [OF co], of i] p by simp
  have others: "phase_ok c rt ?a (phases g j)" if "j \<noteq> i" for j
    using that own locks_okD(2) [OF coherentD(3) [OF co], of j] coherentD(4) [OF co, of j]
    by (simp add: phase_ok_window)
  have "perform c rt (Decrypt x) a = (Inr m, ?a)"
    using decrypt_accepts [OF ok] by (simp add: perform_def)
  then have "perform_all c rt (map fst (effects ?g)) s = (map snd (effects ?g), ?a)"
    using coherentD(1) [OF co] by (simp add: perform_all_snoc effect_def)
  moreover have "locks_ok ?g"
    using coherentD(3) [OF co] p by (simp add: locks_ok_def effect_def)
  moreover have "visible_window ?g w = w" for w
    using own by (simp add: visible_window_def effect_def)
  moreover have "record_prune (replay_window (shared g)) = ?w"
    using coherentD(2) [OF co] own p by (simp add: visible_window_def record_unlocked_split)
  ultimately show "coherent c rt s ?a ?g"
    using coherentD(2,5) [OF co] others p by (simp add: coherent_def effect_def)
qed

text \<open>The failures of the two calls, at each of their checks.\<close>

lemma encrypt_failures:
  "encrypt_input x = Inl e \<Longrightarrow> perform c rt (Encrypt x) a = (Inl e, a)"
  "length p \<le> MAX_PLAINTEXT_BYTES \<Longrightarrow> encrypt_packet c rt a p = Inl e \<Longrightarrow>
     perform c rt (Encrypt (PBytes p)) a = (Inl e, a)"
  by (auto simp: perform_def encrypt_def encrypt_input_def split: pyval.splits if_splits)

lemma encrypt_input_Inr:
  "encrypt_input x = Inr p \<longleftrightarrow> x = PBytes p \<and> length p \<le> MAX_PLAINTEXT_BYTES"
  by (auto simp: encrypt_input_def split: pyval.splits)

lemma decrypt_failures:
  "decrypt_input rt a x = Inl e \<Longrightarrow> perform c rt (Decrypt x) a = (Inl e, a)"
  "decrypt_input rt a x = Inr env \<Longrightarrow>
     check_unlocked (replay_window a) (env_sequence env) = Inl e \<Longrightarrow>
     perform c rt (Decrypt x) a = (Inl e, a)"
  "decrypt_input rt a x = Inr env \<Longrightarrow>
     check_unlocked (replay_window a) (env_sequence env) = Inr () \<Longrightarrow>
     authenticate c rt a env = Inl e \<Longrightarrow> perform c rt (Decrypt x) a = (Inl e, a)"
  by (simp_all add: perform_def decrypt_def decrypt_input_def authenticate_and_record_def)

lemma shared_in_window:
  assumes "coherent c rt s a g" "window_lock g = Some i"
  shows "replay_window (shared g) = pending_window (phases g i) (replay_window a)"
  using coherentD(2) [OF assms(1)] assms(2) by (simp add: visible_window_def)

lemma shared_halves:
  assumes "coherent c rt s a g"
  shows "send_sequence (shared g) = send_sequence a" "sequence_check (shared g) = sequence_check a"
    "seal_packet c rt (shared g) n p = seal_packet c rt a n p"
    "decrypt_input rt (shared g) x = decrypt_input rt a x"
    "authenticate c rt (shared g) env = authenticate c rt a env"
  using coherentD(2) [OF assms] by simp_all

lemma advance_send:
  assumes co: "coherent c rt s a g" and p: "holds_send (phases g i)"
    and g': "advance c rt i (phases g i) g = Some g'"
  shows "\<exists>a'. coherent c rt s a' g'"
proof (cases "phases g i")
  case (EncLocked p)
  have len: "length p \<le> MAX_PLAINTEXT_BYTES" using coherentD(4) [OF co, of i] EncLocked by simp
  show ?thesis
  proof (cases "sequence_check a")
    case (Inl e)
    then have "g' = effect i (Encrypt (PBytes p)) (Inl e) (EncReleasing p (Inl e)) g"
      using g' EncLocked by (simp add: shared_halves [OF co])
    moreover have "perform c rt (Encrypt (PBytes p)) a = (Inl e, a)"
      using Inl by (intro encrypt_failures(2) len) (simp add: encrypt_packet_split)
    ultimately show ?thesis
      using EncLocked by (auto intro!: exI [of _ a] coherent_failure [OF co])
  next
    case (Inr u)
    then show ?thesis
      using g' EncLocked len by (auto simp: shared_halves [OF co] intro!: exI [of _ a] coherent_local [OF co])
  qed
next
  case (EncSequence p n)
  have ok: "length p \<le> MAX_PLAINTEXT_BYTES" "sequence_check a = Inr ()" "n = send_sequence a"
    using coherentD(4) [OF co, of i] EncSequence by simp_all
  show ?thesis
  proof (cases "seal_packet c rt a n p")
    case (Inl e)
    then have "g' = effect i (Encrypt (PBytes p)) (Inl e) (EncReleasing p (Inl e)) g"
      using g' EncSequence by (simp add: shared_halves [OF co])
    moreover have "perform c rt (Encrypt (PBytes p)) a = (Inl e, a)"
      using Inl ok by (intro encrypt_failures(2) ok) (simp add: encrypt_packet_split)
    ultimately show ?thesis
      using EncSequence by (auto intro!: exI [of _ a] coherent_failure [OF co])
  next
    case (Inr packet)
    then show ?thesis
      using g' EncSequence ok
      by (auto simp: shared_halves [OF co] encrypt_packet_split intro!: exI [of _ a] coherent_local [OF co])
  qed
next
  case (EncChecked p)
  then show ?thesis
    using g' coherentD(4) [OF co, of i]
    by (auto simp: shared_halves [OF co] intro!: exI [of _ a] coherent_local [OF co])
next
  case (EncBuilt p packet)
  then show ?thesis
    using g' coherentD(4) [OF co, of i]
    by (auto simp: shared_halves [OF co] intro!: exI [of _ a] coherent_local [OF co])
next
  case (EncAdding p packet n)
  then show ?thesis using g' coherent_sent [OF co EncAdding] by auto
next
  case (EncReleasing p r)
  then show ?thesis using g' coherent_drop_send [OF co EncReleasing] by auto
qed (use p in simp_all)

lemma advance_window:
  assumes co: "coherent c rt s a g" and p: "holds_window (phases g i)"
    and g': "advance c rt i (phases g i) g = Some g'"
  shows "\<exists>a'. coherent c rt s a' g'"
proof -
  have own: "window_lock g = Some i"
    using locks_okD(2) [OF coherentD(3) [OF co], of i] p by simp
  note window = shared_in_window [OF co own]
  show ?thesis
  proof (cases "phases g i")
    case (DecLocked x env)
    have ok: "decrypt_input rt a x = Inr env" using coherentD(4) [OF co, of i] DecLocked by simp
    show ?thesis
    proof (cases "check_unlocked (replay_window a) (env_sequence env)")
      case (Inl e)
      then have "g' = effect i (Decrypt x) (Inl e) (DecReleasing x (Inl e)) g"
        using g' DecLocked window by simp
      then show ?thesis
        using DecLocked by (auto intro!: exI [of _ a] coherent_failure [OF co _ decrypt_failures(2) [OF ok Inl]])
    next
      case (Inr u)
      then show ?thesis
        using g' DecLocked window ok by (auto intro!: exI [of _ a] coherent_local [OF co])
    qed
  next
    case (DecChecked x env)
    have ok: "decrypt_input rt a x = Inr env"
      "check_unlocked (replay_window a) (env_sequence env) = Inr ()"
      using coherentD(4) [OF co, of i] DecChecked by simp_all
    show ?thesis
    proof (cases "authenticate c rt a env")
      case (Inl e)
      then have "g' = effect i (Decrypt x) (Inl e) (DecReleasing x (Inl e)) g"
        using g' DecChecked by (simp add: shared_halves [OF co])
      then show ?thesis
        using DecChecked by (auto intro!: exI [of _ a] coherent_failure [OF co _ decrypt_failures(3) [OF ok Inl]])
    next
      case (Inr m)
      then show ?thesis
        using g' DecChecked ok
        by (auto simp: shared_halves [OF co] intro!: exI [of _ a] coherent_local [OF co])
    qed
  next
    case (DecOpened x env m)
    then show ?thesis
      using g' window coherentD(4) [OF co, of i] coherent_record [OF co own, of "DecAdded x env m"]
      by auto
  next
    case (DecAdded x env m)
    then show ?thesis
      using g' window coherentD(4) [OF co, of i] coherent_record [OF co own, of "DecHighest x env m"]
      by auto
  next
    case (DecHighest x env m)
    then show ?thesis using g' coherent_accepted [OF co DecHighest] by auto
  next
    case (DecReleasing x r)
    then show ?thesis using g' coherent_drop_window [OF co DecReleasing] by auto
  qed (use p in simp_all)
qed

lemma advance_coherent:
  assumes co: "coherent c rt s a g" and g': "advance c rt i (phases g i) g = Some g'"
  shows "\<exists>a'. coherent c rt s a' g'"
proof (cases "holds_send (phases g i) \<or> holds_window (phases g i)")
  case True
  then show ?thesis using advance_send [OF co _ g'] advance_window [OF co _ g'] by blast
next
  case False
  show ?thesis
  proof (cases "phases g i")
    case (Started k)
    show ?thesis
    proof (cases k)
      case (Encrypt x)
      show ?thesis
      proof (cases "encrypt_input x")
        case (Inl e)
        then have "g' = effect i (Encrypt x) (Inl e) (Returning (Encrypt x) (Inl e)) g"
          using g' Started Encrypt by simp
        then show ?thesis
          using Started Encrypt by (auto intro!: exI [of _ a] coherent_failure [OF co _ encrypt_failures(1) [OF Inl]])
      next
        case (Inr p)
        then have "g' = move i (EncWaiting p) g" using g' Started Encrypt by simp
        then show ?thesis
          using Started Encrypt Inr [unfolded encrypt_input_Inr]
          by (auto intro!: exI [of _ a] coherent_local [OF co])
      qed
    next
      case (Decrypt x)
      show ?thesis
      proof (cases "decrypt_input rt a x")
        case (Inl e)
        then have "g' = effect i (Decrypt x) (Inl e) (Returning (Decrypt x) (Inl e)) g"
          using g' Started Decrypt by (simp add: shared_halves [OF co])
        then show ?thesis
          using Started Decrypt by (auto intro!: exI [of _ a] coherent_failure [OF co _ decrypt_failures(1) [OF Inl]])
      next
        case (Inr env)
        then show ?thesis
          using g' Started Decrypt
          by (auto simp: shared_halves [OF co] intro!: exI [of _ a] coherent_local [OF co])
      qed
    qed
  next
    case (EncWaiting p)
    then show ?thesis
      using g' coherent_take_send [OF co EncWaiting] by (auto split: if_splits)
  next
    case (DecWaiting x env)
    then show ?thesis
      using g' coherent_take_window [OF co DecWaiting] by (auto split: if_splits)
  next
    case (Returning k r)
    then show ?thesis using g' coherent_return [OF co Returning] by auto
  qed (use False g' in simp_all)
qed

lemma initial_coherent: "coherent c rt s s (initial_system s)"
  by (simp add: coherent_def initial_system_def effects_def locks_ok_def visible_window_def
      thread_status_def)

lemma reachable_coherent: "reachable c rt s g \<Longrightarrow> \<exists>a. coherent c rt s a g"
proof (induction rule: reachable.induct)
  case start
  show ?case by (rule exI, rule initial_coherent)
next
  case (more g i g')
  then obtain a where co: "coherent c rt s a g" by blast
  from more.hyps(2) show ?case
    by (cases rule: thread_stepE) (auto intro: coherent_call [OF co] dest: advance_coherent [OF co])
qed

section \<open>No call waits for ever\<close>

text \<open>The statements that a call has left at most.\<close>

fun rank :: "phase \<Rightarrow> nat" where
  "rank Idle = 0"
| "rank (Started k) = 9"
| "rank (EncWaiting p) = 8"
| "rank (EncLocked p) = 7"
| "rank (EncChecked p) = 6"
| "rank (EncSequence p n) = 5"
| "rank (EncBuilt p packet) = 4"
| "rank (EncAdding p packet n) = 3"
| "rank (EncReleasing p r) = 2"
| "rank (DecWaiting x env) = 8"
| "rank (DecLocked x env) = 7"
| "rank (DecChecked x env) = 6"
| "rank (DecOpened x env m) = 5"
| "rank (DecAdded x env m) = 4"
| "rank (DecHighest x env m) = 3"
| "rank (DecReleasing x r) = 2"
| "rank (Returning k r) = 1"

lemma rank_le: "rank ph \<le> 9" and rank_0: "rank ph = 0 \<longleftrightarrow> ph = Idle"
  by (cases ph; simp)+

definition busy :: "system \<Rightarrow> nat set" where
  "busy g = {i. phases g i \<noteq> Idle}"

definition work :: "system \<Rightarrow> nat" where
  "work g = (\<Sum>i\<in>busy g. rank (phases g i))"

text \<open>A statement of a thread moves that thread on, and nobody else.\<close>

lemma advance_moves:
  assumes "advance c rt i ph g = Some g'" "phases g i = ph"
  shows "\<exists>ph'. phases g' = (phases g)(i := ph') \<and> rank ph' < rank ph"
  using assms
  by (cases "(c, rt, i, ph, g)" rule: advance.cases)
    (auto simp: effect_def split: sum.splits if_splits)

lemma work_decreases:
  assumes g': "advance c rt i (phases g i) g = Some g'" and fin: "finite (busy g)"
  shows "work g' < work g \<and> finite (busy g')"
proof -
  obtain ph where ph: "phases g' = (phases g)(i := ph)" "rank ph < rank (phases g i)"
    using advance_moves [OF g' refl] by blast
  have sub: "busy g' \<subseteq> insert i (busy g)" by (auto simp: busy_def ph)
  have sum: "work h = (\<Sum>j\<in>insert i (busy g). rank (phases h j))" if "busy h \<subseteq> insert i (busy g)" for h
    unfolding work_def using that fin
    by (intro sum.mono_neutral_left) (auto simp: busy_def rank_0)
  have "work g' < work g"
    unfolding sum [OF sub] sum [OF subset_insertI]
    using fin ph by (intro sum_strict_mono_ex1) (auto intro: less_imp_le)
  then show ?thesis using sub fin finite_subset by blast
qed

lemma reachable_finite: "reachable c rt s g \<Longrightarrow> finite (busy g)"
proof (induction rule: reachable.induct)
  case start
  show ?case by (simp add: busy_def initial_system_def)
next
  case (more g i g')
  from more.hyps(2) show ?case
  proof (cases rule: thread_step.cases)
    case (call k)
    have "busy g' \<subseteq> insert i (busy g)" by (auto simp: busy_def call)
    then show ?thesis using more.IH finite_subset by blast
  next
    case run
    show ?thesis using work_decreases [OF run more.IH] by blast
  qed
qed

text \<open>Somebody can always move: the owner of a lock never waits for another.\<close>

fun waits :: "phase \<Rightarrow> bool" where
  "waits (EncWaiting p) = True"
| "waits (DecWaiting x env) = True"
| "waits _ = False"

lemma advance_enabled:
  "ph \<noteq> Idle \<Longrightarrow> \<not> waits ph \<Longrightarrow> \<exists>g'. advance c rt i ph g = Some g'"
  by (cases "(c, rt, i, ph, g)" rule: advance.cases) (auto split: sum.splits)

lemma holder_enabled:
  "holds_send ph \<or> holds_window ph \<Longrightarrow> ph \<noteq> Idle \<and> \<not> waits ph"
  by (cases ph) simp_all

lemma some_thread_moves:
  assumes co: "coherent c rt s a g" and i: "phases g i \<noteq> Idle"
  shows "\<exists>j g'. advance c rt j (phases g j) g = Some g'"
proof -
  have owner: "\<exists>j g'. advance c rt j (phases g j) g = Some g'"
    if "send_lock g = Some j \<or> window_lock g = Some j" for j
    using that locks_okD [OF coherentD(3) [OF co], of j] holder_enabled advance_enabled by blast
  show ?thesis
  proof (cases "waits (phases g i)")
    case False
    then show ?thesis using advance_enabled [OF i] by blast
  next
    case True
    then have "(\<exists>g'. advance c rt i (phases g i) g = Some g') \<or> send_lock g \<noteq> None \<or> window_lock g \<noteq> None"
      by (cases "phases g i") auto
    with owner show ?thesis by blast
  qed
qed

text \<open>Runs of statements without new calls.\<close>

inductive runs :: "crypto \<Rightarrow> runtime \<Rightarrow> nat \<Rightarrow> system \<Rightarrow> system \<Rightarrow> bool" for c rt where
  finished: "runs c rt 0 g g"
| statement: "advance c rt i (phases g i) g = Some g' \<Longrightarrow> runs c rt n g' g'' \<Longrightarrow> runs c rt (Suc n) g g''"

lemma runs_bounded:
  "runs c rt n g g' \<Longrightarrow> finite (busy g) \<Longrightarrow> n + work g' \<le> work g"
proof (induction rule: runs.induct)
  case (statement i g g' n g'')
  then show ?case using work_decreases [OF statement.hyps(1) statement.prems] by simp
qed simp

lemma runs_reachable: "runs c rt n g g' \<Longrightarrow> reachable c rt s g \<Longrightarrow> reachable c rt s g'"
  by (induction rule: runs.induct) (auto intro: reachable.more thread_step.run)

lemma runs_to_the_end:
  assumes "reachable c rt s g"
  shows "\<exists>n g'. runs c rt n g g' \<and> (\<forall>i. phases g' i = Idle)"
  using assms
proof (induction "work g" arbitrary: g rule: less_induct)
  case less
  show ?case
  proof (cases "\<exists>i. phases g i \<noteq> Idle")
    case False
    then show ?thesis using runs.finished [of c rt g] by blast
  next
    case True
    obtain a where "coherent c rt s a g" using reachable_coherent [OF less.prems] by blast
    with True obtain j g' where g': "advance c rt j (phases g j) g = Some g'"
      using some_thread_moves by blast
    have "reachable c rt s g'" using less.prems g' by (blast intro: reachable.more thread_step.run)
    moreover have "work g' < work g" using work_decreases [OF g' reachable_finite [OF less.prems]] by blast
    ultimately obtain n g'' where "runs c rt n g' g''" "\<forall>i. phases g'' i = Idle"
      using less.hyps by blast
    then show ?thesis using runs.statement [OF g'] by blast
  qed
qed

lemma work_le: "finite (busy g) \<Longrightarrow> work g \<le> 9 * card (busy g)"
  using sum_bounded_above [of "busy g" "\<lambda>i. rank (phases g i)" 9] by (simp add: work_def rank_le)

section \<open>The two directions of the calls\<close>

fun sent_by :: "operation \<times> bytes res \<Rightarrow> (pyval \<times> bytes res) list" where
  "sent_by (Encrypt x, r) = [(x, r)]"
| "sent_by (Decrypt x, r) = []"

fun received_by :: "operation \<times> bytes res \<Rightarrow> (pyval \<times> bytes res) list" where
  "received_by (Encrypt x, r) = []"
| "received_by (Decrypt x, r) = [(x, r)]"

definition sent :: "system \<Rightarrow> (pyval \<times> bytes res) list" where
  "sent g = concat (map sent_by (effects g))"

definition received :: "system \<Rightarrow> (pyval \<times> bytes res) list" where
  "received g = concat (map received_by (effects g))"

lemma encrypt_window:
  "fst (encrypt c rt x (a\<lparr>replay_window := w\<rparr>)) = fst (encrypt c rt x a)"
  "snd (encrypt c rt x (a\<lparr>replay_window := w\<rparr>)) = (snd (encrypt c rt x a))\<lparr>replay_window := w\<rparr>"
  by (simp_all add: encrypt_def split: pyval.splits sum.splits)

lemma encrypt_all_window [simp]:
  "fst (encrypt_all c rt xs (a\<lparr>replay_window := w\<rparr>)) = fst (encrypt_all c rt xs a)"
  by (induction xs arbitrary: a) (simp_all add: encrypt_window)

lemma blob_attempt_sequence_free [simp]:
  "blob_attempt c rt (a\<lparr>send_sequence := n\<rparr>) x = blob_attempt c rt a x"
  by (simp add: blob_attempt_def check_envelope_def authenticate_def)

lemma decrypt_sequence:
  "fst (decrypt c rt x (a\<lparr>send_sequence := n\<rparr>)) = fst (decrypt c rt x a)"
  "snd (decrypt c rt x (a\<lparr>send_sequence := n\<rparr>)) = (snd (decrypt c rt x a))\<lparr>send_sequence := n\<rparr>"
  by (simp_all add: decrypt_attempt split: sum.splits)

lemma decrypt_all_sequence [simp]:
  "decrypt_all c rt xs (a\<lparr>send_sequence := n\<rparr>) = decrypt_all c rt xs a"
  by (induction xs arbitrary: a) (simp_all add: decrypt_sequence)

lemma decrypt_keeps_sender:
  "fst (encrypt_all c rt xs (snd (decrypt c rt x a))) = fst (encrypt_all c rt xs a)"
  by (cases "blob_attempt c rt a x") (simp_all add: decrypt_attempt)

lemma encrypt_keeps_receiver:
  "decrypt_all c rt xs (snd (encrypt c rt x a)) = decrypt_all c rt xs a"
  by (rule encrypt_cases [of c rt x a]) simp_all

lemma perform_all_directions:
  assumes "map snd es = fst (perform_all c rt (map fst es) s)"
  shows "map snd (concat (map sent_by es)) = fst (encrypt_all c rt (map fst (concat (map sent_by es))) s)"
    and "map snd (concat (map received_by es)) = decrypt_all c rt (map fst (concat (map received_by es))) s"
  using assms
proof (induction es arbitrary: s)
  case (Cons e es)
  obtain k r where e: "e = (k, r)" by (cases e)
  {
    case 1
    then show ?case
      using Cons.IH(1) by (cases k) (simp_all add: e perform_def decrypt_keeps_sender)
  next
    case 2
    then show ?case
      using Cons.IH(2) by (cases k) (simp_all add: e perform_def encrypt_keeps_receiver)
  }
qed simp_all

section \<open>Runs of a given schedule\<close>

text \<open>
  A schedule names the thread of each step, with the call that it makes when it is idle.
\<close>

fun schedule :: "crypto \<Rightarrow> runtime \<Rightarrow> (nat \<times> operation option) list \<Rightarrow> system \<Rightarrow> system option" where
  "schedule c rt [] g = Some g"
| "schedule c rt ((i, None) # xs) g =
     (case advance c rt i (phases g i) g of None \<Rightarrow> None | Some g' \<Rightarrow> schedule c rt xs g')"
| "schedule c rt ((i, Some k) # xs) g =
     (case phases g i of Idle \<Rightarrow> schedule c rt xs (emit (Called i k) (move i (Started k) g)) | _ \<Rightarrow> None)"

lemma schedule_reachable:
  "schedule c rt xs g = Some g' \<Longrightarrow> reachable c rt s g \<Longrightarrow> reachable c rt s g'"
  by (induction c rt xs g rule: schedule.induct)
    (auto split: option.splits phase.splits intro: reachable.more thread_step.intros)

text \<open>Two threads that race for the send lock while a third one receives rubbish.\<close>

definition race :: "(nat \<times> operation option) list" where
  "race = [(0, Some (Encrypt (PBytes [1]))), (1, Some (Encrypt (PBytes [2]))), (0, None), (1, None),
     (2, Some (Decrypt (PBytes []))), (1, None), (2, None), (1, None), (1, None), (2, None)]"

definition raced :: "system" where
  "raced = initial_system sample_session
     \<lparr>send_lock := Some 1,
      phases := (\<lambda>_. Idle)(0 := EncWaiting [1], 1 := EncSequence [2] 0, 2 := Idle),
      events := [Called 0 (Encrypt (PBytes [1])), Called 1 (Encrypt (PBytes [2])),
        Called 2 (Decrypt (PBytes [])),
        Effect 2 (Decrypt (PBytes [])) (Inl (envelope_error (lit ''message envelope input must not be empty''))),
        Returned 2 (Decrypt (PBytes [])) (Inl (envelope_error (lit ''message envelope input must not be empty'')))]\<rparr>"

lemma sample_sequence_check: "sequence_check sample_session = Inr ()"
  by (simp add: sequence_check_def sample_session_def make_session_def validate_message_sequence_def
      MAX_MESSAGE_SEQUENCE_def)

lemma race_run: "schedule toy_crypto sample_runtime race (initial_system sample_session) = Some raced"
  by (simp add: race_def raced_def initial_system_def encrypt_input_def decrypt_input_def
      envelope_from_bytes_def MAX_PLAINTEXT_BYTES_def move_def emit_def effect_def
      sample_sequence_check sample_sessions(3) fun_upd_twist)

lemma raced_reachable: "reachable toy_crypto sample_runtime sample_session raced"
  by (rule schedule_reachable [OF race_run reachable.start])

text \<open>The thread that holds the lock goes on until its packet is sent.\<close>

lemma raced_on:
  obtains g q where "reachable toy_crypto sample_runtime sample_session g"
    "sent g = [(PBytes [2], Inr q)]"
proof -
  have "plaintext_ok (suite sample_session) [2]"
    by (simp add: plaintext_ok_def protocol_constants sample_sessions(5))
  then obtain q where "encrypt_packet toy_crypto sample_runtime sample_session [2] = Inr q"
    using encrypt_packet_works [OF toy_crypto_correct sample_runtime_ok sample_sessions(1) _ _ _ sample_sessions(2)]
    by (auto simp: sample_sessions MAX_MESSAGE_SEQUENCE_def)
  then have q: "seal_packet toy_crypto sample_runtime sample_session 0 [2] = Inr q"
    by (simp add: encrypt_packet_split sample_sequence_check sample_sessions(3))
  let ?xs = "[(1, None), (1, None), (1, None)] :: (nat \<times> operation option) list"
  have shared: "shared raced = sample_session" and phase: "phases raced (Suc 0) = EncSequence [2] 0"
    and effects: "\<exists>e. effects raced = [(Decrypt (PBytes []), Inl e)]"
    by (simp_all add: raced_def initial_system_def effects_def)
  have "\<exists>g. schedule toy_crypto sample_runtime ?xs raced = Some g \<and> sent g = [(PBytes [2], Inr q)]"
    using effects by (auto simp: phase shared q effect_def sent_def)
  then show thesis using schedule_reachable [OF _ raced_reachable] that by blast
qed

section \<open>Properties\<close>

text \<open>
  C5. The locks make the session linearizable: in every state that any interleaving of any number
  of threads reaches, the calls that have taken effect have the results of performing them one
  after another in the order of their effects, every call takes effect exactly once between its
  start and its return and returns what it did then, at most one thread is inside each lock, and
  when no call is running the session is the one that the sequence of calls leaves.
\<close>

theorem calls_linearizable:
  assumes "reachable c rt s g"
  shows "map snd (effects g) = fst (perform_all c rt (map fst (effects g)) s) \<and>
    (\<forall>i. thread_status i (events g) = phase_status (phases g i) \<and>
         thread_status i (events g) \<noteq> Broken) \<and>
    (\<forall>i j. (holds_send (phases g i) \<and> holds_send (phases g j) \<longrightarrow> i = j) \<and>
           (holds_window (phases g i) \<and> holds_window (phases g j) \<longrightarrow> i = j)) \<and>
    ((\<forall>i. phases g i = Idle) \<longrightarrow> shared g = snd (perform_all c rt (map fst (effects g)) s))"
proof -
  obtain a where co: "coherent c rt s a g" using reachable_coherent [OF assms] by blast
  have "phase_status ph \<noteq> Broken" for ph by (cases ph) simp_all
  moreover have "i = j" if "holds_send (phases g i)" "holds_send (phases g j)" for i j
    using that locks_okD(1) [OF coherentD(3) [OF co]] by (metis option.inject)
  moreover have "i = j" if "holds_window (phases g i)" "holds_window (phases g j)" for i j
    using that locks_okD(2) [OF coherentD(3) [OF co]] by (metis option.inject)
  moreover have "shared g = a" if idle: "\<forall>i. phases g i = Idle"
  proof -
    have "window_lock g \<noteq> Some j" for j
      using locks_okD(2) [OF coherentD(3) [OF co], of j] idle by simp
    then have "window_lock g = None" using not_None_eq by blast
    then show ?thesis using coherentD(2) [OF co] by (simp add: visible_window_def)
  qed
  ultimately show ?thesis
    using coherentD(1,5) [OF co] by simp
qed

theorem calls_linearizable_witness:
  "holds_send (phases raced 1) \<and> \<not> holds_send (phases raced 0) \<and>
   map snd (effects raced) = fst (perform_all toy_crypto sample_runtime (map fst (effects raced)) sample_session)"
  using calls_linearizable [OF raced_reachable] by (simp add: raced_def)

text \<open>
  C6. However many threads use a session at once, the packets they are given carry consecutive
  sequence numbers in the order of their effects, so no sequence, key or nonce is used twice, and
  the messages that they accept have distinct sequences.
\<close>

theorem concurrent_sequences_unique:
  assumes "reachable c rt s g" "runtime_ok rt"
  shows "map (\<lambda>p. blob_sequence rt (PBytes p)) (packets (map snd (sent g))) =
      map (\<lambda>i. send_sequence s + int i) [0..<length (packets (map snd (sent g)))] \<and>
    distinct (accepted_sequences rt (map fst (received g)) (map snd (received g)))"
proof -
  obtain a where co: "coherent c rt s a g" using reachable_coherent [OF assms(1)] by blast
  have eq: "map snd (effects g) = fst (perform_all c rt (map fst (effects g)) s)"
    using coherentD(1) [OF co] by simp
  obtain as :: "bytes attempt list" and ns where
    "accepted_sequences rt (map fst (received g)) (decrypt_all c rt (map fst (received g)) s) =
       window.admitted (replay_window s) ns"
    using decrypt_all_accepted accepted_admitted by metis
  then show ?thesis
    using encrypt_all_sequences [OF assms(2), of c "map fst (sent g)" s] perform_all_directions [OF eq]
    by (simp add: sent_def [symmetric] received_def [symmetric] window.admitted_once)
qed

theorem concurrent_sequences_unique_witness:
  "\<exists>g q. sent g = [(PBytes [2], Inr q)] \<and> blob_sequence sample_runtime (PBytes q) = 0"
proof -
  obtain g q where g: "reachable toy_crypto sample_runtime sample_session g"
    and q: "sent g = [(PBytes [2], Inr q)]" by (rule raced_on)
  have "map (\<lambda>p. blob_sequence sample_runtime (PBytes p)) [q] = [send_sequence sample_session]"
    using concurrent_sequences_unique [OF g sample_runtime_ok] by (simp add: q packets_def)
  with q show ?thesis by (auto simp: sample_sessions(3))
qed

text \<open>
  C7. Calls terminate and the locks cannot deadlock: from every reachable state, running the
  steps of the calls under way in any order takes at most nine steps for each of them,
  and however far such a run has gone, it can be continued until every call has returned.
\<close>

theorem calls_finish:
  assumes "reachable c rt s g" "runs c rt n g g'"
  shows "n \<le> 9 * card (busy g) \<and>
    (\<exists>m g''. runs c rt m g' g'' \<and> (\<forall>i. phases g'' i = Idle)) \<and>
    ((\<exists>i. phases g' i \<noteq> Idle) \<longrightarrow> (\<exists>j g''. advance c rt j (phases g' j) g' = Some g''))"
proof (intro conjI impI)
  have r: "reachable c rt s g'" by (rule runs_reachable [OF assms(2,1)])
  have fin: "finite (busy g)" by (rule reachable_finite [OF assms(1)])
  show "n \<le> 9 * card (busy g)"
    using runs_bounded [OF assms(2) fin] work_le [OF fin] by linarith
  show "\<exists>m g''. runs c rt m g' g'' \<and> (\<forall>i. phases g'' i = Idle)" by (rule runs_to_the_end [OF r])
  obtain a where "coherent c rt s a g'" using reachable_coherent [OF r] by blast
  then show "\<exists>j g''. advance c rt j (phases g' j) g' = Some g''" if "\<exists>i. phases g' i \<noteq> Idle"
    using that some_thread_moves by blast
qed

theorem calls_finish_witness:
  "\<exists>m g''. runs toy_crypto sample_runtime m raced g'' \<and> (\<forall>i. phases g'' i = Idle)"
  using calls_finish [OF raced_reachable runs.finished] by blast

end
