(* ===== verification/Filesystem.thy ===== *)
theory Filesystem
  imports PyValues
begin

text \<open>
  The operating system under \<^verbatim>\<open>src/cyphersyntax/persistence.py\<close>: directories, files, descriptors,
  what the disk keeps when the machine stops, and programs that call it.

  A path is the list of its components from the root, its directory part resolved; a component
  holds no NUL character.  A name leads to an \<open>entry\<close>; a regular file is an inode number.
  \<open>on_disk p\<close> are the entries that \<open>p\<close> may turn out to have after a crash: an operation on a
  directory reaches the disk at some time, and surely when the directory is synchronised.  The
  bytes of an inode survive a crash once it is \<open>synced\<close>, and may be anything before.

  Every system call consumes a \<open>fate\<close> of the \<open>script\<close>: it works, it fails with \<^verbatim>\<open>OSError\<close>, or the
  machine stops; a write may get some way before the last two.  Where the script ends, all calls
  work.  The last two fields are the local variables of \<^verbatim>\<open>atomic_write_bytes\<close> that its
  \<^verbatim>\<open>finally\<close> block reads, with \<open>None\<close> for \<open>-1\<close> and \<^verbatim>\<open>None\<close>.
\<close>

type_synonym path = "pystr list"

datatype entry = Directory | Regular nat | SymbolicLink path

datatype fd_target = FileFd nat | DirectoryFd path

datatype fate = Works | Fails nat | Crashes nat

record machine =
  entries :: "path \<Rightarrow> entry option"
  on_disk :: "path \<Rightarrow> entry option set"
  content :: "nat \<Rightarrow> bytes"
  synced :: "nat \<Rightarrow> bool"
  fds :: "nat \<Rightarrow> fd_target option"
  next_inode :: nat
  next_fd :: nat
  script :: "fate list"
  descriptor :: "nat option"
  temporary_path :: "path option"

definition parent :: "path \<Rightarrow> path" where
  "parent p = butlast p"

definition file_name :: "path \<Rightarrow> pystr" where
  "file_name p = (if p = [] then [] else last p)"

section \<open>Programs that call the system\<close>

datatype 'a outcome = Done 'a | Raised exn | Crashed

type_synonym 'a io = "machine \<Rightarrow> 'a outcome \<times> machine"

definition returnI :: "'a \<Rightarrow> 'a io" where
  "returnI x s = (Done x, s)"

definition raiseI :: "exn \<Rightarrow> 'a io" where
  "raiseI e s = (Raised e, s)"

definition bindI :: "'a io \<Rightarrow> ('a \<Rightarrow> 'b io) \<Rightarrow> 'b io" where
  "bindI m f s =
     (case m s of (Done x, t) \<Rightarrow> f x t | (Raised e, t) \<Rightarrow> (Raised e, t) | (Crashed, t) \<Rightarrow> (Crashed, t))"

definition thenI :: "'a io \<Rightarrow> 'b io \<Rightarrow> 'b io" where
  "thenI m n = bindI m (\<lambda>_. n)"

text \<open>\<^verbatim>\<open>try: m except cs as e: h e\<close>\<close>

definition catchI :: "'a io \<Rightarrow> exn_class list \<Rightarrow> (exn \<Rightarrow> 'a io) \<Rightarrow> 'a io" where
  "catchI m cs h s =
     (case m s of
        (Raised e, t) \<Rightarrow> if isinstance_of e cs then h e t else (Raised e, t)
      | r \<Rightarrow> r)"

text \<open>\<^verbatim>\<open>try: m finally: f\<close>; an exception of the second block replaces that of the first.\<close>

definition finallyI :: "'a io \<Rightarrow> unit io \<Rightarrow> 'a io" where
  "finallyI m f s =
     (case m s of
        (Crashed, t) \<Rightarrow> (Crashed, t)
      | (r, t) \<Rightarrow>
          (case f t of
             (Done _, u) \<Rightarrow> (r, u)
           | (Raised e, u) \<Rightarrow> (Raised e, u)
           | (Crashed, u) \<Rightarrow> (Crashed, u)))"

text \<open>The value of a computation without effects.\<close>

definition liftI :: "'a res \<Rightarrow> 'a io" where
  "liftI r = (case r of Inl e \<Rightarrow> raiseI e | Inr x \<Rightarrow> returnI x)"

definition os_error :: "exn" where
  "os_error = Exn OSError (lit ''Input/output error'')"

definition next_fate :: "machine \<Rightarrow> fate" where
  "next_fate s = (case script s of [] \<Rightarrow> Works | f # _ \<Rightarrow> f)"

definition pop_fate :: "machine \<Rightarrow> machine" where
  "pop_fate s = s\<lparr>script := tl (script s)\<rparr>"

text \<open>
  A system call: \<open>act\<close> when it works, which may still end with an exception, \<open>partly\<close> what a call
  that does not work has done.
\<close>

definition syscall ::
    "(nat \<Rightarrow> machine \<Rightarrow> machine) \<Rightarrow> (machine \<Rightarrow> (exn + 'a) \<times> machine) \<Rightarrow> 'a io" where
  "syscall partly act s =
     (let t = pop_fate s in
      case next_fate s of
        Works \<Rightarrow> (case act t of (Inl e, u) \<Rightarrow> (Raised e, u) | (Inr x, u) \<Rightarrow> (Done x, u))
      | Fails n \<Rightarrow> (Raised os_error, partly n t)
      | Crashes n \<Rightarrow> (Crashed, partly n t))"

definition nothing :: "nat \<Rightarrow> machine \<Rightarrow> machine" where
  "nothing n s = s"

section \<open>System calls\<close>

definition no_such_file :: "exn" where
  "no_such_file = Exn FileNotFoundError (lit ''No such file or directory'')"

definition set_entry :: "path \<Rightarrow> entry option \<Rightarrow> machine \<Rightarrow> machine" where
  "set_entry p e s =
     s\<lparr>entries := (entries s)(p := e), on_disk := (on_disk s)(p := insert e (on_disk s p))\<rparr>"

definition os_mkdir :: "path \<Rightarrow> unit io" where
  "os_mkdir p = syscall nothing (\<lambda>s.
     if p = [] \<or> entries s p \<noteq> None
     then (Inl (Exn FileExistsError (lit ''File exists'')), s)
     else if entries s (parent p) = None then (Inl no_such_file, s)
     else if entries s (parent p) \<noteq> Some Directory
     then (Inl (Exn OSError (lit ''Not a directory'')), s)
     else (Inr (), set_entry p (Some Directory) s))"

definition is_dir :: "path \<Rightarrow> bool io" where
  "is_dir p = syscall nothing (\<lambda>s. (Inr (entries s p = Some Directory), s))"

definition is_symlink :: "path \<Rightarrow> bool io" where
  "is_symlink p = syscall nothing (\<lambda>s. (Inr (\<exists>q. entries s p = Some (SymbolicLink q)), s))"

text \<open>\<^verbatim>\<open>os.open(path, O_RDWR | O_CREAT | O_EXCL)\<close>\<close>

definition open_exclusive :: "path \<Rightarrow> nat io" where
  "open_exclusive p = syscall nothing (\<lambda>s.
     if entries s p \<noteq> None then (Inl (Exn FileExistsError (lit ''File exists'')), s)
     else if entries s (parent p) \<noteq> Some Directory then (Inl no_such_file, s)
     else (Inr (next_fd s),
       (set_entry p (Some (Regular (next_inode s))) s)
         \<lparr>content := (content s)(next_inode s := []), synced := (synced s)(next_inode s := False),
          fds := (fds s)(next_fd s \<mapsto> FileFd (next_inode s)),
          next_inode := Suc (next_inode s), next_fd := Suc (next_fd s)\<rparr>))"

text \<open>\<^verbatim>\<open>os.open(directory, O_RDONLY)\<close>\<close>

definition open_directory :: "path \<Rightarrow> nat io" where
  "open_directory p = syscall nothing (\<lambda>s.
     if entries s p = None then (Inl no_such_file, s)
     else (Inr (next_fd s),
       s\<lparr>fds := (fds s)(next_fd s \<mapsto> DirectoryFd p), next_fd := Suc (next_fd s)\<rparr>))"

text \<open>Permission bits are not modelled: a call that sets them works or fails.  Windows (\<open>nt\<close>) has no
  \<^verbatim>\<open>os.fchmod\<close>.\<close>

definition os_fchmod :: "bool \<Rightarrow> nat \<Rightarrow> unit io" where
  "os_fchmod nt fd =
     (if nt then raiseI (Exn AttributeError (lit ''fchmod''))
      else syscall nothing (\<lambda>s. (Inr (), s)))"

definition path_chmod :: "path \<Rightarrow> unit io" where
  "path_chmod p = syscall nothing (\<lambda>s. (Inr (), s))"

definition os_fdopen :: "nat \<Rightarrow> nat io" where
  "os_fdopen fd = syscall nothing (\<lambda>s. (Inr fd, s))"

definition append_to :: "nat \<Rightarrow> bytes \<Rightarrow> machine \<Rightarrow> machine" where
  "append_to fd data s =
     (case fds s fd of
        Some (FileFd i) \<Rightarrow>
          s\<lparr>content := (content s)(i := content s i @ data), synced := (synced s)(i := False)\<rparr>
      | _ \<Rightarrow> s)"

text \<open>
  \<^verbatim>\<open>handle.write\<close> and \<^verbatim>\<open>handle.flush\<close>: the bytes are taken to reach the file at the first of the two,
  which stand next to each other in the one \<^verbatim>\<open>with\<close> block.
\<close>

definition handle_write :: "nat \<Rightarrow> bytes \<Rightarrow> unit io" where
  "handle_write fd data = syscall (\<lambda>n. append_to fd (take n data))
     (\<lambda>s. (Inr (), append_to fd data s))"

definition handle_flush :: "nat \<Rightarrow> unit io" where
  "handle_flush fd = syscall nothing (\<lambda>s. (Inr (), s))"

text \<open>Synchronising a directory commits the entries in it.\<close>

definition commit :: "nat \<Rightarrow> machine \<Rightarrow> machine" where
  "commit fd s =
     (case fds s fd of
        Some (FileFd i) \<Rightarrow> s\<lparr>synced := (synced s)(i := True)\<rparr>
      | Some (DirectoryFd p) \<Rightarrow>
          s\<lparr>on_disk := (\<lambda>q. if q \<noteq> [] \<and> parent q = p then {entries s q} else on_disk s q)\<rparr>
      | None \<Rightarrow> s)"

definition os_fsync :: "nat \<Rightarrow> unit io" where
  "os_fsync fd = syscall nothing (\<lambda>s. (Inr (), commit fd s))"

text \<open>Closing releases the descriptor even when it reports an error, as on Linux.\<close>

definition release :: "nat \<Rightarrow> machine \<Rightarrow> machine" where
  "release fd s = s\<lparr>fds := (fds s)(fd := None)\<rparr>"

definition os_close :: "nat \<Rightarrow> unit io" where
  "os_close fd = syscall (\<lambda>n. release fd) (\<lambda>s. (Inr (), release fd s))"

definition os_replace :: "path \<Rightarrow> path \<Rightarrow> unit io" where
  "os_replace p q = syscall nothing (\<lambda>s.
     case entries s p of
       None \<Rightarrow> (Inl no_such_file, s)
     | Some e \<Rightarrow>
         if entries s q = Some Directory then (Inl (Exn OSError (lit ''Is a directory'')), s)
         else (Inr (), set_entry p None (set_entry q (Some e) s)))"

definition os_unlink :: "path \<Rightarrow> unit io" where
  "os_unlink p = syscall nothing (\<lambda>s.
     if entries s p = None then (Inl no_such_file, s)
     else if entries s p = Some Directory then (Inl (Exn OSError (lit ''Is a directory'')), s)
     else (Inr (), set_entry p None s))"

text \<open>
  \<^verbatim>\<open>path.read_bytes()\<close>; links at the end of the path are followed, forty of them at most, the
  limit of Linux.
\<close>

definition file_at :: "machine \<Rightarrow> path \<Rightarrow> bytes option" where
  "file_at s p = (case entries s p of Some (Regular i) \<Rightarrow> Some (content s i) | _ \<Rightarrow> None)"

fun follow_links :: "nat \<Rightarrow> machine \<Rightarrow> path \<Rightarrow> path option" where
  "follow_links 0 s p = None"
| "follow_links (Suc n) s p =
     (case entries s p of Some (SymbolicLink q) \<Rightarrow> follow_links n s q | _ \<Rightarrow> Some p)"

definition max_links :: nat where
  "max_links = 40"

definition read_bytes :: "path \<Rightarrow> bytes io" where
  "read_bytes p = syscall nothing (\<lambda>s.
     case follow_links (Suc max_links) s p of
       None \<Rightarrow> (Inl (Exn OSError (lit ''Too many levels of symbolic links'')), s)
     | Some q \<Rightarrow>
         (case file_at s q of
            Some b \<Rightarrow> (Inr b, s)
          | None \<Rightarrow> (Inl (if entries s q = None then no_such_file
                         else Exn OSError (lit ''Is a directory'')), s)))"

section \<open>After a crash\<close>

text \<open>
  What a reader may find at \<open>p\<close> when the machine has stopped and come up again: \<open>None\<close> for no
  regular file, which is also what a directory on the way that was never committed gives.
\<close>

definition inode_view :: "machine \<Rightarrow> entry option \<Rightarrow> bytes option set" where
  "inode_view s e =
     (case e of
        Some (Regular i) \<Rightarrow> if synced s i then {Some (content s i)} else range Some
      | _ \<Rightarrow> {None})"

definition dir_may_be_lost :: "machine \<Rightarrow> path \<Rightarrow> bool" where
  "dir_may_be_lost s p \<longleftrightarrow> (\<exists>q. strict_prefix q p \<and> on_disk s q - {Some Directory} \<noteq> {})"

definition after_crash :: "machine \<Rightarrow> path \<Rightarrow> bytes option set" where
  "after_crash s p =
     (\<Union>e \<in> on_disk s p. inode_view s e) \<union> (if dir_may_be_lost s p then {None} else {})"

text \<open>
  A state of the system: the root is a directory, a name is in a directory, inode and descriptor
  numbers beyond the counters are fresh, and the present entry is among those the disk may keep.
\<close>

definition machine_ok :: "machine \<Rightarrow> bool" where
  "machine_ok s \<longleftrightarrow>
     entries s [] = Some Directory \<and> on_disk s [] = {Some Directory} \<and>
     (\<forall>p. p \<noteq> [] \<longrightarrow> entries s p \<noteq> None \<longrightarrow> entries s (parent p) = Some Directory) \<and>
     (\<forall>p i. Some (Regular i) \<in> insert (entries s p) (on_disk s p) \<longrightarrow> i < next_inode s) \<and>
     (\<forall>fd \<ge> next_fd s. fds s fd = None) \<and>
     (\<forall>p. entries s p \<in> on_disk s p)"

section \<open>Reasoning about programs\<close>

text \<open>
  \<open>triple P m Q E K\<close>: from a state with \<open>P\<close>, \<open>m\<close> ends with \<open>Q\<close> when it returns, with \<open>E\<close> when it
  raises, and has \<open>K\<close> when the machine stops in it.
\<close>

definition triple ::
    "(machine \<Rightarrow> bool) \<Rightarrow> 'a io \<Rightarrow> ('a \<Rightarrow> machine \<Rightarrow> bool) \<Rightarrow> (exn \<Rightarrow> machine \<Rightarrow> bool) \<Rightarrow>
       (machine \<Rightarrow> bool) \<Rightarrow> bool" where
  "triple P m Q E K \<longleftrightarrow>
     (\<forall>s. P s \<longrightarrow> (case m s of (Done x, t) \<Rightarrow> Q x t | (Raised e, t) \<Rightarrow> E e t | (Crashed, t) \<Rightarrow> K t))"

lemma tripleI:
  assumes "\<And>s x t. P s \<Longrightarrow> m s = (Done x, t) \<Longrightarrow> Q x t"
    and "\<And>s e t. P s \<Longrightarrow> m s = (Raised e, t) \<Longrightarrow> E e t"
    and "\<And>s t. P s \<Longrightarrow> m s = (Crashed, t) \<Longrightarrow> K t"
  shows "triple P m Q E K"
  using assms by (auto simp: triple_def split: prod.splits outcome.splits)

lemma tripleD:
  assumes "triple P m Q E K" "P s"
  shows "m s = (Done x, t) \<Longrightarrow> Q x t" "m s = (Raised e, t) \<Longrightarrow> E e t" "m s = (Crashed, t) \<Longrightarrow> K t"
  using assms by (auto simp: triple_def split: prod.splits outcome.splits)

lemma triple_conseq:
  assumes "triple P' m Q' E' K'" "\<And>s. P s \<Longrightarrow> P' s" "\<And>x s. Q' x s \<Longrightarrow> Q x s"
    and "\<And>e s. E' e s \<Longrightarrow> E e s" "\<And>s. K' s \<Longrightarrow> K s"
  shows "triple P m Q E K"
  by (rule tripleI) (use assms tripleD [OF assms(1)] in blast)+

lemma triple_return: "(\<And>s. P s \<Longrightarrow> Q x s) \<Longrightarrow> triple P (returnI x) Q E K"
  by (simp add: triple_def returnI_def)

lemma triple_raise: "(\<And>s. P s \<Longrightarrow> E e s) \<Longrightarrow> triple P (raiseI e) Q E K"
  by (simp add: triple_def raiseI_def)

lemma triple_bind:
  assumes "triple P m R E K" "\<And>x. triple (R x) (f x) Q E K"
  shows "triple P (bindI m f) Q E K"
  using assms by (fastforce simp: triple_def bindI_def split: prod.splits outcome.splits)

lemma triple_then:
  assumes "triple P m (\<lambda>_. R) E K" "triple R n Q E K"
  shows "triple P (thenI m n) Q E K"
  unfolding thenI_def by (rule triple_bind [OF assms(1)]) (rule assms(2))

lemma triple_catch:
  assumes "triple P m Q R K" "\<And>e. isinstance_of e cs \<Longrightarrow> triple (R e) (h e) Q E K"
    and "\<And>e s. \<not> isinstance_of e cs \<Longrightarrow> R e s \<Longrightarrow> E e s"
  shows "triple P (catchI m cs h) Q E K"
  using assms by (fastforce simp: triple_def catchI_def split: prod.splits outcome.splits)

lemma triple_finally:
  assumes "triple P m R S K" "\<And>x. triple (R x) f (\<lambda>_. Q x) E K" "\<And>e. triple (S e) f (\<lambda>_. E e) E K"
  shows "triple P (finallyI m f) Q E K"
  using assms by (fastforce simp: triple_def finallyI_def split: prod.splits outcome.splits)

lemma triple_syscall:
  assumes "\<And>s x t. P s \<Longrightarrow> next_fate s = Works \<Longrightarrow> act (pop_fate s) = (Inr x, t) \<Longrightarrow> Q x t"
    and "\<And>s e t. P s \<Longrightarrow> next_fate s = Works \<Longrightarrow> act (pop_fate s) = (Inl e, t) \<Longrightarrow> E e t"
    and "\<And>s n. P s \<Longrightarrow> next_fate s = Fails n \<Longrightarrow> E os_error (partly n (pop_fate s))"
    and "\<And>s n. P s \<Longrightarrow> next_fate s = Crashes n \<Longrightarrow> K (partly n (pop_fate s))"
  shows "triple P (syscall partly act) Q E K"
  by (rule tripleI)
    (use assms in \<open>auto simp: syscall_def Let_def split: fate.splits sum.splits prod.splits\<close>)

lemma is_os_error [simp]: "isinstance_of os_error [OSError]" "isinstance_of no_such_file [OSError]"
  "isinstance_of (Exn FileExistsError m) [OSError]" "isinstance_of (Exn OSError m) [OSError]"
  by (simp_all add: isinstance_of_def os_error_def no_such_file_def is_subclass.simps)

text \<open>The number of calls the script makes fail.\<close>

definition failures :: "machine \<Rightarrow> nat" where
  "failures s = length (filter (\<lambda>f. f \<noteq> Works) (script s))"

lemma failures_pop [simp]:
  "next_fate s = Works \<Longrightarrow> failures (pop_fate s) = failures s"
  "next_fate s = Fails n \<Longrightarrow> Suc (failures (pop_fate s)) = failures s"
  "next_fate s = Crashes n \<Longrightarrow> Suc (failures (pop_fate s)) = failures s"
  by (cases "script s"; auto simp: failures_def next_fate_def pop_fate_def)+

lemma failures_pop_le: "failures (pop_fate s) \<le> failures s"
  by (cases "script s") (auto simp: failures_def pop_fate_def)

lemma pop_fate_fields [simp]:
  "entries (pop_fate s) = entries s" "on_disk (pop_fate s) = on_disk s"
  "content (pop_fate s) = content s" "synced (pop_fate s) = synced s" "fds (pop_fate s) = fds s"
  "next_inode (pop_fate s) = next_inode s" "next_fd (pop_fate s) = next_fd s"
  "descriptor (pop_fate s) = descriptor s" "temporary_path (pop_fate s) = temporary_path s"
  by (simp_all add: pop_fate_def)

lemma nothing_id [simp]: "nothing n s = s"
  by (simp add: nothing_def)

lemma set_entry_fields [simp]:
  "entries (set_entry p e s) = (entries s)(p := e)"
  "on_disk (set_entry p e s) = (on_disk s)(p := insert e (on_disk s p))"
  "content (set_entry p e s) = content s" "synced (set_entry p e s) = synced s"
  "fds (set_entry p e s) = fds s" "next_inode (set_entry p e s) = next_inode s"
  "next_fd (set_entry p e s) = next_fd s" "script (set_entry p e s) = script s"
  "descriptor (set_entry p e s) = descriptor s" "temporary_path (set_entry p e s) = temporary_path s"
  by (simp_all add: set_entry_def)

end
