(* ===== verification/Persistence.thy ===== *)
theory Persistence
  imports Filesystem
begin

text \<open>
  \<^verbatim>\<open>src/cyphersyntax/persistence.py\<close>: the passphrase check and the atomic replacement of a file.
  The temporary names that \<^verbatim>\<open>tempfile\<close> draws are an argument; \<open>nt\<close> is \<^verbatim>\<open>os.name == "nt"\<close>.
\<close>

section \<open>The passphrase\<close>

definition MIN_PASSPHRASE_BYTES :: nat where
  "MIN_PASSPHRASE_BYTES = 16"

definition MAX_PASSPHRASE_BYTES :: nat where
  "MAX_PASSPHRASE_BYTES = 1024"

definition validate_passphrase :: "pyval \<Rightarrow> unit res" where
  "validate_passphrase passphrase =
     (case passphrase of
        PBytes b \<Rightarrow>
          if length b < MIN_PASSPHRASE_BYTES
          then Inl (Exn ValueError (lit ''passphrase must contain at least 16 bytes''))
          else if length b > MAX_PASSPHRASE_BYTES
          then Inl (Exn ValueError (lit ''passphrase must contain at most 1024 bytes''))
          else Inr ()
      | _ \<Rightarrow> Inl (Exn TypeError (lit ''passphrase must be bytes'')))"

lemma validate_passphrase_eq_Inr [res_simps]:
  "validate_passphrase x = Inr u \<longleftrightarrow> (\<exists>b. x = PBytes b \<and> 16 \<le> length b \<and> length b \<le> 1024)"
  by (cases x) (auto simp: validate_passphrase_def MIN_PASSPHRASE_BYTES_def MAX_PASSPHRASE_BYTES_def)

section \<open>Atomic replacement\<close>

definition sync_directory :: "bool \<Rightarrow> path \<Rightarrow> unit io" where
  "sync_directory nt directory =
     (if nt then returnI ()
      else bindI (open_directory directory) (\<lambda>fd. finallyI (os_fsync fd) (os_close fd)))"

text \<open>\<^verbatim>\<open>path.mkdir(parents=True, exist_ok=True)\<close> and its second attempt without \<^verbatim>\<open>parents\<close>\<close>

definition exist_ok :: "path \<Rightarrow> exn \<Rightarrow> unit io" where
  "exist_ok p e = bindI (is_dir p) (\<lambda>d. if d then returnI () else raiseI e)"

definition mkdir_last :: "path \<Rightarrow> unit io" where
  "mkdir_last p = catchI (os_mkdir p) [OSError]
     (\<lambda>e. if isinstance_of e [FileNotFoundError] then raiseI e else exist_ok p e)"

function path_mkdir :: "path \<Rightarrow> unit io" where
  "path_mkdir p = catchI (os_mkdir p) [OSError]
     (\<lambda>e. if isinstance_of e [FileNotFoundError]
          then (if p = [] then raiseI e else thenI (path_mkdir (parent p)) (mkdir_last p))
          else exist_ok p e)"
  by pat_completeness auto
termination
  by (relation "measure length") (auto simp: parent_def)

declare path_mkdir.simps [simp del]

text \<open>\<^verbatim>\<open>tempfile.mkstemp\<close> tries the names it draws until one is free.\<close>

fun mkstemp :: "pystr \<Rightarrow> pystr \<Rightarrow> path \<Rightarrow> pystr list \<Rightarrow> (nat \<times> path) io" where
  "mkstemp pre suf dir [] =
     raiseI (Exn FileExistsError (lit ''No usable temporary file name found''))"
| "mkstemp pre suf dir (x # xs) =
     catchI (bindI (open_exclusive (dir @ [pre @ x @ suf]))
               (\<lambda>fd. returnI (fd, dir @ [pre @ x @ suf])))
       [FileExistsError] (\<lambda>_. mkstemp pre suf dir xs)"

definition assign_descriptor :: "nat option \<Rightarrow> unit io" where
  "assign_descriptor d s = (Done (), s\<lparr>descriptor := d\<rparr>)"

definition assign_temporary :: "path option \<Rightarrow> unit io" where
  "assign_temporary t s = (Done (), s\<lparr>temporary_path := t\<rparr>)"

text \<open>The \<^verbatim>\<open>with os.fdopen(...)\<close> block: the handle is closed on every way out of it.\<close>

definition write_handle :: "nat \<Rightarrow> bytes \<Rightarrow> unit io" where
  "write_handle handle data =
     finallyI (thenI (assign_descriptor None)
                (thenI (handle_write handle data)
                (thenI (handle_flush handle) (os_fsync handle))))
       (os_close handle)"

definition write_body :: "bool \<Rightarrow> pystr list \<Rightarrow> path \<Rightarrow> bytes \<Rightarrow> unit io" where
  "write_body nt names destination data =
     bindI (mkstemp (lit ''.'' @ file_name destination @ lit ''.'') (lit ''.tmp'')
              (parent destination) names) (\<lambda>fdt.
     thenI (assign_descriptor (Some (fst fdt)))
    (thenI (assign_temporary (Some (snd fdt)))
    (thenI (catchI (os_fchmod nt (fst fdt)) [AttributeError, OSError] (\<lambda>_. returnI ()))
    (bindI (os_fdopen (fst fdt)) (\<lambda>handle.
     thenI (write_handle handle data)
    (thenI (os_replace (snd fdt) destination)
    (thenI (assign_temporary None)
    (thenI (catchI (path_chmod destination) [OSError] (\<lambda>_. returnI ()))
    (sync_directory nt (parent destination))))))))))"

definition close_descriptor :: "unit io" where
  "close_descriptor s =
     (case descriptor s of Some fd \<Rightarrow> os_close fd s | None \<Rightarrow> (Done (), s))"

definition unlink_temporary :: "unit io" where
  "unlink_temporary s =
     (case temporary_path s of
        Some t \<Rightarrow> catchI (os_unlink t) [FileNotFoundError, OSError] (\<lambda>_. returnI ()) s
      | None \<Rightarrow> (Done (), s))"

definition atomic_write_bytes :: "bool \<Rightarrow> pystr list \<Rightarrow> path \<Rightarrow> pyval \<Rightarrow> unit io" where
  "atomic_write_bytes nt names destination data =
     (case data of
        PBytes d \<Rightarrow>
          thenI (catchI (path_mkdir (parent destination)) [OSError]
                  (\<lambda>_. raiseI (Exn PersistenceError (lit ''failed to create persistence directory''))))
         (bindI (is_symlink destination) (\<lambda>l.
          if l then raiseI (Exn PersistenceError
                      (lit ''refusing to replace a symbolic-link destination''))
          else
            thenI (assign_descriptor None)
           (thenI (assign_temporary None)
           (finallyI
             (catchI (write_body nt names destination d) [OSError]
               (\<lambda>_. raiseI (Exn PersistenceError
                      (lit ''failed to atomically write persistence file''))))
             (thenI close_descriptor unlink_temporary)))))
      | _ \<Rightarrow> raiseI (Exn TypeError (lit ''atomic write data must be bytes'')))"

section \<open>What the steps do\<close>

text \<open>
  The states that the replacement of \<open>dest\<close> goes through from \<open>s0\<close>, with the temporary file \<open>t\<close>:
  \<open>others_kept\<close> for everything but \<open>dest\<close>, \<open>kept\<close> and \<open>written\<close> for \<open>dest\<close> before and after the
  replacement.
\<close>

definition fresh_name :: "machine \<Rightarrow> path \<Rightarrow> path \<Rightarrow> bool" where
  "fresh_name s0 dest q \<longleftrightarrow> q \<noteq> dest \<and> q \<noteq> [] \<and> \<not> strict_prefix q dest \<and> entries s0 q = None"

definition others_kept :: "machine \<Rightarrow> path \<Rightarrow> path option \<Rightarrow> machine \<Rightarrow> bool" where
  "others_kept s0 dest t s \<longleftrightarrow>
     (\<forall>q. q \<noteq> dest \<longrightarrow> t \<noteq> Some q \<longrightarrow> entries s q = entries s0 q \<or>
        strict_prefix q dest \<and> entries s0 q = None \<and> entries s q = Some Directory) \<and>
     (\<forall>q. t = Some q \<longrightarrow> fresh_name s0 dest q) \<and>
     (\<forall>q. strict_prefix q dest \<longrightarrow> on_disk s q \<subseteq> insert (Some Directory) (on_disk s0 q)) \<and>
     (\<forall>j < next_inode s0. content s j = content s0 j \<and> synced s j = synced s0 j) \<and>
     next_inode s0 \<le> next_inode s \<and> next_fd s0 \<le> next_fd s"

definition kept :: "machine \<Rightarrow> path \<Rightarrow> machine \<Rightarrow> bool" where
  "kept s0 dest s \<longleftrightarrow> entries s dest = entries s0 dest \<and> on_disk s dest \<subseteq> on_disk s0 dest"

definition written :: "machine \<Rightarrow> path \<Rightarrow> bytes \<Rightarrow> machine \<Rightarrow> bool" where
  "written s0 dest data s \<longleftrightarrow>
     (\<exists>i. entries s dest = Some (Regular i) \<and> content s i = data \<and> synced s i \<and>
        on_disk s dest \<subseteq> insert (Some (Regular i)) (on_disk s0 dest))"

lemma others_keptD:
  assumes "others_kept s0 dest None s" "q \<noteq> dest"
  shows "entries s q = entries s0 q \<or>
    strict_prefix q dest \<and> entries s0 q = None \<and> entries s q = Some Directory"
  using assms by (simp add: others_kept_def)

lemma others_kept_pop [simp]: "others_kept s0 dest t (pop_fate s) = others_kept s0 dest t s"
  by (simp add: others_kept_def)

lemma kept_pop [simp]: "kept s0 dest (pop_fate s) = kept s0 dest s"
  by (simp add: kept_def)

lemma written_pop [simp]: "written s0 dest data (pop_fate s) = written s0 dest data s"
  by (simp add: written_def)

lemma others_kept_refl: "others_kept s0 dest None s0"
  by (auto simp: others_kept_def)

lemma others_kept_mkdir:
  assumes "others_kept s0 dest None s" "strict_prefix p dest" "entries s p = None"
  shows "others_kept s0 dest None (set_entry p (Some Directory) s)"
  using assms by (auto simp: others_kept_def)

text \<open>Before the temporary file: \<open>F\<close> are the descriptors of the start and \<open>n\<close> the failures left.\<close>

definition preparing :: "machine \<Rightarrow> path \<Rightarrow> nat \<Rightarrow> machine \<Rightarrow> bool" where
  "preparing s0 dest n s \<longleftrightarrow> others_kept s0 dest None s \<and> kept s0 dest s \<and> fds s = fds s0 \<and>
     next_fd s = next_fd s0 \<and> next_inode s = next_inode s0 \<and> failures s \<le> n"

lemma preparing_pop:
  "preparing s0 dest n s \<Longrightarrow> preparing s0 dest n (pop_fate s)"
  using failures_pop_le [of s] by (auto simp: preparing_def intro: order_trans)

lemma preparing_mkdir:
  assumes "preparing s0 dest n s" "strict_prefix p dest" "entries s p = None"
  shows "preparing s0 dest n (set_entry p (Some Directory) s)"
  using assms others_kept_mkdir [of s0 dest s p]
  by (auto simp: preparing_def kept_def failures_def)

definition crash_state :: "machine \<Rightarrow> path \<Rightarrow> bytes \<Rightarrow> machine \<Rightarrow> bool" where
  "crash_state s0 dest data s \<longleftrightarrow>
     (\<exists>t. others_kept s0 dest t s) \<and> (kept s0 dest s \<or> written s0 dest data s)"

lemma preparing_crash: "preparing s0 dest n s \<Longrightarrow> crash_state s0 dest data (pop_fate s)"
  by (auto simp: preparing_def crash_state_def)

lemma strict_prefix_parent: "strict_prefix p dest \<Longrightarrow> p \<noteq> [] \<Longrightarrow> strict_prefix (parent p) dest"
  by (metis append_butlast_last_id parent_def prefixI prefix_order.le_less_trans)

abbreviation on_the_way :: "path \<Rightarrow> path \<Rightarrow> bool" where
  "on_the_way dest p \<equiv> p = [] \<or> strict_prefix p dest"

lemma os_mkdir_triple:
  assumes "on_the_way dest p"
  shows "triple (preparing s0 dest n) (os_mkdir p) (\<lambda>_. preparing s0 dest n)
    (\<lambda>e s. preparing s0 dest n s \<and> isinstance_of e [OSError]) (crash_state s0 dest data)"
  unfolding os_mkdir_def
  by (rule triple_syscall)
    (use assms in \<open>auto simp: preparing_pop preparing_crash preparing_mkdir split: if_splits\<close>)

lemma is_dir_triple:
  "triple (preparing s0 dest n) (is_dir p) (\<lambda>_. preparing s0 dest n)
    (\<lambda>e s. preparing s0 dest n s \<and> isinstance_of e [OSError]) (crash_state s0 dest data)"
  unfolding is_dir_def by (rule triple_syscall) (auto simp: preparing_pop preparing_crash)

lemma exist_ok_triple:
  assumes "isinstance_of e [OSError]"
  shows "triple (preparing s0 dest n) (exist_ok p e) (\<lambda>_. preparing s0 dest n)
    (\<lambda>e s. preparing s0 dest n s \<and> isinstance_of e [OSError]) (crash_state s0 dest data)"
  unfolding exist_ok_def
  by (rule triple_bind [OF is_dir_triple])
    (use assms in \<open>auto intro: triple_return triple_raise\<close>)

lemma mkdir_last_triple:
  assumes "on_the_way dest p"
  shows "triple (preparing s0 dest n) (mkdir_last p) (\<lambda>_. preparing s0 dest n)
    (\<lambda>e s. preparing s0 dest n s \<and> isinstance_of e [OSError]) (crash_state s0 dest data)"
  unfolding mkdir_last_def
  by (rule triple_catch [OF os_mkdir_triple [OF assms]])
    (auto intro!: triple_raise intro: triple_conseq [OF exist_ok_triple])

lemma path_mkdir_triple:
  "on_the_way dest p \<Longrightarrow>
   triple (preparing s0 dest n) (path_mkdir p) (\<lambda>_. preparing s0 dest n)
    (\<lambda>e s. preparing s0 dest n s \<and> isinstance_of e [OSError]) (crash_state s0 dest data)"
proof (induction p rule: path_mkdir.induct)
  case (1 p)
  show ?case
  proof (subst path_mkdir.simps, rule triple_catch [OF os_mkdir_triple [OF "1.prems"]])
    fix e assume e: "isinstance_of e [OSError]"
    show "triple (\<lambda>s. preparing s0 dest n s \<and> isinstance_of e [OSError])
      (if isinstance_of e [FileNotFoundError]
       then if p = [] then raiseI e else thenI (path_mkdir (parent p)) (mkdir_last p)
       else exist_ok p e) (\<lambda>_. preparing s0 dest n)
      (\<lambda>e s. preparing s0 dest n s \<and> isinstance_of e [OSError]) (crash_state s0 dest data)"
    proof (cases "isinstance_of e [FileNotFoundError] \<and> p \<noteq> []")
      case True
      then have e': "isinstance_of e [FileNotFoundError]" and p: "p \<noteq> []" by simp_all
      have "on_the_way dest (parent p)" using p "1.prems" strict_prefix_parent by blast
      note both = triple_then [OF "1.IH" [OF e' p this] mkdir_last_triple [OF "1.prems"]]
      show ?thesis by (simp add: e' p) (rule triple_conseq [OF both], auto)
    next
      case False
      then show ?thesis
        using triple_conseq [OF exist_ok_triple [OF e]] e by (auto intro: triple_raise)
    qed
  qed auto
qed

text \<open>
  With the temporary file \<open>t\<close>, open at \<open>fd\<close>: its bytes \<open>c\<close>, whether they are surely on disk, and
  the two local variables.
\<close>

definition temp_open ::
    "machine \<Rightarrow> path \<Rightarrow> nat \<Rightarrow> nat \<times> path \<Rightarrow> bytes \<Rightarrow> bool \<Rightarrow> nat option \<Rightarrow> path option \<Rightarrow>
       machine \<Rightarrow> bool" where
  "temp_open s0 dest n fdt c durable dv tv s \<longleftrightarrow>
     (\<exists>i. others_kept s0 dest (Some (snd fdt)) s \<and> kept s0 dest s \<and>
        fds s = (fds s0)(fst fdt \<mapsto> FileFd i) \<and> fds s0 (fst fdt) = None \<and>
        entries s (snd fdt) = Some (Regular i) \<and> next_inode s0 \<le> i \<and> content s i = c \<and>
        (durable \<longrightarrow> synced s i) \<and> descriptor s = dv \<and> temporary_path s = tv \<and> failures s \<le> n)"

text \<open>Where the body fails: what the \<^verbatim>\<open>finally\<close> block has to clean up.\<close>

definition body_failed :: "machine \<Rightarrow> path \<Rightarrow> bytes \<Rightarrow> nat \<Rightarrow> exn \<Rightarrow> machine \<Rightarrow> bool" where
  "body_failed s0 dest data n e s \<longleftrightarrow>
     isinstance_of e [OSError] \<and> others_kept s0 dest (temporary_path s) s \<and>
     (kept s0 dest s \<or> written s0 dest data s) \<and>
     (temporary_path s \<noteq> None \<longrightarrow> failures s < n \<or> entries s0 dest = Some Directory) \<and>
     (\<forall>t. temporary_path s = Some t \<longrightarrow> entries s t \<noteq> Some Directory) \<and>
     (case descriptor s of
        None \<Rightarrow> fds s = fds s0
      | Some fd \<Rightarrow> failures s < n \<and> fds s0 fd = None \<and> (\<exists>i. fds s = (fds s0)(fd \<mapsto> FileFd i)))"

definition starting :: "machine \<Rightarrow> path \<Rightarrow> nat \<Rightarrow> machine \<Rightarrow> bool" where
  "starting s0 dest n s \<longleftrightarrow>
     preparing s0 dest n s \<and> descriptor s = None \<and> temporary_path s = None"

lemma starting_pop: "starting s0 dest n s \<Longrightarrow> starting s0 dest n (pop_fate s)"
  by (simp add: starting_def preparing_pop)

lemma starting_crash: "starting s0 dest n s \<Longrightarrow> crash_state s0 dest data (pop_fate s)"
  by (auto simp: starting_def intro: preparing_crash)

lemma starting_failed:
  "starting s0 dest n s \<Longrightarrow> isinstance_of e [OSError] \<Longrightarrow> body_failed s0 dest data n e s"
  by (simp add: starting_def preparing_def body_failed_def)

lemma temp_path_fresh:
  assumes "others_kept s0 dest None s" "entries s (parent dest @ [x]) = None" "x \<noteq> file_name dest"
  shows "fresh_name s0 dest (parent dest @ [x])"
proof -
  let ?p = "parent dest @ [x]"
  have 1: "?p \<noteq> dest"
    using assms(3) by (cases dest rule: rev_cases) (auto simp: parent_def file_name_def)
  have 2: "\<not> strict_prefix ?p dest"
    using prefix_length_less [of ?p dest] by (cases dest) (auto simp: parent_def)
  have "entries s ?p = entries s0 ?p"
    using assms(1) 1 2 unfolding others_kept_def by blast
  with 1 2 assms(2) show ?thesis by (simp add: fresh_name_def)
qed

lemma open_exclusive_triple:
  assumes "machine_ok s0" "x \<noteq> file_name dest"
  shows "triple (starting s0 dest n) (open_exclusive (parent dest @ [x]))
    (\<lambda>fd. temp_open s0 dest n (fd, parent dest @ [x]) [] False None None)
    (\<lambda>e s. starting s0 dest n s \<and> isinstance_of e [OSError]) (crash_state s0 dest data)"
  unfolding open_exclusive_def
proof (rule triple_syscall, goal_cases)
  case (1 s fd t)
  let ?p = "parent dest @ [x]"
  from 1 have new: "entries s ?p = None" "fd = next_fd s"
    and t: "t = (set_entry ?p (Some (Regular (next_inode s))) (pop_fate s))
         \<lparr>content := (content s)(next_inode s := []), synced := (synced s)(next_inode s := False),
          fds := (fds s)(next_fd s \<mapsto> FileFd (next_inode s)),
          next_inode := Suc (next_inode s), next_fd := Suc (next_fd s)\<rparr>"
    by (auto split: if_splits)
  from 1 have s: "others_kept s0 dest None s" "kept s0 dest s" "fds s = fds s0" "next_fd s = next_fd s0"
    "next_inode s = next_inode s0" "failures s \<le> n" "descriptor s = None" "temporary_path s = None"
    by (simp_all add: starting_def preparing_def)
  have fresh: "fresh_name s0 dest ?p" using temp_path_fresh [OF s(1) new(1) assms(2)] .
  have "others_kept s0 dest (Some ?p) t"
    using s(1,5) fresh unfolding t by (auto simp: others_kept_def fresh_name_def)
  moreover have "kept s0 dest t"
    using s(2) fresh unfolding t by (auto simp: kept_def fresh_name_def)
  moreover have "failures t \<le> n"
    using s(6) failures_pop_le [of s] unfolding t by (simp add: failures_def)
  moreover have "fds s0 fd = None"
    using assms(1) s(4) new(2) by (simp add: machine_ok_def)
  ultimately show ?case
    using s new(2) unfolding temp_open_def t by simp
qed (auto simp: starting_pop starting_crash split: if_splits)

lemma mkstemp_triple:
  assumes "machine_ok s0" "\<And>x. pre @ x @ suf \<noteq> file_name dest"
  shows "triple (starting s0 dest n) (mkstemp pre suf (parent dest) xs)
    (\<lambda>fdt. temp_open s0 dest n fdt [] False None None)
    (\<lambda>e s. starting s0 dest n s \<and> isinstance_of e [OSError]) (crash_state s0 dest data)"
proof (induction xs)
  case (Cons x xs)
  note new = open_exclusive_triple [OF assms(1) assms(2) [of x], of n data]
  show ?case unfolding mkstemp.simps
    by (rule triple_catch [OF triple_bind [OF new]])
      (auto intro!: triple_return triple_conseq [OF Cons.IH])
qed (auto intro: triple_raise)

lemma temp_open_pop:
  "temp_open s0 dest n fdt c durable dv tv s \<Longrightarrow> temp_open s0 dest n fdt c durable dv tv (pop_fate s)"
  using failures_pop_le [of s] unfolding temp_open_def by auto

lemma temp_open_crash:
  "temp_open s0 dest n fdt c durable dv tv s \<Longrightarrow> crash_state s0 dest data (pop_fate s)"
  by (auto simp: temp_open_def crash_state_def)

text \<open>A failed call uses up a failure of the script.\<close>

lemma temp_open_fail:
  assumes "temp_open s0 dest n fdt c durable dv tv s" "next_fate s = Fails m"
  shows "failures (pop_fate s) < n"
proof -
  have "failures s \<le> n" using assms(1) by (auto simp: temp_open_def)
  with failures_pop(2) [OF assms(2)] show ?thesis by linarith
qed

lemma local_updates [simp]:
  "others_kept s0 dest t (s\<lparr>descriptor := dv\<rparr>) = others_kept s0 dest t s"
  "others_kept s0 dest t (s\<lparr>temporary_path := tv\<rparr>) = others_kept s0 dest t s"
  "kept s0 dest (s\<lparr>descriptor := dv\<rparr>) = kept s0 dest s"
  "kept s0 dest (s\<lparr>temporary_path := tv\<rparr>) = kept s0 dest s"
  "written s0 dest data (s\<lparr>descriptor := dv\<rparr>) = written s0 dest data s"
  "written s0 dest data (s\<lparr>temporary_path := tv\<rparr>) = written s0 dest data s"
  "failures (s\<lparr>descriptor := dv\<rparr>) = failures s" "failures (s\<lparr>temporary_path := tv\<rparr>) = failures s"
  by (simp_all add: others_kept_def kept_def written_def failures_def)

lemma assign_triples:
  "triple (temp_open s0 dest n fdt c durable dv tv) (assign_descriptor dv')
     (\<lambda>_. temp_open s0 dest n fdt c durable dv' tv) E K"
  "triple (temp_open s0 dest n fdt c durable dv tv) (assign_temporary tv')
     (\<lambda>_. temp_open s0 dest n fdt c durable dv tv') E K"
  by (rule tripleI;
      auto simp: temp_open_def assign_descriptor_def assign_temporary_def)+

definition write_failed :: "machine \<Rightarrow> path \<Rightarrow> nat \<Rightarrow> nat \<times> path \<Rightarrow> exn \<Rightarrow> machine \<Rightarrow> bool" where
  "write_failed s0 dest n fdt e s \<longleftrightarrow>
     isinstance_of e [OSError] \<and> failures s < n \<and>
     (\<exists>c. temp_open s0 dest n fdt c False None (Some (snd fdt)) s)"

lemma temp_open_weaken:
  "temp_open s0 dest n fdt c durable dv tv s \<Longrightarrow> temp_open s0 dest n fdt c False dv tv s"
  by (auto simp: temp_open_def)

lemma temp_open_append:
  assumes "temp_open s0 dest n fdt c durable dv tv s"
  shows "temp_open s0 dest n fdt (c @ d) False dv tv (append_to (fst fdt) d s)"
proof -
  from assms obtain i where i: "others_kept s0 dest (Some (snd fdt)) s" "kept s0 dest s"
    "fds s = (fds s0)(fst fdt \<mapsto> FileFd i)" "fds s0 (fst fdt) = None"
    "entries s (snd fdt) = Some (Regular i)" "next_inode s0 \<le> i" "content s i = c"
    "descriptor s = dv" "temporary_path s = tv" "failures s \<le> n"
    unfolding temp_open_def by blast
  have a: "append_to (fst fdt) d s =
      s\<lparr>content := (content s)(i := content s i @ d), synced := (synced s)(i := False)\<rparr>"
    using i(3) by (simp add: append_to_def)
  have "others_kept s0 dest (Some (snd fdt)) (append_to (fst fdt) d s)"
    using i(1,6) unfolding a by (simp add: others_kept_def)
  then show ?thesis
    using i unfolding temp_open_def a by (simp add: kept_def failures_def)
qed

lemma append_to_failures [simp]: "failures (append_to fd d s) = failures s"
  by (simp add: append_to_def failures_def split: option.splits fd_target.splits)

lemma handle_write_triple:
  "triple (temp_open s0 dest n fdt c durable None (Some (snd fdt))) (handle_write (fst fdt) d)
     (\<lambda>_. temp_open s0 dest n fdt (c @ d) False None (Some (snd fdt)))
     (write_failed s0 dest n fdt) (crash_state s0 dest data)"
  unfolding handle_write_def
proof (rule triple_syscall, goal_cases)
  case (1 s x t)
  then show ?case using temp_open_append [OF temp_open_pop [OF 1(1)], of d] by simp
next
  case (3 s m)
  from temp_open_append [OF temp_open_pop [OF 3(1)]] temp_open_fail [OF 3] 3
  show ?case unfolding write_failed_def by auto
next
  case (4 s m)
  from temp_open_append [OF temp_open_pop [OF 4(1)], of "take m d"]
  show ?case by (auto simp: temp_open_def crash_state_def)
qed simp

lemma handle_flush_triple:
  "triple (temp_open s0 dest n fdt c durable None (Some (snd fdt))) (handle_flush (fst fdt))
     (\<lambda>_. temp_open s0 dest n fdt c durable None (Some (snd fdt)))
     (write_failed s0 dest n fdt) (crash_state s0 dest data)"
  unfolding handle_flush_def
proof (rule triple_syscall, goal_cases)
  case (3 s m)
  from temp_open_weaken [OF temp_open_pop [OF 3(1)]] temp_open_fail [OF 3]
  show ?case unfolding write_failed_def by auto
qed (auto simp: temp_open_pop intro: temp_open_crash)

lemma temp_open_commit:
  assumes "temp_open s0 dest n fdt c durable dv tv s"
  shows "temp_open s0 dest n fdt c True dv tv (commit (fst fdt) s)"
proof -
  from assms obtain i where i: "others_kept s0 dest (Some (snd fdt)) s" "kept s0 dest s"
    "fds s = (fds s0)(fst fdt \<mapsto> FileFd i)" "fds s0 (fst fdt) = None"
    "entries s (snd fdt) = Some (Regular i)" "next_inode s0 \<le> i" "content s i = c"
    "descriptor s = dv" "temporary_path s = tv" "failures s \<le> n"
    unfolding temp_open_def by blast
  have a: "commit (fst fdt) s = s\<lparr>synced := (synced s)(i := True)\<rparr>"
    using i(3) by (simp add: commit_def)
  have "others_kept s0 dest (Some (snd fdt)) (commit (fst fdt) s)"
    using i(1,6) unfolding a by (simp add: others_kept_def)
  then show ?thesis
    using i unfolding temp_open_def a by (simp add: kept_def failures_def)
qed

lemma os_fsync_triple:
  "triple (temp_open s0 dest n fdt c durable None (Some (snd fdt))) (os_fsync (fst fdt))
     (\<lambda>_. temp_open s0 dest n fdt c True None (Some (snd fdt)))
     (write_failed s0 dest n fdt) (crash_state s0 dest data)"
  unfolding os_fsync_def
proof (rule triple_syscall, goal_cases)
  case (1 s x t)
  then show ?case using temp_open_commit [OF temp_open_pop [OF 1(1)]] by simp
next
  case (3 s m)
  from temp_open_weaken [OF temp_open_pop [OF 3(1)]] temp_open_fail [OF 3]
  show ?case unfolding write_failed_def by auto
qed (auto intro: temp_open_crash)

text \<open>The temporary file written and closed.\<close>

definition temp_closed :: "machine \<Rightarrow> path \<Rightarrow> nat \<Rightarrow> path \<Rightarrow> bytes \<Rightarrow> machine \<Rightarrow> bool" where
  "temp_closed s0 dest n t c s \<longleftrightarrow>
     (\<exists>i. others_kept s0 dest (Some t) s \<and> kept s0 dest s \<and> fds s = fds s0 \<and>
        entries s t = Some (Regular i) \<and> content s i = c \<and> synced s i \<and>
        descriptor s = None \<and> temporary_path s = Some t \<and> failures s \<le> n)"

lemma release_fields [simp]:
  "entries (release fd s) = entries s" "on_disk (release fd s) = on_disk s"
  "content (release fd s) = content s" "synced (release fd s) = synced s"
  "fds (release fd s) = (fds s)(fd := None)" "next_inode (release fd s) = next_inode s"
  "next_fd (release fd s) = next_fd s" "descriptor (release fd s) = descriptor s" "temporary_path (release fd s) = temporary_path s"
  "failures (release fd s) = failures s"
  by (simp_all add: release_def failures_def)

lemma others_kept_release [simp]: "others_kept s0 dest t (release fd s) = others_kept s0 dest t s"
  by (simp add: others_kept_def)

lemma kept_release [simp]: "kept s0 dest (release fd s) = kept s0 dest s"
  "written s0 dest data (release fd s) = written s0 dest data s"
  by (simp_all add: kept_def written_def)

lemma temp_open_release:
  assumes "temp_open s0 dest n fdt c True None (Some (snd fdt)) s"
  shows "temp_closed s0 dest n (snd fdt) c (release (fst fdt) s)"
  using assms by (auto simp: temp_open_def temp_closed_def fun_upd_idem)

lemma temp_open_release_failed:
  assumes "temp_open s0 dest n fdt c durable None (Some (snd fdt)) s" "failures s < m"
    and "isinstance_of e [OSError]"
  shows "body_failed s0 dest data m e (release (fst fdt) s)"
  using assms by (auto simp: temp_open_def body_failed_def fun_upd_idem)

lemma os_close_triple:
  assumes "\<And>s. P s \<Longrightarrow> P (pop_fate s)" "\<And>s. P s \<Longrightarrow> Q (release fd s)"
    and "\<And>s m. P s \<Longrightarrow> next_fate s = Fails m \<Longrightarrow> E os_error (release fd (pop_fate s))"
    and "\<And>s. P s \<Longrightarrow> K (release fd s)"
  shows "triple P (os_close fd) (\<lambda>_. Q) E K"
  unfolding os_close_def by (rule triple_syscall) (use assms in auto)

lemma write_handle_triple:
  "triple (temp_open s0 dest n fdt [] False dv (Some (snd fdt))) (write_handle (fst fdt) d)
     (\<lambda>_. temp_closed s0 dest n (snd fdt) d) (body_failed s0 dest data n) (crash_state s0 dest data)"
  unfolding write_handle_def
proof (rule triple_finally)
  show "triple (temp_open s0 dest n fdt [] False dv (Some (snd fdt)))
     (thenI (assign_descriptor None) (thenI (handle_write (fst fdt) d)
       (thenI (handle_flush (fst fdt)) (os_fsync (fst fdt)))))
     (\<lambda>_. temp_open s0 dest n fdt d True None (Some (snd fdt)))
     (write_failed s0 dest n fdt) (crash_state s0 dest data)"
    using handle_write_triple [of s0 dest n fdt "[]" False d data]
    by (intro triple_then [OF assign_triples(1)]
        triple_then [OF _ triple_then [OF handle_flush_triple os_fsync_triple]]) simp
  show "triple (temp_open s0 dest n fdt d True None (Some (snd fdt))) (os_close (fst fdt))
     (\<lambda>_. temp_closed s0 dest n (snd fdt) d) (body_failed s0 dest data n) (crash_state s0 dest data)"
    for x :: unit
  proof (rule os_close_triple)
    fix s m assume s: "temp_open s0 dest n fdt d True None (Some (snd fdt)) s" "next_fate s = Fails m"
    show "body_failed s0 dest data n os_error (release (fst fdt) (pop_fate s))"
      by (rule temp_open_release_failed [OF temp_open_pop [OF s(1)] temp_open_fail [OF s]]) simp
  next
    show "crash_state s0 dest data (release (fst fdt) s)"
      if "temp_open s0 dest n fdt d True None (Some (snd fdt)) s" for s
      using that by (auto simp: crash_state_def temp_open_def)
  qed (auto intro: temp_open_release temp_open_pop)
  show "triple (write_failed s0 dest n fdt e) (os_close (fst fdt)) (\<lambda>_. body_failed s0 dest data n e)
     (body_failed s0 dest data n) (crash_state s0 dest data)" for e
  proof (rule os_close_triple)
    fix s assume "write_failed s0 dest n fdt e s"
    then obtain c where s: "isinstance_of e [OSError]" "failures s < n"
      "temp_open s0 dest n fdt c False None (Some (snd fdt)) s"
      unfolding write_failed_def by blast
    show "body_failed s0 dest data n e (release (fst fdt) s)"
      by (rule temp_open_release_failed [OF s(3,2,1)])
    show "write_failed s0 dest n fdt e (pop_fate s)"
      using s failures_pop_le [of s] temp_open_pop [OF s(3)] unfolding write_failed_def
      by (metis le_less_trans)
    show "crash_state s0 dest data (release (fst fdt) s)"
      using s(3) by (auto simp: crash_state_def temp_open_def)
    show "body_failed s0 dest data n os_error (release (fst fdt) (pop_fate s))" for m
      using temp_open_release_failed [OF temp_open_pop [OF s(3)] le_less_trans [OF failures_pop_le s(2)]]
      by simp
  qed
qed

text \<open>After the replacement.\<close>

definition replaced :: "machine \<Rightarrow> path \<Rightarrow> bytes \<Rightarrow> path option \<Rightarrow> machine \<Rightarrow> bool" where
  "replaced s0 dest data tv s \<longleftrightarrow>
     others_kept s0 dest None s \<and> written s0 dest data s \<and> fds s = fds s0 \<and>
     descriptor s = None \<and> temporary_path s = tv"

lemma replaced_failed:
  "replaced s0 dest data None s \<Longrightarrow> isinstance_of e [OSError] \<Longrightarrow> body_failed s0 dest data n e s"
  by (simp add: replaced_def body_failed_def)

lemma replaced_crash: "replaced s0 dest data tv s \<Longrightarrow> crash_state s0 dest data s"
  by (auto simp: replaced_def crash_state_def)

lemma replaced_pop [simp]: "replaced s0 dest data tv (pop_fate s) = replaced s0 dest data tv s"
  by (simp add: replaced_def)

lemma temp_closed_failed:
  assumes "temp_closed s0 dest n t data s" "isinstance_of e [OSError]"
    and "failures s < n \<or> entries s0 dest = Some Directory"
  shows "body_failed s0 dest data n e s"
  using assms by (auto simp: temp_closed_def body_failed_def)

lemma temp_closed_replace:
  assumes "temp_closed s0 dest n t data s" "entries s t = Some e"
  shows "replaced s0 dest data (Some t) (set_entry t None (set_entry dest (Some e) s))"
proof -
  from assms obtain i where i: "others_kept s0 dest (Some t) s" "kept s0 dest s" "fds s = fds s0"
    "e = Regular i" "content s i = data" "synced s i" "descriptor s = None"
    "temporary_path s = Some t"
    unfolding temp_closed_def by auto
  have t: "fresh_name s0 dest t" using i(1) by (simp add: others_kept_def)
  have "others_kept s0 dest None (set_entry t None (set_entry dest (Some e) s))"
    using i(1) t by (auto simp: others_kept_def fresh_name_def)
  moreover have "written s0 dest data (set_entry t None (set_entry dest (Some e) s))"
    using i t by (auto simp: written_def kept_def fresh_name_def)
  ultimately show ?thesis using i by (simp add: replaced_def)
qed

lemma temp_closed_pop: "temp_closed s0 dest n t c s \<Longrightarrow> temp_closed s0 dest n t c (pop_fate s)"
  using failures_pop_le [of s] by (auto simp: temp_closed_def)

lemma temp_closed_crash: "temp_closed s0 dest n t c s \<Longrightarrow> crash_state s0 dest data s"
  by (auto simp: temp_closed_def crash_state_def)

lemma os_replace_triple:
  "triple (temp_closed s0 dest n t data) (os_replace t dest) (\<lambda>_. replaced s0 dest data (Some t))
     (body_failed s0 dest data n) (crash_state s0 dest data)"
  unfolding os_replace_def
proof (rule triple_syscall, goal_cases)
  case (1 s x u)
  then show ?case
    using temp_closed_replace [OF temp_closed_pop [OF 1(1)]] by (auto split: option.splits if_splits)
next
  case (2 s e u)
  have "entries s t \<noteq> None" using 2(1) by (auto simp: temp_closed_def)
  with 2(3) have e: "isinstance_of e [OSError]" "entries s dest = Some Directory" "u = pop_fate s"
    by (auto split: option.splits if_splits)
  have "entries s0 dest = Some Directory"
    using 2(1) e(2) by (auto simp: temp_closed_def kept_def)
  then show ?case unfolding e(3)
    using temp_closed_failed [OF temp_closed_pop [OF 2(1)] e(1)] by simp
next
  case (3 s m)
  have "failures (pop_fate s) < n"
    using 3(1) failures_pop(2) [OF 3(2)] unfolding temp_closed_def by linarith
  then show ?case using temp_closed_failed [OF temp_closed_pop [OF 3(1)]] by simp
next
  case (4 s m)
  then show ?case using temp_closed_crash [OF temp_closed_pop [OF 4(1)]] by simp
qed

text \<open>While the directory is open for its synchronisation.\<close>

definition syncing :: "machine \<Rightarrow> path \<Rightarrow> bytes \<Rightarrow> nat \<Rightarrow> machine \<Rightarrow> bool" where
  "syncing s0 dest data fd s \<longleftrightarrow>
     others_kept s0 dest None s \<and> written s0 dest data s \<and> fds s0 fd = None \<and>
     fds s = (fds s0)(fd \<mapsto> DirectoryFd (parent dest)) \<and> descriptor s = None \<and>
     temporary_path s = None"

definition committed :: "path \<Rightarrow> machine \<Rightarrow> bool" where
  "committed dest s \<longleftrightarrow> dest \<noteq> [] \<longrightarrow> on_disk s dest = {entries s dest}"

lemma syncing_pop [simp]: "syncing s0 dest data fd (pop_fate s) = syncing s0 dest data fd s"
  by (simp add: syncing_def)

lemma committed_simps [simp]: "committed dest (pop_fate s) = committed dest s"
  "committed dest (release fd s) = committed dest s"
  by (simp_all add: committed_def)

lemma syncing_release: "syncing s0 dest data fd s \<Longrightarrow> replaced s0 dest data None (release fd s)"
  by (auto simp: syncing_def replaced_def fun_upd_idem)

lemma open_directory_triple:
  assumes "machine_ok s0"
  shows "triple (replaced s0 dest data None) (open_directory (parent dest)) (syncing s0 dest data)
     (body_failed s0 dest data n) (crash_state s0 dest data)"
  unfolding open_directory_def
proof (rule triple_syscall, goal_cases)
  case (1 s fd t)
  from 1 have fd: "fd = next_fd s" and t: "t = (pop_fate s)
      \<lparr>fds := (fds s)(next_fd s \<mapsto> DirectoryFd (parent dest)), next_fd := Suc (next_fd s)\<rparr>"
    by (auto split: if_splits)
  have "next_fd s0 \<le> fd" using 1(1) fd by (simp add: replaced_def others_kept_def)
  then have "fds s0 fd = None" using assms by (simp add: machine_ok_def)
  moreover have "others_kept s0 dest None t"
    using 1(1) unfolding t by (simp add: replaced_def others_kept_def)
  moreover have "written s0 dest data t"
    using 1(1) unfolding t by (auto simp: replaced_def written_def)
  ultimately show ?case using 1(1) unfolding syncing_def fd t by (simp add: replaced_def)
next
  case (2 s e t)
  then have "t = pop_fate s" "isinstance_of e [OSError]" by (auto split: if_splits)
  with 2(1) show ?case by (simp add: replaced_failed)
next
  case (3 s m)
  then show ?case by (simp add: replaced_failed)
next
  case (4 s m)
  then have "replaced s0 dest data None (pop_fate s)" by simp
  then show ?case by (simp add: replaced_crash)
qed

lemma syncing_commit:
  assumes "machine_ok s0" "syncing s0 dest data fd s"
  shows "syncing s0 dest data fd (commit fd s) \<and> committed dest (commit fd s)"
proof -
  have o: "others_kept s0 dest None s" using assms(2) by (simp add: syncing_def)
  have a: "commit fd s = s\<lparr>on_disk := (\<lambda>q. if q \<noteq> [] \<and> parent q = parent dest then {entries s q}
      else on_disk s q)\<rparr>"
    using assms(2) by (simp add: syncing_def commit_def)
  have "entries s q \<in> insert (Some Directory) (on_disk s0 q)" if "strict_prefix q dest" for q
  proof -
    have "entries s0 q \<in> on_disk s0 q" using assms(1) unfolding machine_ok_def by blast
    moreover have "entries s q = entries s0 q \<or> entries s q = Some Directory"
      using others_keptD [OF o, of q] that by (auto simp: strict_prefix_def)
    ultimately show ?thesis by (elim disjE) simp_all
  qed
  then have "others_kept s0 dest None (commit fd s)"
    using o unfolding a by (simp add: others_kept_def)
  moreover have "written s0 dest data (commit fd s)"
    using assms(2) unfolding a syncing_def written_def by auto
  ultimately show ?thesis
    using assms(2) unfolding a by (simp add: syncing_def committed_def)
qed

lemma sync_directory_triple:
  assumes "machine_ok s0"
  shows "triple (replaced s0 dest data None) (sync_directory nt (parent dest))
     (\<lambda>_ s. replaced s0 dest data None s \<and> (\<not> nt \<longrightarrow> committed dest s))
     (body_failed s0 dest data n) (crash_state s0 dest data)"
proof (cases nt)
  case False
  have sync: "triple (syncing s0 dest data fd) (os_fsync fd)
      (\<lambda>_ s. syncing s0 dest data fd s \<and> committed dest s)
      (\<lambda>e s. syncing s0 dest data fd s \<and> isinstance_of e [OSError]) (crash_state s0 dest data)" for fd
    unfolding os_fsync_def
  proof (rule triple_syscall, goal_cases)
    case (1 s x t)
    then show ?case using syncing_commit [OF assms, of dest data fd "pop_fate s"] by simp
  qed (auto simp: syncing_def crash_state_def)
  have close: "triple (\<lambda>s. syncing s0 dest data fd s \<and> C s) (os_close fd)
      (\<lambda>_ s. replaced s0 dest data None s \<and> C s)
      (body_failed s0 dest data n) (crash_state s0 dest data)"
    if "\<And>s. C (pop_fate s) = C s" "\<And>s. C (release fd s) = C s" for fd C
    by (rule os_close_triple)
      (auto simp: that intro!: syncing_release replaced_failed,
       auto simp: syncing_def crash_state_def)
  have "triple (syncing s0 dest data fd) (finallyI (os_fsync fd) (os_close fd))
     (\<lambda>_ s. replaced s0 dest data None s \<and> (\<not> nt \<longrightarrow> committed dest s))
     (body_failed s0 dest data n) (crash_state s0 dest data)" for fd
  proof (rule triple_finally [OF sync])
    show "triple (\<lambda>s. syncing s0 dest data fd s \<and> committed dest s) (os_close fd)
       (\<lambda>_ s. replaced s0 dest data None s \<and> (\<not> nt \<longrightarrow> committed dest s))
       (body_failed s0 dest data n) (crash_state s0 dest data)"
      by (rule triple_conseq [OF close [of "committed dest"]]) auto
    show "triple (\<lambda>s. syncing s0 dest data fd s \<and> isinstance_of e [OSError]) (os_close fd)
       (\<lambda>_. body_failed s0 dest data n e) (body_failed s0 dest data n) (crash_state s0 dest data)" for e
      by (rule triple_conseq [OF close [of "\<lambda>s. isinstance_of e [OSError]"]])
        (auto intro: replaced_failed)
  qed
  with False show ?thesis
    unfolding sync_directory_def by (simp add: triple_bind [OF open_directory_triple [OF assms]])
qed (simp add: sync_directory_def triple_return)

section \<open>The whole replacement\<close>

lemma ignored_triple:
  assumes "triple P m (\<lambda>_. P) (\<lambda>e s. P s \<and> isinstance_of e cs) K"
  shows "triple P (catchI m cs (\<lambda>_. returnI ())) (\<lambda>_. P) E K"
  by (rule triple_catch [OF assms]) (auto intro: triple_return)

lemma path_chmod_triple:
  "triple (replaced s0 dest data None) (path_chmod p) (\<lambda>_. replaced s0 dest data None)
     (\<lambda>e s. replaced s0 dest data None s \<and> isinstance_of e [OSError]) (crash_state s0 dest data)"
  unfolding path_chmod_def by (rule triple_syscall) (auto simp: replaced_def crash_state_def)

lemma os_fchmod_triple:
  "triple (temp_open s0 dest n fdt c durable dv tv) (os_fchmod nt fd)
     (\<lambda>_. temp_open s0 dest n fdt c durable dv tv)
     (\<lambda>e s. temp_open s0 dest n fdt c durable dv tv s \<and> isinstance_of e [AttributeError, OSError])
     (crash_state s0 dest data)"
proof (cases nt)
  case True
  then show ?thesis
    by (simp add: os_fchmod_def) (rule triple_raise, simp add: isinstance_of_def is_subclass.simps)
next
  case False
  have io: "isinstance_of os_error [AttributeError, OSError]"
    by (simp add: isinstance_of_def os_error_def is_subclass.simps)
  show ?thesis
    unfolding os_fchmod_def using False
    by (simp, intro triple_syscall) (auto simp: io temp_open_pop intro: temp_open_crash)
qed

lemma os_fdopen_triple:
  "triple (temp_open s0 dest n fdt c durable (Some (fst fdt)) (Some (snd fdt))) (os_fdopen (fst fdt))
     (\<lambda>h s. h = fst fdt \<and> temp_open s0 dest n fdt c durable (Some (fst fdt)) (Some (snd fdt)) s)
     (body_failed s0 dest data n) (crash_state s0 dest data)"
  unfolding os_fdopen_def
proof (rule triple_syscall, goal_cases)
  case (3 s m)
  from temp_open_pop [OF 3(1)] temp_open_fail [OF 3] show ?case
    by (auto simp: temp_open_def body_failed_def)
qed (auto simp: temp_open_pop intro: temp_open_crash)

lemma write_body_triple:
  assumes "machine_ok s0"
  shows "triple (starting s0 dest n) (write_body nt names dest d)
     (\<lambda>_ s. replaced s0 dest d None s \<and> (\<not> nt \<longrightarrow> committed dest s))
     (body_failed s0 dest d n) (crash_state s0 dest d)"
proof -
  let ?E = "body_failed s0 dest d n" and ?K = "crash_state s0 dest d"
  have name: "(lit ''.'' @ file_name dest @ lit ''.'') @ x @ lit ''.tmp'' \<noteq> file_name dest" for x
    by (rule notI, drule arg_cong [of _ _ length]) simp
  have make: "triple (starting s0 dest n)
      (mkstemp (lit ''.'' @ file_name dest @ lit ''.'') (lit ''.tmp'') (parent dest) names)
      (\<lambda>fdt. temp_open s0 dest n fdt [] False None None) ?E ?K"
    by (rule triple_conseq [OF mkstemp_triple [OF assms name]]) (auto intro: starting_failed)
  have named: "triple (replaced s0 dest d (Some t)) (assign_temporary None)
      (\<lambda>_. replaced s0 dest d None) ?E ?K" for t
    by (rule tripleI) (auto simp: replaced_def assign_temporary_def)
  have "triple (\<lambda>s. h = fst fdt \<and> temp_open s0 dest n fdt [] False (Some (fst fdt)) (Some (snd fdt)) s)
      (write_handle h d) (\<lambda>_. temp_closed s0 dest n (snd fdt) d) ?E ?K" for h fdt
    by (cases "h = fst fdt")
      (auto intro: triple_conseq [OF write_handle_triple], simp add: triple_def)
  then show ?thesis
    unfolding write_body_def
    by (intro triple_bind [OF make] triple_then [OF assign_triples(1)] triple_then [OF assign_triples(2)]
        triple_then [OF ignored_triple [OF os_fchmod_triple]] triple_bind [OF os_fdopen_triple]
        triple_then [OF _ triple_then [OF os_replace_triple triple_then [OF named
          triple_then [OF ignored_triple [OF path_chmod_triple] sync_directory_triple [OF assms]]]]])
qed

text \<open>What the caller finds after a failure; \<open>e0\<close> is the exception of the body.\<close>

definition cleaned :: "machine \<Rightarrow> path \<Rightarrow> bytes \<Rightarrow> nat \<Rightarrow> machine \<Rightarrow> bool" where
  "cleaned s0 dest data n s \<longleftrightarrow>
     fds s = fds s0 \<and> (kept s0 dest s \<or> written s0 dest data s) \<and>
     (\<exists>t. others_kept s0 dest t s \<and> (t \<noteq> None \<longrightarrow> 2 \<le> n \<or> entries s0 dest = Some Directory))"

definition closed_failed :: "machine \<Rightarrow> path \<Rightarrow> bytes \<Rightarrow> nat \<Rightarrow> machine \<Rightarrow> bool" where
  "closed_failed s0 dest data n s \<longleftrightarrow>
     fds s = fds s0 \<and> (kept s0 dest s \<or> written s0 dest data s) \<and>
     others_kept s0 dest (temporary_path s) s \<and>
     (temporary_path s \<noteq> None \<longrightarrow> failures s < n \<or> entries s0 dest = Some Directory) \<and>
     (\<forall>t. temporary_path s = Some t \<longrightarrow> entries s t \<noteq> Some Directory)"

lemma body_failed_pop: "body_failed s0 dest data n e s \<Longrightarrow> body_failed s0 dest data n e (pop_fate s)"
  using failures_pop_le [of s] by (auto simp: body_failed_def split: option.splits)

lemma close_descriptor_triple:
  "triple (body_failed s0 dest data n e) close_descriptor (\<lambda>_. closed_failed s0 dest data n)
     (\<lambda>e' s. cleaned s0 dest data n s \<and> e' = os_error \<and> 2 \<le> n \<and> descriptor s \<noteq> None)
     (crash_state s0 dest data)"
proof (rule tripleI)
  fix s assume b: "body_failed s0 dest data n e s"
  have closed: "closed_failed s0 dest data n s" if "descriptor s = None"
    using b that by (simp add: body_failed_def closed_failed_def)
  have opened: "closed_failed s0 dest data n (release fd s)" "failures s < n"
    "crash_state s0 dest data (release fd s)" if "descriptor s = Some fd" for fd
    using b that by (auto simp: body_failed_def closed_failed_def crash_state_def fun_upd_idem)
  have cleaned: "cleaned s0 dest data n (release fd (pop_fate s)) \<and> 2 \<le> n"
    if "descriptor s = Some fd" "next_fate s = Fails m" for fd m
  proof -
    have "2 \<le> n" using opened(2) [OF that(1)] failures_pop(2) [OF that(2)] by linarith
    then show ?thesis
      using opened(1) [OF that(1)] body_failed_pop [OF b] that(1)
      by (auto simp: cleaned_def body_failed_def fun_upd_idem)
  qed
  have opened': "closed_failed s0 dest data n (release fd (pop_fate s))"
    "crash_state s0 dest data (release fd (pop_fate s))" if "descriptor s = Some fd" for fd
    using body_failed_pop [OF b] that
    by (auto simp: body_failed_def closed_failed_def crash_state_def fun_upd_idem)
  show "closed_failed s0 dest data n t" if "close_descriptor s = (Done x, t)" for x t
    using that closed opened'
    by (auto simp: close_descriptor_def os_close_def syscall_def Let_def split: option.splits fate.splits)
  show "cleaned s0 dest data n t \<and> e' = os_error \<and> 2 \<le> n \<and> descriptor t \<noteq> None"
    if "close_descriptor s = (Raised e', t)" for e' t
    using that cleaned
    by (auto simp: close_descriptor_def os_close_def syscall_def Let_def split: option.splits fate.splits)
  show "crash_state s0 dest data t" if "close_descriptor s = (Crashed, t)" for t
    using that opened'
    by (auto simp: close_descriptor_def os_close_def syscall_def Let_def split: option.splits fate.splits)
qed

lemma others_kept_forget:
  assumes "others_kept s0 dest (Some t) s" "entries s t = None"
  shows "others_kept s0 dest None s"
proof -
  have t: "fresh_name s0 dest t" using assms(1) by (simp add: others_kept_def)
  have "entries s q = entries s0 q \<or>
      strict_prefix q dest \<and> entries s0 q = None \<and> entries s q = Some Directory" if "q \<noteq> dest" for q
    using assms that t unfolding others_kept_def fresh_name_def by (cases "q = t") auto
  then show ?thesis using assms(1) unfolding others_kept_def by simp
qed

lemma others_kept_unlink:
  assumes "others_kept s0 dest (Some t) s"
  shows "others_kept s0 dest (Some t) (set_entry t None s)"
  using assms by (auto simp: others_kept_def fresh_name_def)

lemma kept_unlink:
  assumes "others_kept s0 dest (Some t) s"
  shows "kept s0 dest (set_entry t None s) = kept s0 dest s"
    "written s0 dest data (set_entry t None s) = written s0 dest data s"
  using assms by (auto simp: others_kept_def fresh_name_def kept_def written_def)

lemma closed_failed_pop:
  "closed_failed s0 dest data n s \<Longrightarrow> closed_failed s0 dest data n (pop_fate s)"
  using failures_pop_le [of s] by (auto simp: closed_failed_def)

lemma os_unlink_triple:
  "triple (\<lambda>s. closed_failed s0 dest data n s \<and> temporary_path s = Some t) (os_unlink t)
     (\<lambda>_. cleaned s0 dest data n)
     (\<lambda>e s. cleaned s0 dest data n s \<and> isinstance_of e [FileNotFoundError, OSError])
     (crash_state s0 dest data)"
  unfolding os_unlink_def
proof (rule triple_syscall, goal_cases)
  case (1 s x u)
  then have u: "u = set_entry t None (pop_fate s)" by (auto split: if_splits)
  have o: "others_kept s0 dest (Some t) (pop_fate s)" using 1(1) by (auto simp: closed_failed_def)
  then have "others_kept s0 dest None u"
    using others_kept_forget [OF others_kept_unlink [OF o]] unfolding u by simp
  then show ?case
    using 1(1) kept_unlink(1) [OF o] kept_unlink(2) [OF o, of data] unfolding cleaned_def u closed_failed_def by auto
next
  case (2 s e u)
  from 2 have e: "e = no_such_file" "u = pop_fate s" "entries s t = None"
    by (auto simp: closed_failed_def split: if_splits)
  have "others_kept s0 dest None s"
    using 2(1) e(3) others_kept_forget [of s0 dest t s] by (auto simp: closed_failed_def)
  then show ?case
    using 2(1) unfolding e cleaned_def closed_failed_def
    by (auto simp: isinstance_of_def no_such_file_def is_subclass.simps)
next
  case (3 s m)
  from 3(1) have c: "fds s = fds s0" "kept s0 dest s \<or> written s0 dest data s"
    "others_kept s0 dest (Some t) s" "failures s < n \<or> entries s0 dest = Some Directory"
    by (auto simp: closed_failed_def)
  have "2 \<le> n \<or> entries s0 dest = Some Directory" using c(4) failures_pop(2) [OF 3(2)] by linarith
  then show ?case
    using c(1-3) by (auto simp: cleaned_def isinstance_of_def os_error_def is_subclass.simps)
next
  case (4 s m)
  then show ?case by (auto simp: closed_failed_def crash_state_def)
qed

lemma unlink_temporary_triple:
  "triple (closed_failed s0 dest data n) unlink_temporary (\<lambda>_. cleaned s0 dest data n) E
     (crash_state s0 dest data)"
proof -
  have t: "triple (\<lambda>s. closed_failed s0 dest data n s \<and> temporary_path s = Some t)
      (catchI (os_unlink t) [FileNotFoundError, OSError] (\<lambda>_. returnI ()))
      (\<lambda>_. cleaned s0 dest data n) E (crash_state s0 dest data)" for t
    by (rule triple_catch [OF os_unlink_triple]) (auto intro: triple_return)
  show ?thesis
  proof (rule tripleI)
    fix s assume c: "closed_failed s0 dest data n s"
    have none: "cleaned s0 dest data n s" if "temporary_path s = None"
      using c that by (auto simp: closed_failed_def cleaned_def)
    show "cleaned s0 dest data n u" if "unlink_temporary s = (Done x, u)" for x u
      using tripleD(1) [OF t, of s] c that none by (auto simp: unlink_temporary_def split: option.splits)
    show "E e u" if "unlink_temporary s = (Raised e, u)" for e u
      using tripleD(2) [OF t, of s] c that by (auto simp: unlink_temporary_def split: option.splits)
    show "crash_state s0 dest data u" if "unlink_temporary s = (Crashed, u)" for u
      using tripleD(3) [OF t, of s] c that by (auto simp: unlink_temporary_def split: option.splits)
  qed
qed

lemma nothing_to_clean:
  "triple (\<lambda>s. replaced s0 dest data None s \<and> C s) (thenI close_descriptor unlink_temporary)
     (\<lambda>_ s. replaced s0 dest data None s \<and> C s) E K"
  by (rule tripleI; simp add: thenI_def bindI_def close_descriptor_def unlink_temporary_def replaced_def)

text \<open>
  Which exceptions come out: \<open>PersistenceError\<close>; the \<open>OSError\<close> of the test for a symbolic link; or,
  when two calls fail, the \<open>OSError\<close> of closing the descriptor in the \<^verbatim>\<open>finally\<close> block, which is
  closed there only as long as no file object has taken it over.
\<close>

definition link_test_raises :: "path \<Rightarrow> machine \<Rightarrow> machine \<Rightarrow> bool" where
  "link_test_raises dest s0 s \<longleftrightarrow>
     (\<exists>t. path_mkdir (parent dest) s0 = (Done (), t) \<and> is_symlink dest t = (Raised os_error, s))"

definition unwrapped :: "machine \<Rightarrow> path \<Rightarrow> machine \<Rightarrow> bool" where
  "unwrapped s0 dest s \<longleftrightarrow>
     link_test_raises dest s0 s \<or> 2 \<le> failures s0 \<and> descriptor s \<noteq> None"

definition write_failure :: "machine \<Rightarrow> path \<Rightarrow> bytes \<Rightarrow> exn \<Rightarrow> machine \<Rightarrow> bool" where
  "write_failure s0 dest data e s \<longleftrightarrow>
     cleaned s0 dest data (failures s0) s \<and>
     (cls e = PersistenceError \<or> e = os_error \<and> unwrapped s0 dest s)"

lemma starting_cleaned: "preparing s0 dest n s \<Longrightarrow> cleaned s0 dest data m s"
  by (auto simp: preparing_def cleaned_def)

lemma is_symlink_triple:
  "triple (preparing s0 dest n) (is_symlink dest) (\<lambda>_. preparing s0 dest n)
     (\<lambda>e s. cleaned s0 dest data m s \<and> e = os_error \<and> 1 \<le> n) (crash_state s0 dest data)"
  unfolding is_symlink_def
proof (rule triple_syscall, goal_cases)
  case (3 s m)
  have "failures s \<le> n" using 3(1) by (simp add: preparing_def)
  with failures_pop(2) [OF 3(2)] have "1 \<le> n" by linarith
  then show ?case using starting_cleaned [OF preparing_pop [OF 3(1)]] by simp
qed (auto simp: preparing_pop intro: preparing_crash)

theorem atomic_write_triple:
  assumes "machine_ok s0"
  shows "triple (\<lambda>s. s = s0) (atomic_write_bytes nt names dest (PBytes d))
    (\<lambda>_ s. replaced s0 dest d None s \<and> (\<not> nt \<longrightarrow> committed dest s))
    (write_failure s0 dest d) (crash_state s0 dest d)"
proof -
  let ?n = "failures s0"
  let ?P = "preparing s0 dest ?n"
  let ?S = "\<lambda>s. ?P s \<and> path_mkdir (parent dest) s0 = (Done (), s)"
  let ?E = "write_failure s0 dest d" and ?K = "crash_state s0 dest d"
  let ?Q = "\<lambda>_ s. replaced s0 dest d None s \<and> (\<not> nt \<longrightarrow> committed dest s)"
  have start: "?P s0" by (auto simp: preparing_def others_kept_def kept_def)
  have way: "on_the_way dest (parent dest)"
    by (cases dest rule: rev_cases) (auto simp: parent_def strict_prefix_def)
  have persist: "cls (Exn PersistenceError x) = PersistenceError" for x by simp
  note mkdir_ends = tripleD [OF path_mkdir_triple [OF way] start]
  have parents: "triple (\<lambda>s. s = s0) (path_mkdir (parent dest)) (\<lambda>_. ?S)
      (\<lambda>e s. ?P s \<and> isinstance_of e [OSError]) ?K"
    by (rule tripleI) (use mkdir_ends in auto)
  have mkdir: "triple (\<lambda>s. s = s0) (catchI (path_mkdir (parent dest)) [OSError]
      (\<lambda>_. raiseI (Exn PersistenceError m))) (\<lambda>_. ?S) ?E ?K" for m
    by (rule triple_catch [OF parents])
      (auto simp: write_failure_def intro: starting_cleaned intro!: triple_raise)
  have link: "triple ?S (is_symlink dest) (\<lambda>_. ?P) ?E ?K"
    using tripleD [OF is_symlink_triple, of s0 dest ?n]
    by (intro tripleI) (auto simp: write_failure_def unwrapped_def link_test_raises_def)
  have assign: "triple ?P (thenI (assign_descriptor None) (thenI (assign_temporary None) m)) ?Q ?E ?K"
    if "triple (starting s0 dest ?n) m ?Q ?E ?K" for m
    by (rule triple_then [where R = "\<lambda>s. ?P s \<and> descriptor s = None"], rule tripleI)
      (auto simp: assign_descriptor_def assign_temporary_def preparing_def starting_def
        intro!: triple_then [OF _ that] tripleI)
  have clean: "triple (\<lambda>s. body_failed s0 dest d ?n e s \<and> x)
      (thenI close_descriptor unlink_temporary) (\<lambda>_. cleaned s0 dest d ?n) ?E ?K" for e x
    by (rule triple_then [OF triple_conseq [OF close_descriptor_triple] unlink_temporary_triple])
      (auto simp: write_failure_def unwrapped_def)
  have body: "triple (starting s0 dest ?n)
      (catchI (write_body nt names dest d) [OSError] (\<lambda>_. raiseI (Exn PersistenceError m))) ?Q
      (\<lambda>e s. (\<exists>e'. body_failed s0 dest d ?n e' s) \<and> cls e = PersistenceError) ?K" for m
    by (rule triple_catch [OF write_body_triple [OF assms]])
      (auto intro!: triple_raise simp: body_failed_def)
  have final: "triple (starting s0 dest ?n)
      (finallyI (catchI (write_body nt names dest d) [OSError] (\<lambda>_. raiseI (Exn PersistenceError m)))
        (thenI close_descriptor unlink_temporary)) ?Q ?E ?K" for m
  proof (rule triple_finally [OF body])
    show "triple (?Q x) (thenI close_descriptor unlink_temporary) (\<lambda>_. ?Q x) ?E ?K" for x
      by (rule nothing_to_clean)
    show "triple (\<lambda>s. (\<exists>e'. body_failed s0 dest d ?n e' s) \<and> cls e = PersistenceError)
        (thenI close_descriptor unlink_temporary) (\<lambda>_. ?E e) ?E ?K" for e
      using tripleD [OF clean [of _ True]]
      by (intro tripleI) (fastforce simp: write_failure_def)+
  qed
  have refuse: "triple ?P (raiseI (Exn PersistenceError m)) ?Q ?E ?K" for m
    by (rule triple_raise) (auto simp: write_failure_def intro: starting_cleaned)
  show ?thesis
    unfolding atomic_write_bytes_def pyval.case
    by (intro triple_then [OF mkdir] triple_bind [OF link])
      (simp add: refuse assign [OF final])
qed

end
