(* ===== verification/Store.thy ===== *)
theory Store
  imports Protocol Crypto Persistence
begin

text \<open>
  \<^verbatim>\<open>src/cyphersyntax/store.py\<close>: a JSON object encrypted under a passphrase in one file.  The salt
  and the nonce of \<^verbatim>\<open>os.urandom\<close> are arguments of \<^verbatim>\<open>save\<close>; the store object is its path and its
  passphrase.
\<close>

section \<open>Constants\<close>

definition STORE_MAGIC :: bytes where
  "STORE_MAGIC = blit ''CypherSyntax/store''"

definition STORE_VERSION :: nat where
  "STORE_VERSION = 1"

definition STORE_SALT_BYTES :: nat where
  "STORE_SALT_BYTES = 16"

definition STORE_NONCE_BYTES :: nat where
  "STORE_NONCE_BYTES = 12"

definition STORE_TAG_BYTES :: nat where
  "STORE_TAG_BYTES = 16"

definition MAX_STORE_PLAINTEXT_BYTES :: nat where
  "MAX_STORE_PLAINTEXT_BYTES = 1048576"

definition STORE_HEADER :: bytes where
  "STORE_HEADER = STORE_MAGIC @ [to_byte STORE_VERSION]"

definition STORE_FIXED_BYTES :: nat where
  "STORE_FIXED_BYTES = length STORE_HEADER + STORE_SALT_BYTES + STORE_NONCE_BYTES"

definition MAX_STORE_FILE_BYTES :: nat where
  "MAX_STORE_FILE_BYTES = STORE_FIXED_BYTES + MAX_STORE_PLAINTEXT_BYTES + STORE_TAG_BYTES"

definition STORE_ASSOCIATED_DATA :: bytes where
  "STORE_ASSOCIATED_DATA = STORE_HEADER"

section \<open>The payload\<close>

definition store_error :: "pystr \<Rightarrow> exn" where
  "store_error m = Exn StoreError m"

definition store_reject_duplicate_keys :: "(pystr \<times> pyval) list \<Rightarrow> pyval res" where
  "store_reject_duplicate_keys pairs =
     collect_pairs (\<lambda>key. store_error (lit ''duplicate encrypted-store field: '' @ key)) [] pairs"

definition store_reject_nonfinite_number :: "pystr \<Rightarrow> pyval res" where
  "store_reject_nonfinite_number value =
     Inl (store_error (lit ''non-finite JSON number is not permitted: '' @ value))"

definition encode_object :: "runtime \<Rightarrow> pyval \<Rightarrow> bytes res" where
  "encode_object rt obj =
     (case obj of
        PDict kvs \<Rightarrow>
          thenE (raise_if (\<exists>kv \<in> set kvs. str_key (fst kv) = None)
                  (Exn TypeError (lit ''encrypted store keys must be strings'')))
         (bindE
            (wrap_exn [TypeError, ValueError, UnicodeEncodeError]
              (\<lambda>_. store_error (lit ''encrypted store payload is not canonical JSON''))
              (bindE (dumps rt False False obj) utf8_encode))
            (\<lambda>encoded.
              thenE (raise_if (length encoded > MAX_STORE_PLAINTEXT_BYTES)
                      (store_error (lit ''encrypted store payload exceeds the maximum size'')))
              (Inr encoded)))
      | _ \<Rightarrow> Inl (Exn TypeError (lit ''encrypted store payload must be a dictionary'')))"

section \<open>The store\<close>

record EncryptedStore =
  store_path :: path
  store_passphrase :: bytes

definition make_store :: "path \<Rightarrow> pyval \<Rightarrow> EncryptedStore res" where
  "make_store p passphrase =
     thenE (validate_passphrase passphrase)
       (Inr \<lparr>store_path = p, store_passphrase = the_bytes passphrase\<rparr>)"

definition derive_key :: "crypto \<Rightarrow> EncryptedStore \<Rightarrow> bytes \<Rightarrow> bytes res" where
  "derive_key c self salt =
     thenE (raise_if (length salt \<noteq> STORE_SALT_BYTES)
             (store_error (lit ''encrypted store salt has an invalid length'')))
       (Inr (scrypt_derive c salt (store_passphrase self)))"

text \<open>The bytes that \<^verbatim>\<open>save\<close> writes.\<close>

definition seal_store :: "crypto \<Rightarrow> runtime \<Rightarrow> bytes \<Rightarrow> bytes \<Rightarrow> EncryptedStore \<Rightarrow> pyval \<Rightarrow> bytes res" where
  "seal_store c rt salt nonce self obj =
     bindE (encode_object rt obj) (\<lambda>plaintext.
     bindE (derive_key c self salt) (\<lambda>key.
     bindE (siv_encrypt c key nonce plaintext STORE_ASSOCIATED_DATA) (\<lambda>ciphertext.
       Inr (STORE_HEADER @ salt @ nonce @ ciphertext))))"

definition store_save ::
    "crypto \<Rightarrow> runtime \<Rightarrow> bool \<Rightarrow> pystr list \<Rightarrow> bytes \<Rightarrow> bytes \<Rightarrow> EncryptedStore \<Rightarrow> pyval \<Rightarrow> unit io" where
  "store_save c rt nt names salt nonce self obj =
     bindI (liftI (seal_store c rt salt nonce self obj)) (\<lambda>blob.
     catchI (atomic_write_bytes nt names (store_path self) (PBytes blob)) [PersistenceError]
       (\<lambda>_. raiseI (store_error (lit ''failed to save encrypted store''))))"

text \<open>The payload of decrypted bytes.\<close>

definition decode_payload :: "runtime \<Rightarrow> bytes \<Rightarrow> pyval res" where
  "decode_payload rt plaintext =
     bindE
       (catchE
         (bindE (decode_utf8 plaintext)
           (loads rt store_reject_duplicate_keys store_reject_nonfinite_number))
         (\<lambda>exc.
           if isinstance_of exc [StoreError] then Inl exc
           else if isinstance_of exc [UnicodeDecodeError, JSONDecodeError, RecursionError, ValueError]
           then Inl (store_error (lit ''decrypted store payload is not valid JSON''))
           else Inl exc))
       (\<lambda>raw.
         case raw of
           PDict kvs \<Rightarrow>
             bindE (encode_object rt raw) (\<lambda>encoded.
             thenE (raise_if (encoded \<noteq> plaintext)
                     (store_error (lit ''decrypted store payload is not canonically encoded'')))
             (Inr raw))
         | _ \<Rightarrow> Inl (store_error (lit ''decrypted store payload must be a dictionary'')))"

definition open_store :: "crypto \<Rightarrow> runtime \<Rightarrow> EncryptedStore \<Rightarrow> bytes \<Rightarrow> pyval res" where
  "open_store c rt self blob =
     (let minimum_size = STORE_FIXED_BYTES + STORE_TAG_BYTES in
      thenE (raise_if (length blob < minimum_size)
              (store_error (lit ''encrypted store is truncated'')))
     (thenE (raise_if (length blob > MAX_STORE_FILE_BYTES)
              (store_error (lit ''encrypted store exceeds the maximum file size'')))
     (thenE (raise_if (take (length STORE_MAGIC) blob \<noteq> STORE_MAGIC)
              (store_error (lit ''encrypted store has an invalid format marker'')))
     (let version = unat (blob ! length STORE_MAGIC) in
      thenE (raise_if (version \<noteq> STORE_VERSION)
              (store_error (lit ''unsupported encrypted store version: '' @ dec_nat version)))
     (let salt_start = length STORE_HEADER;
          nonce_start = salt_start + STORE_SALT_BYTES;
          ciphertext_start = nonce_start + STORE_NONCE_BYTES;
          salt = take (nonce_start - salt_start) (drop salt_start blob);
          nonce = take (ciphertext_start - nonce_start) (drop nonce_start blob);
          ciphertext = drop ciphertext_start blob in
      bindE (derive_key c self salt) (\<lambda>key.
      bindE (wrap_exn [InvalidTag]
              (\<lambda>_. store_error (lit ''encrypted store authentication failed''))
              (siv_decrypt c key nonce ciphertext STORE_ASSOCIATED_DATA)) (\<lambda>plaintext.
      thenE (raise_if (length plaintext > MAX_STORE_PLAINTEXT_BYTES)
              (store_error (lit ''decrypted store payload exceeds the maximum size'')))
      (decode_payload rt plaintext))))))))"

definition store_load :: "crypto \<Rightarrow> runtime \<Rightarrow> EncryptedStore \<Rightarrow> pyval io" where
  "store_load c rt self =
     bindI (catchI (read_bytes (store_path self)) [OSError]
             (\<lambda>_. raiseI (store_error (lit ''failed to read encrypted store'')))) (\<lambda>blob.
     liftI (open_store c rt self blob))"

interpretation store_hook: pairs_hook store_reject_duplicate_keys StoreError
proof unfold_locales
  fix ps :: "(pystr \<times> pyval) list"
  show "distinct (map fst ps) \<Longrightarrow> store_reject_duplicate_keys ps = Inr (str_dict ps)"
    by (simp add: store_reject_duplicate_keys_def collect_pairs_distinct)
  show "\<not> distinct (map fst ps) \<Longrightarrow> \<exists>m. store_reject_duplicate_keys ps = Inl (Exn StoreError m)"
    using collect_pairs_duplicate [of "[]" ps]
    by (auto simp: store_reject_duplicate_keys_def store_error_def)
qed simp

section \<open>Payloads that survive\<close>

text \<open>
  What a store can hold: JSON values with string keys, and integers, floats and text that have a
  notation.  The keys of a dictionary are distinct and in any order; \<open>normal\<close> orders them, which
  gives an equal Python dictionary.
\<close>

function storable :: "runtime \<Rightarrow> nat \<Rightarrow> pyval \<Rightarrow> bool" where
  "storable rt d PNone = True"
| "storable rt d (PBool b) = True"
| "storable rt d (PInt i) = int_prints i"
| "storable rt d (PFloat w) = float_canonical rt w"
| "storable rt d (PStr s) = list_all is_scalar s"
| "storable rt d (PBytes b) = False"
| "storable rt d (PTuple xs) = False"
| "storable rt d PObj = False"
| "storable rt 0 (PList xs) = False"
| "storable rt (Suc d) (PList xs) = list_all (storable rt d) xs"
| "storable rt 0 (PDict kvs) = False"
| "storable rt (Suc d) (PDict kvs) =
     (list_all (\<lambda>kv. case str_key (fst kv) of None \<Rightarrow> False | Some s \<Rightarrow> list_all is_scalar s) kvs \<and>
      distinct (map (\<lambda>kv. the (str_key (fst kv))) kvs) \<and>
      list_all (\<lambda>kv. storable rt d (snd kv)) kvs)"
  by pat_completeness auto
termination
  by (relation "measure (\<lambda>(rt, d, v). d)") auto

fun normal :: "nat \<Rightarrow> pyval \<Rightarrow> pyval" where
  "normal (Suc d) (PList xs) = PList (map (\<lambda>x. normal d x) xs)"
| "normal (Suc d) (PDict kvs) =
     PDict (sort_key (\<lambda>kv. the (str_key (fst kv))) (map (\<lambda>kv. (fst kv, normal d (snd kv))) kvs))"
| "normal d v = v"

lemma storable_dictE:
  assumes "storable rt (Suc d) (PDict kvs)"
  obtains ps where "PDict kvs = str_dict ps" "distinct (map fst ps)"
    "\<forall>kv \<in> set ps. list_all is_scalar (fst kv)" "\<forall>kv \<in> set ps. storable rt d (snd kv)"
proof -
  let ?ps = "map (\<lambda>kv. (the (str_key (fst kv)), snd kv)) kvs"
  have k: "\<exists>s. fst kv = PStr s \<and> list_all is_scalar s" if "kv \<in> set kvs" for kv
    using assms that by (cases "fst kv") (auto simp: list_all_iff split: option.splits)
  have "PDict kvs = str_dict ?ps"
    unfolding str_dict_def by (simp add: comp_def, rule sym, rule map_idI) (use k in force)
  moreover have "distinct (map fst ?ps)"
    using assms by (simp add: comp_def)
  moreover have "\<forall>kv \<in> set ?ps. list_all is_scalar (fst kv)"
    using k by fastforce
  moreover have "\<forall>kv \<in> set ?ps. storable rt d (snd kv)"
    using assms by (auto simp: list_all_iff)
  ultimately show thesis by (rule that)
qed

lemma normal_str_dict:
  "normal (Suc d) (str_dict ps) = str_dict (sort_key fst (map (\<lambda>kv. (fst kv, normal d (snd kv))) ps))"
proof -
  have "map (\<lambda>kv. (fst kv, normal d (snd kv))) (map (\<lambda>kv. (PStr (fst kv), snd kv)) ps) =
      map (\<lambda>kv. (PStr (fst kv), snd kv)) (map (\<lambda>kv. (fst kv, normal d (snd kv))) ps)" by simp
  moreover have "(\<lambda>kv. the (str_key (fst kv))) \<circ> (\<lambda>kv. (PStr (fst kv), snd kv :: pyval)) = fst"
    by auto
  ultimately show ?thesis
    unfolding str_dict_def normal.simps by (simp only: sort_key_map)
qed

lemma dumps_value_dict_cong:
  assumes "\<forall>kv \<in> set ps. dumps_value rt ea an d (snd kv) = dumps_value rt ea an d (f (snd kv))"
  shows "dumps_value rt ea an (Suc d) (str_dict ps) =
    dumps_value rt ea an (Suc d) (str_dict (map (\<lambda>kv. (fst kv, f (snd kv))) ps))"
proof -
  have "map (\<lambda>kv. (fst kv, dumps_value rt ea an d (snd kv))) (map (\<lambda>kv. (PStr (fst kv), snd kv)) ps) =
      map (\<lambda>kv. (fst kv, dumps_value rt ea an d (snd kv)))
        (map (\<lambda>kv. (PStr (fst kv), snd kv)) (map (\<lambda>kv. (fst kv, f (snd kv))) ps))"
    using assms by simp
  then show ?thesis unfolding str_dict_def dumps_value.simps by (simp only:)
qed

lemma dumps_normal:
  "storable rt d v \<Longrightarrow> d \<le> dd \<Longrightarrow> dumps_value rt ea an dd (normal d v) = dumps_value rt ea an dd v"
proof (induction d arbitrary: v dd)
  case 0
  then show ?case by (cases v) auto
next
  case (Suc d)
  then obtain e where e: "dd = Suc e" "d \<le> e" by (cases dd) auto
  show ?case
  proof (cases v)
    case (PList xs)
    have "\<forall>x \<in> set xs. dumps_value rt ea an e (normal d x) = dumps_value rt ea an e x"
      using Suc.prems(1) Suc.IH e(2) PList by (simp add: list_all_iff)
    then have "map (dumps_value rt ea an e) (map (\<lambda>x. normal d x) xs) = map (dumps_value rt ea an e) xs"
      by simp
    then show ?thesis unfolding PList e(1) normal.simps dumps_value.simps by (simp only:)
  next
    case (PDict kvs)
    obtain ps where ps: "PDict kvs = str_dict ps" "\<forall>kv \<in> set ps. storable rt d (snd kv)"
      by (rule storable_dictE [OF Suc.prems(1) [unfolded PDict]])
    have "\<forall>kv \<in> set ps. dumps_value rt ea an e (snd kv) = dumps_value rt ea an e (normal d (snd kv))"
      by (rule ballI, rule sym, rule Suc.IH [OF _ e(2)], rule bspec [OF ps(2)])
    from dumps_value_dict_cong [OF this] show ?thesis
      unfolding PDict ps(1) e(1) normal_str_dict dumps_value_sort [symmetric] ..
  qed auto
qed

lemma canonical_normal: "storable rt d v \<Longrightarrow> canonical rt d (normal d v)"
proof (induction d arbitrary: v)
  case 0
  then show ?case by (cases v) auto
next
  case (Suc d)
  show ?case
  proof (cases v)
    case (PDict kvs)
    obtain ps where ps: "PDict kvs = str_dict ps" "distinct (map fst ps)"
      "\<forall>kv \<in> set ps. list_all is_scalar (fst kv)" "\<forall>kv \<in> set ps. storable rt d (snd kv)"
      by (rule storable_dictE [OF Suc.prems [unfolded PDict]])
    let ?qs = "map (\<lambda>kv. (fst kv, normal d (snd kv))) ps"
    have "distinct (map fst ?qs)" using ps(2) by (simp add: comp_def)
    then have "sorted_wrt (<) (map fst (sort_key fst ?qs))" by (rule sort_key_strict)
    then show ?thesis
      unfolding PDict ps(1) normal_str_dict canonical_str_dict
      using ps(3,4) Suc.IH by (simp add: list_all_iff)
  qed (use Suc in \<open>auto simp: list_all_iff\<close>)
qed

section \<open>Opening what was sealed\<close>

lemmas store_constants = STORE_MAGIC_def STORE_VERSION_def STORE_SALT_BYTES_def STORE_NONCE_BYTES_def
  STORE_TAG_BYTES_def MAX_STORE_PLAINTEXT_BYTES_def STORE_HEADER_def STORE_FIXED_BYTES_def
  MAX_STORE_FILE_BYTES_def STORE_ASSOCIATED_DATA_def

lemma encode_object_eq_Inr:
  "encode_object rt obj = Inr p \<longleftrightarrow>
     (\<exists>kvs t. obj = PDict kvs \<and> (\<forall>kv \<in> set kvs. str_key (fst kv) \<noteq> None) \<and>
        dumps rt False False obj = Inr t \<and> utf8_encode t = Inr p \<and>
        length p \<le> MAX_STORE_PLAINTEXT_BYTES)"
  by (cases obj) (auto simp: encode_object_def res_simps)

lemma str_dict_keys: "PDict kvs = str_dict ps \<Longrightarrow> \<forall>kv \<in> set kvs. str_key (fst kv) \<noteq> None"
  by (auto simp: str_dict_def)

lemma dumps_dict_nonempty: "dumps rt ea an (PDict kvs) = Inr t \<Longrightarrow> t \<noteq> []"
  by (cases "dumps_depth rt") (auto simp: dumps_def res_simps lit_def)

lemma encode_object_nonempty: "encode_object rt obj = Inr p \<Longrightarrow> p \<noteq> []"
  using dumps_dict_nonempty by (fastforce simp: encode_object_eq_Inr res_simps concat_utf8_eq_Nil)

text \<open>Storable objects within the recursion limit of the interpreter.\<close>

definition fits :: "runtime \<Rightarrow> nat \<Rightarrow> pyval \<Rightarrow> bool" where
  "fits rt d obj \<longleftrightarrow> storable rt d obj \<and> d \<le> dumps_depth rt \<and> d \<le> loads_depth rt"

lemma decode_encode:
  assumes "fits rt d obj" "encode_object rt obj = Inr p"
  shows "decode_payload rt p = Inr (normal d obj)"
proof -
  have s: "storable rt d obj" "d \<le> dumps_depth rt" "d \<le> loads_depth rt"
    using assms(1) by (simp_all add: fits_def)
  obtain kvs t where t: "obj = PDict kvs" "dumps rt False False obj = Inr t" "utf8_encode t = Inr p"
    "length p \<le> MAX_STORE_PLAINTEXT_BYTES"
    using assms(2) by (auto simp: encode_object_eq_Inr)
  obtain e where e: "d = Suc e" using s(1) t(1) by (cases d) auto
  obtain ps where ps: "PDict kvs = str_dict ps"
    by (rule storable_dictE [OF s(1) [unfolded e t(1)]])
  obtain qs where qs: "normal d obj = str_dict qs"
    unfolding t(1) e ps normal_str_dict by blast
  have same: "dumps rt False False (normal d obj) = Inr t"
    using dumps_normal [OF s(1,2), of False False] t(2) by (simp add: dumps_def)
  have "loads rt store_reject_duplicate_keys store_reject_nonfinite_number t = Inr (normal d obj)"
    using store_hook.loads_dumps [OF canonical_normal [OF s(1)] s(2,3), of False False
        store_reject_nonfinite_number] same by auto
  moreover have "decode_utf8 p = Inr t"
    using utf8_decode_encode [OF t(3)] by (simp add: decode_utf8_def)
  moreover have "encode_object rt (normal d obj) = Inr p"
    using same t(3,4) unfolding qs by (auto simp: encode_object_eq_Inr str_dict_def)
  ultimately show ?thesis unfolding qs by (simp add: decode_payload_def str_dict_def)
qed

lemma header_length [simp]: "length STORE_HEADER = 19"
  by (simp add: store_constants)

lemma open_store_split:
  assumes "length salt = 16" "length nonce = 12"
  shows "open_store c rt self (STORE_HEADER @ salt @ nonce @ ct) =
    thenE (raise_if (length ct < 16) (store_error (lit ''encrypted store is truncated'')))
   (thenE (raise_if (length ct > 1048592)
            (store_error (lit ''encrypted store exceeds the maximum file size'')))
   (bindE (wrap_exn [InvalidTag]
            (\<lambda>_. store_error (lit ''encrypted store authentication failed''))
            (siv_decrypt c (scrypt_derive c salt (store_passphrase self)) nonce ct STORE_HEADER))
     (\<lambda>plaintext.
      thenE (raise_if (length plaintext > MAX_STORE_PLAINTEXT_BYTES)
              (store_error (lit ''decrypted store payload exceeds the maximum size'')))
      (decode_payload rt plaintext))))"
proof -
  have m: "length STORE_MAGIC = 18" by (simp add: store_constants)
  have magic: "take (length STORE_MAGIC) (STORE_HEADER @ x) = STORE_MAGIC"
    "(STORE_HEADER @ x) ! length STORE_MAGIC = to_byte STORE_VERSION" for x
    by (simp_all add: STORE_HEADER_def nth_append)
  have v: "unat (to_byte STORE_VERSION) = STORE_VERSION" by (simp add: STORE_VERSION_def)
  have key: "derive_key c self salt = Inr (scrypt_derive c salt (store_passphrase self))"
    using assms by (simp add: derive_key_def STORE_SALT_BYTES_def)
  have parts: "take 16 (drop 19 (STORE_HEADER @ salt @ nonce @ ct)) = salt"
    "take 12 (drop 35 (STORE_HEADER @ salt @ nonce @ ct)) = nonce"
    "drop 47 (STORE_HEADER @ salt @ nonce @ ct) = ct"
    using assms by simp_all
  have sizes: "STORE_FIXED_BYTES + STORE_TAG_BYTES = 63" "MAX_STORE_FILE_BYTES = 1048639"
    by (simp_all add: STORE_FIXED_BYTES_def STORE_SALT_BYTES_def STORE_NONCE_BYTES_def
        STORE_TAG_BYTES_def MAX_STORE_FILE_BYTES_def MAX_STORE_PLAINTEXT_BYTES_def)
  have len: "length (STORE_HEADER @ salt @ nonce @ ct) = 47 + length ct" using assms by simp
  have bounds: "(47 + length ct < 63) = (length ct < 16)"
    "(1048639 < 47 + length ct) = (1048592 < length ct)" by auto
  show ?thesis
    unfolding open_store_def Let_def sizes len magic v bounds STORE_SALT_BYTES_def STORE_NONCE_BYTES_def
      header_length STORE_ASSOCIATED_DATA_def
    using parts key by simp
qed

text \<open>What was sealed opens to what the decoder makes of the encoded object.\<close>

lemma open_seal:
  assumes "lengths_ok c" "ciphers_correct c" "length salt = 16" "length nonce = 12"
    and "encode_object rt obj = Inr p"
  shows "\<exists>blob. seal_store c rt salt nonce self obj = Inr blob \<and>
    open_store c rt self blob = decode_payload rt p"
proof -
  let ?k = "scrypt_derive c salt (store_passphrase self)"
  have p: "p \<noteq> []" "length p \<le> 1048576"
    using encode_object_nonempty [OF assms(5)] assms(5)
    by (auto simp: encode_object_eq_Inr MAX_STORE_PLAINTEXT_BYTES_def)
  have "length ?k = 32" using assms(1) by (simp add: lengths_ok_def)
  then obtain ct where ct: "siv_encrypt c ?k nonce p STORE_HEADER = Inr ct"
    "length ct = length p + 16" "siv_decrypt c ?k nonce ct STORE_HEADER = Inr p"
    using assms(2,4) p(1) unfolding ciphers_correct_def cipher_correct_def by blast
  have "seal_store c rt salt nonce self obj = Inr (STORE_HEADER @ salt @ nonce @ ct)"
    using assms(3,5) ct(1)
    by (simp add: seal_store_def derive_key_def STORE_SALT_BYTES_def STORE_ASSOCIATED_DATA_def)
  moreover have "open_store c rt self (STORE_HEADER @ salt @ nonce @ ct) = decode_payload rt p"
    using open_store_split [OF assms(3,4)] ct p(2)
    by (simp add: MAX_STORE_PLAINTEXT_BYTES_def)
  ultimately show ?thesis by blast
qed

end
