(* ===== verification/AtomicWrite.thy ===== *)
theory AtomicWrite
  imports Persistence
begin

text \<open>
  What \<open>atomic_write_bytes\<close> guarantees: nothing but the old or the new file at any time, the new
  one for good once it has returned, no left-overs, and success on a system that works.
\<close>

section \<open>Reading the final states\<close>

lemma written_crash:
  "replaced s0 dest d tv s \<Longrightarrow> crash_state s0 dest d s"
  "write_failure s0 dest d e s \<Longrightarrow> crash_state s0 dest d s"
  by (auto simp: replaced_def write_failure_def cleaned_def crash_state_def)

lemma atomic_write_state:
  assumes "machine_ok s0" "atomic_write_bytes nt names dest (PBytes d) s0 = (r, s)"
  shows "crash_state s0 dest d s"
  using tripleD [OF atomic_write_triple [OF assms(1)], of s0 nt names dest d] assms(2) written_crash
  by (cases r) blast+

lemma crash_state_cases:
  assumes "crash_state s0 dest d s"
  obtains t where "others_kept s0 dest t s" "kept s0 dest s"
  | t where "others_kept s0 dest t s" "written s0 dest d s"
  using assms by (auto simp: crash_state_def)

lemma file_at_other:
  assumes "machine_ok s0" "others_kept s0 dest t s" "q \<noteq> dest" "file_at s0 q = Some b"
  shows "file_at s q = Some b"
proof -
  obtain i where i: "entries s0 q = Some (Regular i)" "content s0 i = b"
    using assms(4) by (auto simp: file_at_def split: option.splits entry.splits)
  have "i < next_inode s0" using assms(1) i(1) unfolding machine_ok_def by (metis insertI1)
  moreover have "t \<noteq> Some q" using assms(2) i(1) by (auto simp: others_kept_def fresh_name_def)
  ultimately show ?thesis
    using assms(2,3) i by (auto simp: others_kept_def file_at_def)
qed

lemma file_at_dest:
  assumes "machine_ok s0" "crash_state s0 dest d s"
  shows "file_at s dest = file_at s0 dest \<or> file_at s dest = Some d"
  using assms(2)
proof (cases rule: crash_state_cases)
  case (1 t)
  have "content s i = content s0 i" if "entries s0 dest = Some (Regular i)" for i
    using assms(1) 1(1) that unfolding machine_ok_def others_kept_def by (metis insertI1)
  with 1(2) show ?thesis by (auto simp: file_at_def kept_def split: option.splits entry.splits)
next
  case (2 t)
  then show ?thesis by (auto simp: written_def file_at_def)
qed

lemma inode_view_kept:
  assumes "machine_ok s0" "others_kept s0 dest t s" "e \<in> on_disk s0 p"
  shows "inode_view s e = inode_view s0 e"
proof -
  have "i < next_inode s0" if "e = Some (Regular i)" for i
    using assms(1,3) that unfolding machine_ok_def by (metis insertI2)
  then show ?thesis
    using assms(2) by (auto simp: inode_view_def others_kept_def split: option.splits entry.splits)
qed

lemma dir_lost_kept:
  assumes "others_kept s0 dest t s" "dir_may_be_lost s dest"
  shows "dir_may_be_lost s0 dest"
  using assms by (fastforce simp: dir_may_be_lost_def others_kept_def)

lemma after_crash_dest:
  assumes "machine_ok s0" "crash_state s0 dest d s"
  shows "after_crash s dest \<subseteq> insert (Some d) (after_crash s0 dest)"
  using assms(2)
proof (cases rule: crash_state_cases)
  case (1 t)
  then show ?thesis
    using inode_view_kept [OF assms(1) 1(1), of _ dest] dir_lost_kept [OF 1(1)]
    by (auto simp: after_crash_def kept_def)
next
  case (2 t)
  then obtain i where i: "content s i = d" "synced s i"
    "on_disk s dest \<subseteq> insert (Some (Regular i)) (on_disk s0 dest)"
    by (auto simp: written_def)
  have "inode_view s (Some (Regular i)) = {Some d}" using i by (simp add: inode_view_def)
  then show ?thesis
    using inode_view_kept [OF assms(1) 2(1), of _ dest] dir_lost_kept [OF 2(1)] i(3)
    by (auto simp: after_crash_def)
qed

section \<open>A system that works\<close>

text \<open>The directories above \<open>dest\<close> are there or can be made.\<close>

definition creatable :: "machine \<Rightarrow> path \<Rightarrow> bool" where
  "creatable s p \<longleftrightarrow> (\<forall>q. prefix q p \<longrightarrow> entries s q = None \<or> entries s q = Some Directory)"

definition temp_path :: "path \<Rightarrow> pystr \<Rightarrow> path" where
  "temp_path dest x = parent dest @ [(lit ''.'' @ file_name dest @ lit ''.'') @ x @ lit ''.tmp'']"

lemma works [simp]: "script s = [] \<Longrightarrow> next_fate s = Works" "script s = [] \<Longrightarrow> pop_fate s = s"
  by (simp_all add: next_fate_def pop_fate_def)

lemma syscall_works:
  "script s = [] \<Longrightarrow> syscall partly act s =
     (case act s of (Inl e, u) \<Rightarrow> (Raised e, u) | (Inr x, u) \<Rightarrow> (Done x, u))"
  by (simp add: syscall_def)

lemma not_file_not_found [simp]:
  "\<not> isinstance_of (Exn FileExistsError m) [FileNotFoundError]"
  "isinstance_of no_such_file [FileNotFoundError]"
  by (simp_all add: isinstance_of_def no_such_file_def is_subclass.simps)

lemma mkdir_existing:
  assumes "script s = []" "entries s p = Some Directory"
  shows "path_mkdir p s = (Done (), s)"
  using assms
  by (simp add: path_mkdir.simps [of p] catchI_def os_mkdir_def syscall_works exist_ok_def bindI_def
      is_dir_def returnI_def)

lemma mkdir_works:
  assumes "script s = []" "entries s [] = Some Directory" "creatable s p"
  shows "\<exists>u. path_mkdir p s = (Done (), u) \<and> script u = [] \<and> entries u p = Some Directory \<and>
    (\<forall>q. \<not> prefix q p \<longrightarrow> entries u q = entries s q)"
  using assms
proof (induction p arbitrary: s rule: path_mkdir.induct)
  case (1 p)
  have pp: "prefix (parent p) p" by (simp add: parent_def prefixeq_butlast)
  have cases: "entries s p = None \<or> entries s p = Some Directory"
    "entries s (parent p) = None \<or> entries s (parent p) = Some Directory"
    using "1.prems"(3) pp by (auto simp: creatable_def)
  have new: "\<exists>u. mkdir_last p v = (Done (), u) \<and> os_mkdir p v = (Done (), u) \<and> script u = [] \<and>
      entries u p = Some Directory \<and> (\<forall>q. q \<noteq> p \<longrightarrow> entries u q = entries v q)"
    if "script v = []" "entries v p = None" "entries v (parent p) = Some Directory" "p \<noteq> []" for v
    using that by (simp add: mkdir_last_def catchI_def os_mkdir_def syscall_works)
  show ?case
  proof (cases "entries s p = Some Directory")
    case True
    with mkdir_existing "1.prems"(1) show ?thesis by auto
  next
    case False
    then have p: "entries s p = None" "p \<noteq> []" using cases(1) "1.prems"(2) by auto
    show ?thesis
    proof (cases "entries s (parent p) = Some Directory")
      case True
      obtain u where u: "os_mkdir p s = (Done (), u)" "script u = []" "entries u p = Some Directory"
        "\<forall>q. q \<noteq> p \<longrightarrow> entries u q = entries s q"
        using new [OF "1.prems"(1) p(1) True p(2)] by blast
      then show ?thesis by (auto simp: path_mkdir.simps [of p] catchI_def)
    next
      case False
      then have none: "entries s (parent p) = None" using cases(2) by simp
      have fail: "os_mkdir p s = (Raised no_such_file, s)"
        using "1.prems"(1) p none by (simp add: os_mkdir_def syscall_works)
      have "creatable s (parent p)"
        using "1.prems"(3) pp prefix_order.trans unfolding creatable_def by blast
      then obtain v where v: "path_mkdir (parent p) s = (Done (), v)" "script v = []"
        "entries v (parent p) = Some Directory"
        "\<forall>q. \<not> prefix q (parent p) \<longrightarrow> entries v q = entries s q"
        using "1.IH" [OF not_file_not_found(2) p(2) "1.prems"(1,2)] by blast
      have "\<not> prefix p (parent p)"
        using p(2) prefix_length_le [of p "parent p"] by (cases p) (auto simp: parent_def)
      with v(4) p(1) have "entries v p = None" by simp
      then obtain u where u: "mkdir_last p v = (Done (), u)" "script u = []"
        "entries u p = Some Directory" "\<forall>q. q \<noteq> p \<longrightarrow> entries u q = entries v q"
        using new [OF v(2) _ v(3) p(2)] by blast
      have "path_mkdir p s = (Done (), u)"
        using fail v(1) u(1) p(2)
        by (simp add: path_mkdir.simps [of p] catchI_def thenI_def bindI_def)
      moreover have "\<forall>q. \<not> prefix q p \<longrightarrow> entries u q = entries s q"
        using u(4) v(4) pp prefix_order.trans by (metis prefix_order.refl)
      ultimately show ?thesis using u by blast
    qed
  qed
qed

text \<open>
  From here on the parent is a directory and \<open>dest\<close> is none; \<open>t\<close> is the temporary file.  No step
  raises.
\<close>

definition fine :: "path \<Rightarrow> path option \<Rightarrow> machine \<Rightarrow> bool" where
  "fine dest t s \<longleftrightarrow> script s = [] \<and> dest \<noteq> [] \<and> entries s (parent dest) = Some Directory \<and>
     entries s dest \<noteq> Some Directory \<and>
     (\<forall>q. t = Some q \<longrightarrow> (\<exists>i. entries s q = Some (Regular i)) \<and> q \<noteq> dest \<and> q \<noteq> parent dest)"

definition smooth :: "(machine \<Rightarrow> bool) \<Rightarrow> 'a io \<Rightarrow> ('a \<Rightarrow> machine \<Rightarrow> bool) \<Rightarrow> bool" where
  "smooth P m Q \<longleftrightarrow> triple P m Q (\<lambda>_ _. False) (\<lambda>_. False)"

lemma smooth_then: "smooth P m (\<lambda>_. R) \<Longrightarrow> smooth R n Q \<Longrightarrow> smooth P (thenI m n) Q"
  unfolding smooth_def by (rule triple_then)

lemma smooth_bind: "smooth P m R \<Longrightarrow> (\<And>x. smooth (R x) (f x) Q) \<Longrightarrow> smooth P (bindI m f) Q"
  unfolding smooth_def by (rule triple_bind)

lemma smooth_catch: "smooth P m Q \<Longrightarrow> smooth P (catchI m cs h) Q"
  unfolding smooth_def by (rule triple_catch) (auto simp: triple_def)

lemma smooth_finally: "smooth P m R \<Longrightarrow> (\<And>x. smooth (R x) f (\<lambda>_. Q x)) \<Longrightarrow> smooth P (finallyI m f) Q"
  unfolding smooth_def
  by (rule triple_finally [where R = R and S = "\<lambda>_ _. False"]) (simp_all add: triple_def [of "\<lambda>_. False"])

lemma smooth_syscall:
  assumes "\<And>s. P s \<Longrightarrow> script s = []" "\<And>s. P s \<Longrightarrow> \<exists>x t. act s = (Inr x, t) \<and> Q x t"
  shows "smooth P (syscall partly act) Q"
  unfolding smooth_def
proof (rule tripleI)
  fix s assume s: "P s"
  note c = syscall_works [OF assms(1) [OF s], of partly act]
  obtain x t where a: "act s = (Inr x, t)" "Q x t" using assms(2) [OF s] by blast
  show "Q y u" if "syscall partly act s = (Done y, u)" for y u using that a unfolding c by simp
  show False if "syscall partly act s = (Raised e, u)" for e u using that a unfolding c by simp
  show False if "syscall partly act s = (Crashed, u)" for u using that a unfolding c by simp
qed

lemma smooth_done:
  fixes m :: "unit io"
  assumes "smooth P m Q" "P s"
  shows "\<exists>u. m s = (Done (), u) \<and> Q () u"
  using assms by (cases "m s"; cases "fst (m s)") (auto simp: smooth_def triple_def)

lemma fine_steps:
  "smooth (fine dest t) (handle_write fd d) (\<lambda>_. fine dest t)"
  "smooth (fine dest t) (handle_flush fd) (\<lambda>_. fine dest t)"
  "smooth (fine dest t) (os_fsync fd) (\<lambda>_. fine dest t)"
  "smooth (fine dest t) (os_close fd) (\<lambda>_. fine dest t)"
  "smooth (fine dest t) (os_fdopen fd) (\<lambda>_. fine dest t)"
  "smooth (fine dest t) (path_chmod dest) (\<lambda>_. fine dest t)"
  "smooth (fine dest t) (open_directory (parent dest)) (\<lambda>_. fine dest t)"
  unfolding handle_write_def handle_flush_def os_fsync_def os_close_def os_fdopen_def path_chmod_def
    open_directory_def
  by (rule smooth_syscall;
      simp add: fine_def append_to_def commit_def release_def split: option.splits fd_target.splits)+

lemma fine_assign:
  "smooth (fine dest t) (assign_descriptor dv) (\<lambda>_. fine dest t)"
  "smooth (fine dest t) (assign_temporary tv) (\<lambda>_. fine dest t)"
  by (simp_all add: smooth_def triple_def assign_descriptor_def assign_temporary_def fine_def)

lemma fine_fchmod: "smooth (fine dest t) (catchI (os_fchmod nt fd) [AttributeError, OSError]
    (\<lambda>_. returnI ())) (\<lambda>_. fine dest t)"
proof (cases nt)
  case True
  then show ?thesis
    by (simp add: os_fchmod_def smooth_def triple_def catchI_def raiseI_def returnI_def
        isinstance_of_def is_subclass.simps)
next
  case False
  then show ?thesis
    by (simp add: os_fchmod_def, intro smooth_catch smooth_syscall) (simp_all add: fine_def)
qed

lemma fine_replace:
  "smooth (fine dest (Some t)) (os_replace t dest) (\<lambda>_. fine dest None)"
  unfolding os_replace_def
proof (rule smooth_syscall)
  fix s assume s: "fine dest (Some t) s"
  then obtain i where "entries s t = Some (Regular i)" by (auto simp: fine_def)
  moreover have "parent dest \<noteq> dest"
    using s by (cases dest rule: rev_cases) (auto simp: fine_def parent_def)
  ultimately show "\<exists>x u. (case entries s t of None \<Rightarrow> (Inl no_such_file, s)
     | Some e \<Rightarrow>
         if entries s dest = Some Directory then (Inl (Exn OSError (lit ''Is a directory'')), s)
         else (Inr (), set_entry t None (set_entry dest (Some e) s))) = (Inr x, u) \<and> fine dest None u"
    using s by (auto simp: fine_def)
qed (simp add: fine_def)

lemma temp_path_neq: "dest \<noteq> [] \<Longrightarrow> temp_path dest x \<noteq> dest \<and> temp_path dest x \<noteq> parent dest"
proof
  assume d: "dest \<noteq> []"
  show "temp_path dest x \<noteq> dest"
  proof
    assume "temp_path dest x = dest"
    then have "last (temp_path dest x) = last dest" by simp
    then have "length (last (temp_path dest x)) = length (last dest)" by simp
    with d show False by (simp add: temp_path_def file_name_def)
  qed
  show "temp_path dest x \<noteq> parent dest"
    by (rule notI, drule arg_cong [of _ _ length]) (simp add: temp_path_def)
qed

lemma fine_mkstemp:
  assumes "script s = []" "fine dest None s" "x \<in> set names" "entries s (temp_path dest x) = None"
  shows "\<exists>fdt u. mkstemp (lit ''.'' @ file_name dest @ lit ''.'') (lit ''.tmp'') (parent dest) names s =
      (Done fdt, u) \<and> fine dest (Some (snd fdt)) u"
  using assms(3)
proof (induction names)
  case (Cons y ys)
  have path: "parent dest @ [(lit ''.'' @ file_name dest @ lit ''.'') @ z @ lit ''.tmp''] = temp_path dest z"
    for z by (simp add: temp_path_def)
  show ?case
  proof (cases "entries s (temp_path dest y) = None")
    case True
    have "parent (temp_path dest y) = parent dest" by (simp add: temp_path_def parent_def)
    moreover have "dest \<noteq> []" using assms(2) by (simp add: fine_def)
    ultimately show ?thesis
      using True assms(1,2) temp_path_neq [of dest y]
      unfolding mkstemp.simps path
      by (auto simp: catchI_def bindI_def open_exclusive_def syscall_works returnI_def fine_def)
  next
    case False
    then have "x \<noteq> y" using assms(4) by auto
    then have "x \<in> set ys" using Cons.prems by simp
    from Cons.IH [OF this] False assms(1) show ?thesis
      unfolding mkstemp.simps path
      by (auto simp: catchI_def bindI_def open_exclusive_def syscall_works isinstance_of_def)
  qed
qed simp

lemma smooth_returned: "(\<And>s. P s \<Longrightarrow> Q x s) \<Longrightarrow> smooth P (returnI x) Q"
  by (simp add: smooth_def triple_return)

lemma fine_sync: "smooth (fine dest None) (sync_directory nt (parent dest)) (\<lambda>_. fine dest None)"
  unfolding sync_directory_def
  by (cases nt)
    (simp_all add: smooth_returned smooth_bind [OF fine_steps(7)] smooth_finally [OF fine_steps(3,4)])

lemma fine_body:
  assumes "script s = []" "fine dest None s" "x \<in> set names" "entries s (temp_path dest x) = None"
  shows "\<exists>u. write_body nt names dest d s = (Done (), u) \<and> fine dest None u"
proof -
  obtain fdt v where v: "mkstemp (lit ''.'' @ file_name dest @ lit ''.'') (lit ''.tmp'') (parent dest)
      names s = (Done fdt, v)" "fine dest (Some (snd fdt)) v"
    using fine_mkstemp [OF assms] by blast
  let ?F = "fine dest (Some (snd fdt))"
  have handle: "smooth ?F (write_handle h d) (\<lambda>_. ?F)" for h
    unfolding write_handle_def
    by (rule smooth_finally [OF smooth_then [OF fine_assign(1) smooth_then [OF fine_steps(1)
        smooth_then [OF fine_steps(2,3)]]] fine_steps(4)])
  have all: "smooth ?F (thenI (assign_descriptor (Some (fst fdt)))
    (thenI (assign_temporary (Some (snd fdt)))
    (thenI (catchI (os_fchmod nt (fst fdt)) [AttributeError, OSError] (\<lambda>_. returnI ()))
    (bindI (os_fdopen (fst fdt)) (\<lambda>handle.
     thenI (write_handle handle d)
    (thenI (os_replace (snd fdt) dest)
    (thenI (assign_temporary None)
    (thenI (catchI (path_chmod dest) [OSError] (\<lambda>_. returnI ()))
    (sync_directory nt (parent dest)))))))))) (\<lambda>_. fine dest None)"
    by (intro smooth_then [OF fine_assign(1)] smooth_then [OF fine_assign(2)] smooth_then [OF fine_fchmod]
        smooth_bind [OF fine_steps(5)] smooth_then [OF handle] smooth_then [OF fine_replace]
        smooth_then [OF smooth_catch [OF fine_steps(6)]] fine_sync)
  show ?thesis
    unfolding write_body_def bindI_def [of "mkstemp _ _ _ _"] v(1)
    using smooth_done [OF all v(2)] by simp
qed

text \<open>\<open>dest\<close> can be written: its directories, its entry and a temporary name.\<close>

definition writable :: "machine \<Rightarrow> path \<Rightarrow> pystr list \<Rightarrow> bool" where
  "writable s dest names \<longleftrightarrow>
     dest \<noteq> [] \<and> creatable s (parent dest) \<and>
     entries s dest \<noteq> Some Directory \<and> (\<forall>q. entries s dest \<noteq> Some (SymbolicLink q)) \<and>
     (\<exists>x \<in> set names. entries s (temp_path dest x) = None)"

lemma atomic_write_works:
  assumes "machine_ok s0" "script s0 = []" "writable s0 dest names"
  shows "\<exists>s. atomic_write_bytes nt names dest (PBytes d) s0 = (Done (), s) \<and>
    replaced s0 dest d None s \<and> (\<not> nt \<longrightarrow> committed dest s) \<and> script s = []"
proof -
  have root: "entries s0 [] = Some Directory" using assms(1) by (simp add: machine_ok_def)
  have w: "dest \<noteq> []" "creatable s0 (parent dest)" "entries s0 dest \<noteq> Some Directory"
    "\<forall>q. entries s0 dest \<noteq> Some (SymbolicLink q)"
    using assms(3) by (simp_all add: writable_def)
  obtain x where x: "x \<in> set names" "entries s0 (temp_path dest x) = None"
    using assms(3) by (auto simp: writable_def)
  obtain u where u: "path_mkdir (parent dest) s0 = (Done (), u)" "script u = []"
    "entries u (parent dest) = Some Directory"
    "\<forall>q. \<not> prefix q (parent dest) \<longrightarrow> entries u q = entries s0 q"
    using mkdir_works [OF assms(2) root w(2)] by blast
  have "\<not> prefix dest (parent dest)" "\<not> prefix (temp_path dest x) (parent dest)"
    using w(1) prefix_length_le [of dest "parent dest"]
      prefix_length_le [of "temp_path dest x" "parent dest"]
    by (cases dest; auto simp: parent_def temp_path_def)+
  then have same: "entries u dest = entries s0 dest" "entries u (temp_path dest x) = None"
    using u(4) x(2) by auto
  define v where "v = u\<lparr>descriptor := None, temporary_path := None\<rparr>"
  have v: "script v = []" "fine dest None v" "entries v (temp_path dest x) = None"
    using u(2,3) same w by (simp_all add: v_def fine_def)
  obtain y where y: "write_body nt names dest d v = (Done (), y)" and quiet: "script y = []"
    using fine_body [OF v(1,2) x(1) v(3)] unfolding fine_def by blast
  have way: "on_the_way dest (parent dest)"
    by (cases dest rule: rev_cases) (auto simp: parent_def strict_prefix_def)
  have "preparing s0 dest (failures s0) s0" by (auto simp: preparing_def others_kept_def kept_def)
  then have "preparing s0 dest (failures s0) u"
    using tripleD(1) [OF path_mkdir_triple [OF way] _ u(1)] by blast
  then have "starting s0 dest (failures s0) v"
    by (simp add: starting_def preparing_def v_def)
  then have r: "replaced s0 dest d None y \<and> (\<not> nt \<longrightarrow> committed dest y)"
    using tripleD(1) [OF write_body_triple [OF assms(1)] _ y] by blast
  have "atomic_write_bytes nt names dest (PBytes d) s0 = (Done (), y)"
    using u(1,2) same w(4) y r
    by (simp add: atomic_write_bytes_def thenI_def bindI_def catchI_def is_symlink_def syscall_works
        assign_descriptor_def assign_temporary_def v_def finallyI_def close_descriptor_def
        unlink_temporary_def replaced_def)
  with r quiet show ?thesis by blast
qed

section \<open>The interface of a replacement\<close>

text \<open>
  What a client relies on: nothing but the old or the new file is ever found, the replacement
  completes when its surroundings are ready, and its exceptions are \<open>PersistenceError\<close>, but for an
  \<open>OSError\<close> where one escapes.
\<close>

lemma read_file:
  assumes "script s = []" "file_at s p = Some d"
  shows "read_bytes p s = (Done d, s)"
  using assms
  by (auto simp: read_bytes_def syscall_works file_at_def split: option.splits entry.splits)

locale file_replacement =
  fixes put :: "path \<Rightarrow> bytes \<Rightarrow> unit io"
    and ready :: "machine \<Rightarrow> path \<Rightarrow> bool"
    and escapes :: "machine \<Rightarrow> path \<Rightarrow> machine \<Rightarrow> bool"
  assumes put_old_or_new: "machine_ok s0 \<Longrightarrow> put dest d s0 = (r, s) \<Longrightarrow>
      after_crash s dest \<subseteq> insert (Some d) (after_crash s0 dest)"
    and put_completes: "machine_ok s0 \<Longrightarrow> script s0 = [] \<Longrightarrow> ready s0 dest \<Longrightarrow>
      \<exists>s. put dest d s0 = (Done (), s) \<and> file_at s dest = Some d \<and> script s = []"
    and put_raises: "machine_ok s0 \<Longrightarrow> put dest d s0 = (Raised e, s) \<Longrightarrow>
      cls e = PersistenceError \<or> e = os_error \<and> escapes s0 dest s"
begin

lemma put_then_read:
  assumes "machine_ok s0" "script s0 = []" "ready s0 dest"
  shows "\<exists>s. put dest d s0 = (Done (), s) \<and> read_bytes dest s = (Done d, s)"
  using put_completes [OF assms, of d] read_file by blast

end

interpretation replacement:
  file_replacement "\<lambda>dest d. atomic_write_bytes nt names dest (PBytes d)"
    "\<lambda>s dest. writable s dest names" unwrapped for nt names
proof unfold_locales
  fix s0 dest d r s e
  assume ok: "machine_ok s0"
  show "atomic_write_bytes nt names dest (PBytes d) s0 = (r, s) \<Longrightarrow>
      after_crash s dest \<subseteq> insert (Some d) (after_crash s0 dest)"
    by (rule after_crash_dest [OF ok atomic_write_state [OF ok]])
  show "script s0 = [] \<Longrightarrow> writable s0 dest names \<Longrightarrow>
      \<exists>s. atomic_write_bytes nt names dest (PBytes d) s0 = (Done (), s) \<and> file_at s dest = Some d \<and>
        script s = []"
    using atomic_write_works [OF ok, of dest names nt d]
    by (fastforce simp: replaced_def written_def file_at_def)
  show "atomic_write_bytes nt names dest (PBytes d) s0 = (Raised e, s) \<Longrightarrow>
      cls e = PersistenceError \<or> e = os_error \<and> unwrapped s0 dest s"
    using tripleD(2) [OF atomic_write_triple [OF ok]] unfolding write_failure_def by blast
qed

section \<open>Properties\<close>

text \<open>The disk of the examples: a directory with one file, all of it committed.\<close>

definition sample_dir :: path where
  "sample_dir = [lit ''d'']"

definition sample_file :: path where
  "sample_file = [lit ''d'', lit ''f'']"

definition disk_machine :: "(path \<Rightarrow> entry option) \<Rightarrow> fate list \<Rightarrow> machine" where
  "disk_machine e fates =
     \<lparr>entries = e, on_disk = (\<lambda>p. {e p}), content = (\<lambda>i. [1]), synced = (\<lambda>i. True),
      fds = (\<lambda>fd. None), next_inode = 1, next_fd = 3, script = fates,
      descriptor = None, temporary_path = None\<rparr>"

definition sample_entries :: "path \<Rightarrow> entry option" where
  "sample_entries = [[] \<mapsto> Directory, sample_dir \<mapsto> Directory, sample_file \<mapsto> Regular 0]"

definition sample_machine :: "fate list \<Rightarrow> machine" where
  "sample_machine fates = disk_machine sample_entries fates"

lemma disk_machine_ok:
  assumes "e [] = Some Directory" "\<And>p. p \<noteq> [] \<Longrightarrow> e p \<noteq> None \<Longrightarrow> e (parent p) = Some Directory"
    and "\<And>p i. e p = Some (Regular i) \<Longrightarrow> i = 0"
  shows "machine_ok (disk_machine e fates)"
  using assms by (auto simp: machine_ok_def disk_machine_def)

lemmas sample_machine_defs = sample_machine_def disk_machine_def sample_entries_def

lemma sample_paths [simp]: "[] \<noteq> sample_dir" "[] \<noteq> sample_file" "sample_dir \<noteq> []" "sample_file \<noteq> []" "sample_dir \<noteq> sample_file"
  "parent sample_file = sample_dir" "parent sample_dir = []" "sample_file \<noteq> sample_dir"
  "\<not> prefix sample_file sample_dir"
  by (simp_all add: sample_dir_def sample_file_def parent_def)

lemma sample_machine_ok: "machine_ok (sample_machine fates)"
  unfolding sample_machine_def
  by (rule disk_machine_ok) (auto simp: sample_entries_def split: if_splits)

lemma sample_prefix: "strict_prefix q sample_file \<Longrightarrow> q = [] \<or> q = sample_dir"
  unfolding sample_file_def sample_dir_def strict_prefix_def by (auto simp: prefix_Cons)

lemma sample_not_lost: "\<not> dir_may_be_lost (sample_machine fates) sample_file"
  by (auto simp: dir_may_be_lost_def sample_machine_defs dest!: sample_prefix)

text \<open>
  C25. The replacement is atomic: however it ends, with every pattern of failing calls and wherever
  the machine stops in it, a reader finds the old file or the complete new one, also after a
  restart; and all other files are as before.
\<close>

theorem atomic_write_crash_safe:
  assumes "machine_ok s0" "atomic_write_bytes nt names dest (PBytes d) s0 = (r, s)"
  shows "after_crash s dest \<subseteq> insert (Some d) (after_crash s0 dest) \<and>
    (file_at s dest = file_at s0 dest \<or> file_at s dest = Some d) \<and>
    (\<forall>q b. q \<noteq> dest \<longrightarrow> file_at s0 q = Some b \<longrightarrow> file_at s q = Some b)"
proof -
  have c: "crash_state s0 dest d s" by (rule atomic_write_state [OF assms])
  then obtain t where "others_kept s0 dest t s" by (auto simp: crash_state_def)
  with after_crash_dest [OF assms(1) c] file_at_dest [OF assms(1) c] file_at_other [OF assms(1)]
  show ?thesis by blast
qed

theorem atomic_write_crash_safe_witness:
  "\<exists>r s. atomic_write_bytes False [lit ''x''] sample_file (PBytes [7, 8])
       (sample_machine (replicate 6 Works @ [Crashes 1])) = (r, s) \<and>
     after_crash s sample_file \<subseteq>
       insert (Some [7, 8])
         (after_crash (sample_machine (replicate 6 Works @ [Crashes 1])) sample_file)"
proof -
  obtain r s where "atomic_write_bytes False [lit ''x''] sample_file (PBytes [7, 8])
      (sample_machine (replicate 6 Works @ [Crashes 1])) = (r, s)" by fastforce
  with atomic_write_crash_safe [OF sample_machine_ok this] show ?thesis by blast
qed

text \<open>
  C26. The replacement is durable where directories can be flushed: when it returns, on a system
  other than Windows, and every directory above the destination was already on disk before the call,
  the new file is there and no crash can take it away.  Nothing is claimed without the two
  conditions: Windows does not flush the directory, and a directory that the call itself makes is
  not flushed into its parent.
\<close>

theorem atomic_write_durable:
  assumes "machine_ok s0" "atomic_write_bytes False names dest (PBytes d) s0 = (Done (), s)"
    and "dest \<noteq> []" "\<not> dir_may_be_lost s0 dest"
  shows "file_at s dest = Some d \<and> after_crash s dest = {Some d}"
proof -
  have r: "replaced s0 dest d None s" "committed dest s"
    using tripleD(1) [OF atomic_write_triple [OF assms(1)] _ assms(2)] by simp_all
  then obtain i where i: "entries s dest = Some (Regular i)" "content s i = d" "synced s i"
    "on_disk s dest = {Some (Regular i)}"
    using assms(3) by (auto simp: replaced_def written_def committed_def)
  have "\<not> dir_may_be_lost s dest"
    using dir_lost_kept assms(4) r(1) by (auto simp: replaced_def)
  with i show ?thesis by (simp add: file_at_def after_crash_def inode_view_def)
qed

lemma sample_writable: "writable (sample_machine fates) sample_file [lit ''x'']"
proof -
  have "temp_path sample_file (lit ''x'') \<noteq> []"
    "temp_path sample_file (lit ''x'') \<noteq> sample_dir" "temp_path sample_file (lit ''x'') \<noteq> sample_file"
    using temp_path_neq [of sample_file "lit ''x''"] by (simp_all add: temp_path_def)
  moreover have "q = [] \<or> q = sample_dir" if "prefix q sample_dir" for q
    using that by (auto simp: sample_dir_def prefix_Cons)
  ultimately show ?thesis
    by (auto simp: writable_def creatable_def sample_machine_defs)
qed

theorem atomic_write_durable_witness:
  "\<exists>s. atomic_write_bytes False [lit ''x''] sample_file (PBytes [7, 8]) (sample_machine []) = (Done (), s) \<and>
     after_crash s sample_file = {Some [7, 8]}"
proof -
  have "script (sample_machine []) = []" by (simp add: sample_machine_defs)
  then obtain s where s: "atomic_write_bytes False [lit ''x''] sample_file (PBytes [7, 8])
      (sample_machine []) = (Done (), s)"
    using atomic_write_works [OF sample_machine_ok _ sample_writable] by blast
  from atomic_write_durable [OF sample_machine_ok s] sample_not_lost s show ?thesis by simp
qed

text \<open>
  C27. A single failing call leaves nothing behind: the call ends with the new file in place or
  with an exception; no descriptor stays open and no temporary file remains, only directories that
  were made.  The exception is \<open>PersistenceError\<close> for every call that fails but one: the \<open>OSError\<close> of
  the test for a symbolic link, made once the directories are there, comes out as it is.  Data that
  are not bytes raise \<open>TypeError\<close> before anything is touched.
\<close>

theorem atomic_write_cleans_up:
  assumes "machine_ok s0" "failures s0 \<le> 1" "entries s0 dest \<noteq> Some Directory"
    and "atomic_write_bytes nt names dest (PBytes d) s0 = (r, s)" "r \<noteq> Crashed" "\<forall>b. x \<noteq> PBytes b"
  shows "fds s = fds s0 \<and>
    (\<forall>q. q \<noteq> dest \<longrightarrow> entries s q = entries s0 q \<or>
       strict_prefix q dest \<and> entries s0 q = None \<and> entries s q = Some Directory) \<and>
    (case r of Done u \<Rightarrow> file_at s dest = Some d
     | Raised e \<Rightarrow> cls e = PersistenceError \<or>
         e = os_error \<and>
         (\<exists>t. path_mkdir (parent dest) s0 = (Done (), t) \<and> is_symlink dest t = (Raised os_error, s))
     | Crashed \<Rightarrow> False) \<and>
    (\<exists>m. atomic_write_bytes nt names dest x s0 = (Raised (Exn TypeError m), s0))"
proof -
  note t = tripleD [OF atomic_write_triple [OF assms(1)], of s0 nt names dest d]
  have typed: "\<exists>m. atomic_write_bytes nt names dest x s0 = (Raised (Exn TypeError m), s0)"
    using assms(6) by (cases x) (auto simp: atomic_write_bytes_def raiseI_def)
  have rest: "fds s = fds s0 \<and> others_kept s0 dest None s \<and>
    (case r of Done u \<Rightarrow> file_at s dest = Some d
     | Raised e \<Rightarrow> cls e = PersistenceError \<or> e = os_error \<and> link_test_raises dest s0 s
     | Crashed \<Rightarrow> False)"
  proof (cases r)
    case (Done u)
    with t(1) assms(4) have "replaced s0 dest d None s" by blast
    with Done show ?thesis by (auto simp: replaced_def written_def file_at_def)
  next
    case (Raised e)
    with t(2) assms(4) have w: "write_failure s0 dest d e s" by blast
    then obtain t where "others_kept s0 dest t s" "t = None"
      using assms(2,3) by (auto simp: write_failure_def cleaned_def)
    with w Raised assms(2) show ?thesis by (auto simp: write_failure_def cleaned_def unwrapped_def)
  qed (use assms(5) in simp)
  then have "others_kept s0 dest None s" by blast
  with rest typed others_keptD show ?thesis unfolding link_test_raises_def by blast
qed

lemmas io_defs = thenI_def bindI_def catchI_def finallyI_def raiseI_def returnI_def syscall_def Let_def
  next_fate_def pop_fate_def

lemma sample_failing_write:
  "\<exists>e s. atomic_write_bytes False [lit ''x''] sample_file (PBytes [7, 8])
     (sample_machine (replicate 6 Works @ [Fails 1])) = (Raised e, s)"
proof -
  have path: "sample_dir @ [lit ''.'' @ file_name sample_file @ lit ''.'' @ lit ''x'' @ lit ''.tmp''] =
      temp_path sample_file (lit ''x'')" by (simp add: temp_path_def)
  have neq: "temp_path sample_file (lit ''x'') \<noteq> []" "temp_path sample_file (lit ''x'') \<noteq> sample_dir"
    "temp_path sample_file (lit ''x'') \<noteq> sample_file"
    using temp_path_neq [of sample_file "lit ''x''"] by (simp_all add: temp_path_def)
  have r: "replicate 6 Works @ [Fails 1] = [Works, Works, Works, Works, Works, Works, Fails 1]"
    by (simp add: numeral_eq_Suc)
  show ?thesis
    unfolding r using neq
    by (simp add: atomic_write_bytes_def path_mkdir.simps [of sample_dir] os_mkdir_def exist_ok_def
        is_dir_def is_symlink_def write_body_def path open_exclusive_def sample_machine_defs io_defs
        os_fchmod_def os_fdopen_def write_handle_def handle_write_def assign_descriptor_def
        assign_temporary_def os_close_def close_descriptor_def unlink_temporary_def
        os_unlink_def append_to_def release_def set_entry_def)
qed

text \<open>
  With two failing calls more can happen: when the descriptor cannot be made a file object and then
  not be closed, the exception is the bare \<open>OSError\<close>, and the temporary file is left behind.
\<close>

lemma close_error_escapes:
  "\<exists>s. atomic_write_bytes False [lit ''x''] sample_file (PBytes [7, 8])
     (sample_machine [Works, Works, Works, Works, Works, Fails 0, Fails 0]) = (Raised os_error, s) \<and>
     entries s (temp_path sample_file (lit ''x'')) \<noteq> None"
proof -
  have path: "sample_dir @ [lit ''.'' @ file_name sample_file @ lit ''.'' @ lit ''x'' @ lit ''.tmp''] =
      temp_path sample_file (lit ''x'')" by (simp add: temp_path_def)
  have "temp_path sample_file (lit ''x'') \<noteq> []" "temp_path sample_file (lit ''x'') \<noteq> sample_dir"
    "temp_path sample_file (lit ''x'') \<noteq> sample_file"
    using temp_path_neq [of sample_file "lit ''x''"] by (simp_all add: temp_path_def)
  moreover have "parent (temp_path sample_file (lit ''x'')) = sample_dir"
    by (simp add: temp_path_def) (simp add: parent_def)
  ultimately show ?thesis
    by (simp add: atomic_write_bytes_def path_mkdir.simps [of sample_dir] os_mkdir_def exist_ok_def
        is_dir_def is_symlink_def write_body_def path open_exclusive_def sample_machine_defs io_defs
        os_fchmod_def os_fdopen_def assign_descriptor_def assign_temporary_def os_close_def
        close_descriptor_def release_def set_entry_def)
qed

theorem atomic_write_cleans_up_witness:
  "\<exists>r s. atomic_write_bytes False [lit ''x''] sample_file (PBytes [7, 8])
       (sample_machine (replicate 6 Works @ [Fails 1])) = (r, s) \<and>
     fds s = fds (sample_machine []) \<and> entries s (temp_path sample_file (lit ''x'')) = None"
proof -
  let ?m = "sample_machine (replicate 6 Works @ [Fails 1])"
  obtain e s where r: "atomic_write_bytes False [lit ''x''] sample_file (PBytes [7, 8]) ?m = (Raised e, s)"
    using sample_failing_write by blast
  have "failures ?m \<le> 1" "entries ?m sample_file \<noteq> Some Directory"
    by (simp_all add: failures_def sample_machine_defs)
  note c = atomic_write_cleans_up [OF sample_machine_ok this r, of PNone]
  have t: "temp_path sample_file (lit ''x'') \<noteq> []" "temp_path sample_file (lit ''x'') \<noteq> sample_dir"
    "temp_path sample_file (lit ''x'') \<noteq> sample_file"
    using temp_path_neq [of sample_file "lit ''x''"] by (simp_all add: temp_path_def)
  have "\<not> strict_prefix (temp_path sample_file (lit ''x'')) sample_file"
    using sample_prefix t by blast
  moreover have "entries ?m (temp_path sample_file (lit ''x'')) = None"
    using t by (simp add: sample_machine_defs)
  moreover have "\<forall>q. q \<noteq> sample_file \<longrightarrow> entries s q = entries ?m q \<or>
      strict_prefix q sample_file \<and> entries ?m q = None \<and> entries s q = Some Directory"
    using c by blast
  ultimately have "entries s (temp_path sample_file (lit ''x'')) = None"
    using t(3) by metis
  moreover have "fds s = fds (sample_machine [])"
    using c by (simp add: sample_machine_defs)
  ultimately show ?thesis using r by blast
qed

text \<open>
  C28. On a system that works the replacement succeeds: the missing directories can be made, the
  destination is neither a directory nor a symbolic link, and a temporary name is free; the file
  then holds the data.  A symbolic link is refused and stays what it is.
\<close>

theorem atomic_write_succeeds:
  assumes "machine_ok s0" "script s0 = []" "writable s0 dest names"
    and "creatable s0 (parent link)" "entries s0 link = Some (SymbolicLink q)"
  shows "(\<exists>s. atomic_write_bytes nt names dest (PBytes d) s0 = (Done (), s) \<and> file_at s dest = Some d) \<and>
    (\<exists>e s. atomic_write_bytes nt names link (PBytes d) s0 = (Raised e, s) \<and>
       cls e = PersistenceError \<and> entries s link = Some (SymbolicLink q))"
proof
  show "\<exists>s. atomic_write_bytes nt names dest (PBytes d) s0 = (Done (), s) \<and> file_at s dest = Some d"
  proof -
    obtain s where s: "atomic_write_bytes nt names dest (PBytes d) s0 = (Done (), s)"
      "replaced s0 dest d None s"
      using atomic_write_works [OF assms(1-3)] by blast
    then have "file_at s dest = Some d" by (auto simp: replaced_def written_def file_at_def)
    with s(1) show ?thesis by blast
  qed
  have root: "entries s0 [] = Some Directory" using assms(1) by (simp add: machine_ok_def)
  obtain u where u: "path_mkdir (parent link) s0 = (Done (), u)" "script u = []"
    "\<forall>p. \<not> prefix p (parent link) \<longrightarrow> entries u p = entries s0 p"
    using mkdir_works [OF assms(2) root assms(4)] by blast
  have "link \<noteq> []" using root assms(5) by auto
  then have "\<not> prefix link (parent link)"
    using prefix_length_le [of link "parent link"] by (cases link) (auto simp: parent_def)
  with u(3) assms(5) have "entries u link = Some (SymbolicLink q)" by simp
  then show "\<exists>e s. atomic_write_bytes nt names link (PBytes d) s0 = (Raised e, s) \<and>
       cls e = PersistenceError \<and> entries s link = Some (SymbolicLink q)"
    using u(1,2)
    by (simp add: atomic_write_bytes_def thenI_def bindI_def catchI_def is_symlink_def syscall_works
        raiseI_def)
qed

definition link_entries :: "path \<Rightarrow> entry option" where
  "link_entries = sample_entries([lit ''l''] \<mapsto> SymbolicLink sample_file)"

lemma link_neq [simp]: "[lit ''l''] \<noteq> sample_dir" "[lit ''l''] \<noteq> sample_file"
  "sample_dir \<noteq> [lit ''l'']" "sample_file \<noteq> [lit ''l'']" "parent [lit ''l''] = []"
  by (simp_all add: sample_dir_def sample_file_def parent_def)

lemma link_machine_ok: "machine_ok (disk_machine link_entries fates)"
  by (rule disk_machine_ok) (auto simp: link_entries_def sample_entries_def split: if_splits)

theorem atomic_write_succeeds_witness:
  "\<exists>s. atomic_write_bytes False [lit ''x''] sample_file (PBytes [7]) (disk_machine link_entries []) = (Done (), s) \<and>
     file_at s sample_file = Some [7]"
proof -
  have "temp_path sample_file (lit ''x'') \<noteq> [lit ''l'']"
    by (rule notI, drule arg_cong [of _ _ length]) (simp add: temp_path_def)
  then have "writable (disk_machine link_entries []) sample_file [lit ''x'']"
    using sample_writable [of "[]"]
    by (auto simp: writable_def link_entries_def sample_machine_def disk_machine_def creatable_def
        sample_dir_def)
  moreover have "script (disk_machine link_entries []) = []"
    "entries (disk_machine link_entries []) [lit ''l''] = Some (SymbolicLink sample_file)"
    "creatable (disk_machine link_entries []) (parent [lit ''l''])"
    by (auto simp: link_entries_def sample_machine_defs creatable_def)
  ultimately show ?thesis
    using atomic_write_succeeds [OF link_machine_ok, of "[]" sample_file "[lit ''x'']" "[lit ''l'']"
        sample_file False "[7]"] by blast
qed

text \<open>
  An error that escapes: when the test for a symbolic link fails with \<open>OSError\<close> (as it does
  before Python 3.14 for a directory that may not be searched), the caller gets that \<open>OSError\<close>,
  which no handler for \<open>PersistenceError\<close> catches.
\<close>

theorem symlink_test_escapes:
  assumes "entries s0 (parent dest) = Some Directory" "script s0 = Works # Works # Fails k # fs"
  shows "(\<exists>s. atomic_write_bytes nt names dest (PBytes d) s0 = (Raised os_error, s)) \<and>
    \<not> isinstance_of os_error [PersistenceError]"
proof
  show "\<exists>s. atomic_write_bytes nt names dest (PBytes d) s0 = (Raised os_error, s)"
    using assms
    by (simp add: atomic_write_bytes_def path_mkdir.simps [of "parent dest"] os_mkdir_def
        exist_ok_def is_dir_def is_symlink_def io_defs)
  show "\<not> isinstance_of os_error [PersistenceError]"
    by (simp add: isinstance_of_def os_error_def is_subclass.simps)
qed

theorem symlink_test_escapes_witness:
  "\<exists>s. atomic_write_bytes False [lit ''x''] sample_file (PBytes [7])
     (sample_machine [Works, Works, Fails 0]) = (Raised os_error, s)"
proof -
  have "entries (sample_machine [Works, Works, Fails 0]) (parent sample_file) = Some Directory"
    "script (sample_machine [Works, Works, Fails 0]) = Works # Works # Fails 0 # []"
    by (simp_all add: sample_machine_defs)
  from symlink_test_escapes [OF this] show ?thesis by blast
qed

end
