(* ===== verification/StoreSafety.thy ===== *)
theory StoreSafety
  imports Store AtomicWrite
begin

text \<open>
  The encrypted store on the file system: what was saved is loaded, an interrupted save leaves
  the old or the new object, what is loaded was sealed with the passphrase, and which exceptions
  come out.
\<close>

section \<open>The exceptions of the encoder\<close>

abbreviation dumps_errors :: "exn_class list" where
  "dumps_errors \<equiv> [TypeError, ValueError, RecursionError]"

lemma among_dumps [simp]:
  "isinstance_of (Exn TypeError m) dumps_errors" "isinstance_of (Exn ValueError m) dumps_errors"
  "isinstance_of (Exn RecursionError m) dumps_errors" "isinstance_of too_deep dumps_errors"
  "isinstance_of not_serializable dumps_errors"
  by (simp_all add: isinstance_of_def too_deep_def not_serializable_def)

lemma raises_among_sequence:
  "\<forall>m \<in> set ms. raises_among cs m \<Longrightarrow> raises_among cs (sequenceE ms)"
  by (induction ms) (auto intro!: raises_intros)

lemma raises_among_text:
  "raises_among dumps_errors (int_text i)" "raises_among dumps_errors (float_text rt an w)"
  "raises_among dumps_errors (key_text rt an k)"
proof -
  show i: "raises_among dumps_errors (int_text i)" for i by (simp add: int_text_def)
  show f: "raises_among dumps_errors (float_text rt an w)" for w by (simp add: float_text_def)
  show "raises_among dumps_errors (key_text rt an k)"
    by (cases k) (auto simp: key_text_def i f)
qed

lemma sort_items_mem: "sort_items kvs = Inr its \<Longrightarrow> set its \<subseteq> set kvs"
  by (auto simp: sort_items_def split: if_splits)

lemma raises_among_sort: "raises_among dumps_errors (sort_items kvs)"
  by (auto simp: sort_items_def)

lemma dumps_value_raises: "raises_among dumps_errors (dumps_value rt ea an d v)"
proof (induction rt ea an d v rule: dumps_value.induct)
  case (13 rt ea an d kvs)
  have "raises_among dumps_errors (encode_item rt ea an kv)"
    if "sort_items (map (\<lambda>kv. (fst kv, dumps_value rt ea an d (snd kv))) kvs) = Inr its" "kv \<in> set its"
    for its kv
  proof -
    from sort_items_mem [OF that(1)] that(2) obtain x where x: "x \<in> set kvs"
      "kv = (fst x, dumps_value rt ea an d (snd x))" by auto
    show ?thesis unfolding encode_item_def x(2) fst_conv snd_conv
      by (intro raises_intros raises_among_text "13"(1) x(1)) simp
  qed
  then show ?case
    by (auto intro!: raises_intros raises_among_sort raises_among_sequence)
qed (auto simp: raises_among_text intro!: raises_intros raises_among_sequence)

lemma dumps_raises: "raises_among dumps_errors (dumps rt ea an v)"
  unfolding dumps_def by (rule dumps_value_raises)

lemma encode_object_raises:
  assumes "\<forall>kv \<in> set kvs. str_key (fst kv) \<noteq> None"
  shows "raises_among [StoreError, RecursionError] (encode_object rt (PDict kvs))"
proof -
  have "raises_among [TypeError, ValueError, UnicodeEncodeError, RecursionError]
      (bindE (dumps rt False False (PDict kvs)) utf8_encode)"
    by (rule raises_among_bindE, rule raises_among_mono [OF dumps_raises])
      (auto simp: utf8_encode_def isinstance_of_def)
  then have "raises_among [StoreError, RecursionError]
    (wrap_exn [TypeError, ValueError, UnicodeEncodeError]
      (\<lambda>_. store_error (lit ''encrypted store payload is not canonical JSON''))
      (bindE (dumps rt False False (PDict kvs)) utf8_encode))"
    by (cases "bindE (dumps rt False False (PDict kvs)) utf8_encode")
      (auto simp: wrap_exn_def isinstance_of_def store_error_def)
  then show ?thesis
    unfolding encode_object_def using assms
    by (auto intro!: raises_intros simp: isinstance_of_def store_error_def raise_if_def)
qed

text \<open>A dictionary with string keys, the type that \<^verbatim>\<open>save\<close> asks for\<close>

definition string_keyed :: "pyval \<Rightarrow> bool" where
  "string_keyed obj \<longleftrightarrow> (case obj of PDict kvs \<Rightarrow> \<forall>kv \<in> set kvs. str_key (fst kv) \<noteq> None | _ \<Rightarrow> False)"

lemma encode_object_classes:
  assumes "encode_object rt obj = Inl e"
  shows "isinstance_of e [StoreError, RecursionError] \<or> cls e = TypeError \<and> \<not> string_keyed obj"
proof (cases "string_keyed obj")
  case True
  then obtain kvs where k: "obj = PDict kvs" "\<forall>kv \<in> set kvs. str_key (fst kv) \<noteq> None"
    by (cases obj) (simp_all add: string_keyed_def)
  from encode_object_raises [OF k(2), of rt] assms show ?thesis by (simp add: k(1))
next
  case False
  with assms show ?thesis
    by (cases obj) (auto simp: encode_object_def string_keyed_def raise_if_def)
qed

text \<open>A dictionary that the decoder returns comes from the hook.\<close>

lemma scan_dict:
  assumes "scan_once rt hook pc n d s = Inr (PDict kvs, r)" "\<And>t v. pc t \<noteq> Inr v"
  shows "\<exists>ps. hook ps = Inr (PDict kvs)"
proof -
  have scalar: "scan_scalar rt pc u \<noteq> Inr (PDict kvs, q)" for u q
    using assms(2)
    by (auto simp: scan_scalar_def scan_number_def Let_def bindE_eq_Inr split: option.splits prod.splits
        if_splits)
  obtain m where n: "n = Suc m" using assms(1) by (cases n) auto
  obtain c u where s: "s = c # u" using assms(1) n by (cases s) auto
  show ?thesis
    using assms(1) scalar unfolding n s
    by (auto simp: bindE_eq_Inr split: if_splits option.splits nat.splits)
qed

lemma loaded_dict_keys:
  assumes "loads rt store_reject_duplicate_keys store_reject_nonfinite_number s = Inr (PDict kvs)"
  shows "\<forall>kv \<in> set kvs. str_key (fst kv) \<noteq> None"
proof -
  obtain n d u r where "scan_once rt store_reject_duplicate_keys store_reject_nonfinite_number n d u =
      Inr (PDict kvs, r)"
    using assms by (auto simp: loads_def bindE_eq_Inr split: if_splits)
  then obtain ps where ps: "store_reject_duplicate_keys ps = Inr (PDict kvs)"
    using scan_dict by (fastforce simp: store_reject_nonfinite_number_def)
  then have "PDict kvs = str_dict ps"
    using store_hook.hook_distinct store_hook.hook_duplicate [of ps] by (cases "distinct (map fst ps)") auto
  then show ?thesis by (rule str_dict_keys)
qed

lemma decode_payload_raises: "raises_among [StoreError, RecursionError] (decode_payload rt p)"
proof -
  have nf: "store_reject_nonfinite_number t \<noteq> Inl out_of_fuel" for t
    by (simp add: store_reject_nonfinite_number_def store_error_def out_of_fuel_def)
  have loads: "cls e \<in> {StoreError, JSONDecodeError, ValueError, RecursionError}"
    if "loads rt store_reject_duplicate_keys store_reject_nonfinite_number s = Inl e" for s e
    using store_hook.loads_raises [OF that nf]
    by (auto simp: store_reject_nonfinite_number_def store_error_def)
  let ?m = "bindE (decode_utf8 p)
      (loads rt store_reject_duplicate_keys store_reject_nonfinite_number)"
  have "isinstance_of exc [StoreError] \<or>
      isinstance_of exc [UnicodeDecodeError, JSONDecodeError, RecursionError, ValueError]"
    if raised: "?m = Inl exc" for exc
  proof -
    consider "cls exc = UnicodeDecodeError"
      | s where "loads rt store_reject_duplicate_keys store_reject_nonfinite_number s = Inl exc"
      using raised by (auto simp: decode_utf8_def bindE_eq_Inl opt_else_eq_Inl)
    then show ?thesis
    proof cases
      case 2
      from loads [OF this] show ?thesis by (auto simp: isinstance_of_def)
    qed (simp add: isinstance_of_def)
  qed
  then have parse: "raises_among [StoreError, RecursionError] (catchE ?m (\<lambda>exc.
      if isinstance_of exc [StoreError] then Inl exc
      else if isinstance_of exc [UnicodeDecodeError, JSONDecodeError, RecursionError, ValueError]
      then Inl (store_error (lit ''decrypted store payload is not valid JSON''))
      else Inl exc))"
    by (cases ?m) (auto simp: isinstance_of_def store_error_def)
  have "raises_among [StoreError, RecursionError]
      (case raw of
         PDict kvs \<Rightarrow>
           bindE (encode_object rt raw) (\<lambda>encoded.
           thenE (raise_if (encoded \<noteq> p)
                   (store_error (lit ''decrypted store payload is not canonically encoded'')))
           (Inr raw))
       | _ \<Rightarrow> Inl (store_error (lit ''decrypted store payload must be a dictionary'')))"
    if "?m = Inr raw" for raw
  proof (cases raw)
    case (PDict kvs)
    with that obtain x where "loads rt store_reject_duplicate_keys store_reject_nonfinite_number x =
        Inr (PDict kvs)" by (auto simp: bindE_eq_Inr)
    then have "\<forall>kv \<in> set kvs. str_key (fst kv) \<noteq> None" by (rule loaded_dict_keys)
    from encode_object_raises [OF this] PDict show ?thesis
      by (auto intro!: raises_intros simp: isinstance_of_def store_error_def raise_if_def)
  qed (simp_all add: isinstance_of_def store_error_def)
  then show ?thesis
    unfolding decode_payload_def
    by (intro raises_among_bindE [OF parse]) (auto simp: catchE_eq_Inr split: if_splits)
qed

lemma decode_payload_encodes:
  assumes "decode_payload rt p = Inr v"
  shows "encode_object rt v = Inr p"
proof -
  obtain raw where "(case raw of
         PDict kvs \<Rightarrow>
           bindE (encode_object rt raw) (\<lambda>encoded.
           thenE (raise_if (encoded \<noteq> p)
                   (store_error (lit ''decrypted store payload is not canonically encoded'')))
           (Inr raw))
       | _ \<Rightarrow> Inl (store_error (lit ''decrypted store payload must be a dictionary''))) = Inr v"
    using assms unfolding decode_payload_def bindE_eq_Inr by blast
  then show ?thesis by (cases raw) (auto simp: res_simps)
qed

section \<open>Objects in files\<close>

text \<open>
  An object that is kept somewhere: on a good day it is saved, and loading gives what \<open>reread\<close>
  says.  A client that encodes its own data as an object that is reread gets them back.
\<close>

locale kept_object =
  fixes save :: "'a \<Rightarrow> unit io" and load :: "'a io"
    and good :: "machine \<Rightarrow> 'a \<Rightarrow> bool" and reread :: "'a \<Rightarrow> 'a res"
  assumes save_load: "good s0 x \<Longrightarrow> \<exists>s. save x s0 = (Done (), s) \<and> load s = liftI (reread x) s"
begin

lemma decoded_again:
  assumes "good s0 (encode y)" "reread (encode y) = Inr x" "\<And>s. decode x s = (Done y, s)"
  shows "\<exists>s. catchI (save (encode y)) cs h s0 = (Done (), s) \<and> bindI (catchI load ds k) decode s = (Done y, s)"
proof -
  obtain s where "save (encode y) s0 = (Done (), s)" "load s = (Done x, s)"
    using save_load [OF assms(1)] assms(2) by (auto simp: liftI_def returnI_def)
  then show ?thesis using assms(3) by (simp add: catchI_def bindI_def)
qed

end

text \<open>
  A sealed object in a file that is replaced as a whole.  What is sealed opens to \<open>reread\<close> of it;
  then the object is kept, and an interruption leaves the old file or the complete sealed one.
\<close>

locale sealed_file = file_replacement put ready escapes
  for put :: "path \<Rightarrow> bytes \<Rightarrow> unit io" and ready :: "machine \<Rightarrow> path \<Rightarrow> bool"
    and escapes :: "machine \<Rightarrow> path \<Rightarrow> machine \<Rightarrow> bool" +
  fixes place :: path and seal :: "'a \<Rightarrow> bytes res" and unseal :: "bytes \<Rightarrow> 'a res"
    and keeps :: "'a \<Rightarrow> bool" and reread :: "'a \<Rightarrow> 'a res" and put_error :: exn and read_error :: exn
  assumes seal_unseal: "keeps x \<Longrightarrow> \<exists>blob. seal x = Inr blob \<and> unseal blob = reread x"
begin

lemma save_then_load:
  assumes "machine_ok s0" "script s0 = []" "ready s0 place" "keeps x"
  shows "\<exists>s. bindI (liftI (seal x)) (\<lambda>blob.
      catchI (put place blob) [PersistenceError] (\<lambda>_. raiseI put_error)) s0 = (Done (), s) \<and>
    bindI (catchI (read_bytes place) [OSError] (\<lambda>_. raiseI read_error)) (\<lambda>blob. liftI (unseal blob)) s =
      liftI (reread x) s"
proof -
  obtain blob where blob: "seal x = Inr blob" "unseal blob = reread x"
    using seal_unseal [OF assms(4)] by blast
  obtain s where "put place blob s0 = (Done (), s)" "read_bytes place s = (Done blob, s)"
    using put_then_read [OF assms(1-3)] by blast
  with blob show ?thesis by (simp add: bindI_def catchI_def liftI_def returnI_def)
qed

lemma interrupted_save:
  assumes "machine_ok s0"
    and "bindI (liftI (seal x)) (\<lambda>blob.
      catchI (put place blob) [PersistenceError] (\<lambda>_. raiseI put_error)) s0 = (r, s)"
    and "found \<in> after_crash s place" "found \<notin> after_crash s0 place"
  shows "\<exists>blob. seal x = Inr blob \<and> found = Some blob"
proof (cases "seal x")
  case (Inr blob)
  then obtain r' where "put place blob s0 = (r', s)"
    using assms(2)
    by (auto simp: liftI_def bindI_def returnI_def catchI_def raiseI_def
        split: prod.splits outcome.splits if_splits)
  from put_old_or_new [OF assms(1) this] assms(3,4) Inr show ?thesis by blast
qed (use assms in \<open>simp add: liftI_def bindI_def raiseI_def\<close>)

lemma save_raises:
  assumes "machine_ok s0"
    and "bindI (liftI (seal x)) (\<lambda>blob.
      catchI (put place blob) [PersistenceError] (\<lambda>_. raiseI put_error)) s0 = (Raised e, s)"
  shows "seal x = Inl e \<or> e = put_error \<or> e = os_error \<and> escapes s0 place s"
proof (cases "seal x")
  case (Inr blob)
  obtain e' where "put place blob s0 = (Raised e', s)"
    "if isinstance_of e' [PersistenceError] then e = put_error else e = e'"
    using assms(2) Inr
    by (auto simp: liftI_def bindI_def returnI_def catchI_def raiseI_def
        split: prod.splits outcome.splits if_splits)
  with put_raises [OF assms(1)] show ?thesis by (fastforce simp: isinstance_of_def split: if_splits)
qed (use assms(2) in \<open>simp add: liftI_def bindI_def raiseI_def\<close>)

end

sublocale sealed_file \<subseteq> kept_object
  "\<lambda>x. bindI (liftI (seal x)) (\<lambda>blob. catchI (put place blob) [PersistenceError] (\<lambda>_. raiseI put_error))"
  "bindI (catchI (read_bytes place) [OSError] (\<lambda>_. raiseI read_error)) (\<lambda>blob. liftI (unseal blob))"
  "\<lambda>s0 x. machine_ok s0 \<and> script s0 = [] \<and> ready s0 place \<and> keeps x" reread
  by unfold_locales (use save_then_load in blast)

text \<open>What an encrypted store takes, and what it gives back\<close>

definition store_keeps :: "crypto \<Rightarrow> runtime \<Rightarrow> bytes \<Rightarrow> bytes \<Rightarrow> pyval \<Rightarrow> bool" where
  "store_keeps c rt salt nonce obj \<longleftrightarrow>
     lengths_ok c \<and> ciphers_correct c \<and> length salt = 16 \<and> length nonce = 12 \<and>
     (\<exists>p. encode_object rt obj = Inr p)"

definition recoded :: "runtime \<Rightarrow> pyval \<Rightarrow> pyval res" where
  "recoded rt obj = bindE (encode_object rt obj) (decode_payload rt)"

lemma recoded_fits: "fits rt d obj \<Longrightarrow> encode_object rt obj = Inr p \<Longrightarrow> recoded rt obj = Inr (normal d obj)"
  by (simp add: recoded_def decode_encode)

lemma store_keeps_opens:
  assumes "store_keeps c rt salt nonce obj"
  shows "\<exists>blob. seal_store c rt salt nonce self obj = Inr blob \<and> open_store c rt self blob = recoded rt obj"
proof -
  obtain p where p: "encode_object rt obj = Inr p" using assms by (auto simp: store_keeps_def)
  with open_seal [OF _ _ _ _ p, of c salt nonce self] assms show ?thesis
    by (simp add: store_keeps_def recoded_def)
qed

interpretation store_file:
  sealed_file "\<lambda>dest d. atomic_write_bytes nt names dest (PBytes d)" "\<lambda>s dest. writable s dest names"
    unwrapped "store_path self" "seal_store c rt salt nonce self" "open_store c rt self"
    "store_keeps c rt salt nonce" "recoded rt"
    "store_error (lit ''failed to save encrypted store'')"
    "store_error (lit ''failed to read encrypted store'')"
  for nt names self c rt salt nonce
  by unfold_locales (rule store_keeps_opens)

section \<open>Properties\<close>

text \<open>
  C29. What is saved is loaded: on a system that works, an object that can be encoded is saved, and
  loading, which changes nothing, gives back an object of the same encoding or refuses with
  \<open>StoreError\<close> or \<open>RecursionError\<close>.  It gives the object itself, with the keys of its dictionaries in
  order, when the object is in JSON's own terms (\<open>fits\<close>): dictionaries with distinct string keys at
  every depth, lists and no tuples, text without surrogates, integers and finite floats that can be
  printed and read, nested no deeper than the interpreter allows.  Tuples and nested dictionaries
  with other keys are outside of that, although \<^verbatim>\<open>save\<close> accepts them.
\<close>

theorem store_roundtrip:
  assumes "lengths_ok c" "ciphers_correct c" "length salt = 16" "length nonce = 12"
    and "encode_object rt obj = Inr p"
    and "machine_ok s0" "script s0 = []" "writable s0 (store_path self) names"
  shows "\<exists>s. store_save c rt nt names salt nonce self obj s0 = (Done (), s) \<and>
    (case store_load c rt self s of
       (Done v, t) \<Rightarrow> t = s \<and> encode_object rt v = Inr p
     | (Raised e, t) \<Rightarrow> t = s \<and> isinstance_of e [StoreError, RecursionError]
     | (Crashed, t) \<Rightarrow> False) \<and>
    (fits rt d obj \<longrightarrow> store_load c rt self s = (Done (normal d obj), s))"
proof -
  have "store_keeps c rt salt nonce obj" using assms(1-5) by (simp add: store_keeps_def)
  from store_file.save_then_load [OF assms(6-8) this]
  obtain s where s: "store_save c rt nt names salt nonce self obj s0 = (Done (), s)"
    "store_load c rt self s = liftI (recoded rt obj) s"
    unfolding store_save_def store_load_def by blast
  have r: "recoded rt obj = decode_payload rt p" using assms(5) by (simp add: recoded_def)
  have load: "store_load c rt self s =
      (case decode_payload rt p of Inl e \<Rightarrow> (Raised e, s) | Inr v \<Rightarrow> (Done v, s))"
    unfolding s(2) r by (simp add: liftI_def returnI_def raiseI_def split: sum.split)
  have outcome: "case store_load c rt self s of
       (Done v, t) \<Rightarrow> t = s \<and> encode_object rt v = Inr p
     | (Raised e, t) \<Rightarrow> t = s \<and> isinstance_of e [StoreError, RecursionError]
     | (Crashed, t) \<Rightarrow> False"
  proof (cases "decode_payload rt p")
    case (Inl e)
    then show ?thesis using decode_payload_raises [of rt p] by (simp add: load)
  next
    case (Inr v)
    then show ?thesis using decode_payload_encodes [OF Inr] by (simp add: load)
  qed
  have exact: "fits rt d obj \<longrightarrow> store_load c rt self s = (Done (normal d obj), s)"
  proof
    assume "fits rt d obj"
    from decode_encode [OF this assms(5)]
    show "store_load c rt self s = (Done (normal d obj), s)" by (simp add: load)
  qed
  show ?thesis by (intro exI [of _ s] conjI s(1) outcome exact)
qed

definition sample_store :: EncryptedStore where
  "sample_store = \<lparr>store_path = sample_file, store_passphrase = replicate 16 7\<rparr>"

definition sample_object :: pyval where
  "sample_object = str_dict [(lit ''b'', PInt 5), (lit ''a'', PNone)]"

lemma sample_fits: "fits sample_runtime 1 sample_object"
  by (simp add: fits_def sample_object_def str_dict_def int_prints_def max_str_digits_def
      dec_nat.simps lit_def is_scalar_def is_surrogate_def sample_runtime_def)

lemma sample_encodes: "\<exists>p. encode_object sample_runtime sample_object = Inr p"
proof -
  obtain n where depth: "dumps_depth sample_runtime = Suc n"
    by (cases "dumps_depth sample_runtime") (simp_all add: sample_runtime_def)
  have "dumps sample_runtime False False sample_object = Inr (lit ''{\"a\":null,\"b\":5}'')"
    unfolding dumps_def depth sample_object_def str_dict_def
    by (simp add: sort_items_def encode_item_def quote_def escape_char_def short_escape_def lit_def
        int_text_def dec_int_def dec_nat.simps max_str_digits_def)
  then show ?thesis
    by (simp add: encode_object_def sample_object_def str_dict_def utf8_encode_def lit_def is_scalar_def
        is_surrogate_def utf8_char_def MAX_STORE_PLAINTEXT_BYTES_def)
qed

text \<open>The hypotheses of the store properties, met by the examples.\<close>

lemma toy_ciphers: "lengths_ok toy_crypto" "ciphers_correct toy_crypto"
  using toy_crypto_correct by (simp_all add: crypto_correct_def)

theorem store_roundtrip_witness:
  "\<exists>s. store_save toy_crypto sample_runtime False [lit ''x''] (replicate 16 1) (replicate 12 2)
       sample_store sample_object (sample_machine []) = (Done (), s) \<and>
     store_load toy_crypto sample_runtime sample_store s = (Done (normal 1 sample_object), s)"
proof -
  obtain p where p: "encode_object sample_runtime sample_object = Inr p" using sample_encodes by blast
  have "script (sample_machine []) = []" "length (replicate 16 (1::byte)) = 16"
    "length (replicate 12 (2::byte)) = 12"
    "writable (sample_machine []) (store_path sample_store) [lit ''x'']"
    using sample_writable by (simp_all add: sample_machine_defs sample_store_def)
  from store_roundtrip [OF toy_ciphers this(2,3) p sample_machine_ok this(1,4)] sample_fits
  show ?thesis by blast
qed

text \<open>
  C30. An interrupted save leaves no half-written file: however \<open>save\<close> ends, with every pattern of
  failing calls and wherever the machine stops, what a restart finds at the path of the store is
  what could be found there before, or the complete sealed encoding of the object that was being
  saved.  That file opens to whatever the decoder makes of the encoding, which is the object itself
  when it is in JSON's own terms (\<open>fits\<close>, see the round trip).
\<close>

theorem store_crash_safe:
  assumes "lengths_ok c" "ciphers_correct c" "length salt = 16" "length nonce = 12"
    and "machine_ok s0" "store_save c rt nt names salt nonce self obj s0 = (r, s)"
    and "found \<in> after_crash s (store_path self)" "found \<notin> after_crash s0 (store_path self)"
  shows "\<exists>blob p. found = Some blob \<and> encode_object rt obj = Inr p \<and>
    seal_store c rt salt nonce self obj = Inr blob \<and> open_store c rt self blob = decode_payload rt p \<and>
    (fits rt d obj \<longrightarrow> open_store c rt self blob = Inr (normal d obj))"
proof -
  obtain blob where blob: "seal_store c rt salt nonce self obj = Inr blob" "found = Some blob"
    using store_file.interrupted_save [OF assms(5) assms(6) [unfolded store_save_def] assms(7,8)]
    by blast
  obtain p where p: "encode_object rt obj = Inr p"
    using blob(1) by (auto simp: seal_store_def res_simps)
  have "open_store c rt self blob = decode_payload rt p"
    using open_seal [OF assms(1-4) p, of self] blob(1) by auto
  moreover have "fits rt d obj \<longrightarrow> decode_payload rt p = Inr (normal d obj)"
    using decode_encode [OF _ p] by blast
  ultimately show ?thesis using blob p by simp
qed

theorem store_crash_safe_witness:
  "\<exists>blob. open_store toy_crypto sample_runtime sample_store blob = Inr (normal 1 sample_object)"
proof -
  obtain p where p: "encode_object sample_runtime sample_object = Inr p" using sample_encodes by blast
  let ?m = "sample_machine []"
  have w: "length (replicate 16 (1::byte)) = 16" "length (replicate 12 (2::byte)) = 12"
    "script ?m = []" "writable ?m (store_path sample_store) [lit ''x'']"
    using sample_writable by (simp_all add: sample_machine_defs sample_store_def)
  obtain blob where blob: "seal_store toy_crypto sample_runtime (replicate 16 1) (replicate 12 2)
      sample_store sample_object = Inr blob"
    using open_seal [OF toy_ciphers w(1,2) p] by blast
  obtain s where s: "atomic_write_bytes False [lit ''x''] (store_path sample_store) (PBytes blob) ?m =
      (Done (), s)" "replaced ?m (store_path sample_store) blob None s" "committed (store_path sample_store) s"
    using atomic_write_works [OF sample_machine_ok w(3,4), of False blob] by auto
  have save: "store_save toy_crypto sample_runtime False [lit ''x''] (replicate 16 1) (replicate 12 2)
      sample_store sample_object ?m = (Done (), s)"
    using blob s(1) by (simp add: store_save_def liftI_def bindI_def returnI_def catchI_def)
  have path: "store_path sample_store = sample_file" by (simp add: sample_store_def)
  obtain i where i: "entries s sample_file = Some (Regular i)" "content s i = blob" "synced s i"
    using s(2) unfolding path by (auto simp: replaced_def written_def)
  have "Some blob \<in> after_crash s sample_file"
    using i s(3) unfolding path by (simp add: committed_def after_crash_def inode_view_def)
  moreover have "blob \<noteq> [1]"
    using blob by (auto simp: seal_store_def res_simps dest!: arg_cong [of _ _ length])
  then have "Some blob \<notin> after_crash ?m sample_file"
    using sample_not_lost [of "[]"]
    by (simp add: after_crash_def inode_view_def sample_machine_defs)
  ultimately show ?thesis
    using store_crash_safe [OF toy_ciphers w(1,2) sample_machine_ok save] sample_fits unfolding path
    by blast
qed

lemma open_store_parts:
  assumes "open_store c rt self blob = Inr v"
  obtains salt nonce ct where "blob = STORE_HEADER @ salt @ nonce @ ct" "length salt = 16" "length nonce = 12"
proof -
  have m: "length STORE_MAGIC = 18" by (simp add: store_constants)
  have len: "63 \<le> length blob" and magic: "take 18 blob = STORE_MAGIC"
    and version: "unat (blob ! 18) = STORE_VERSION"
    using assms unfolding open_store_def Let_def thenE_eq_Inr raise_if_eq_Inr m
    by (auto simp: STORE_FIXED_BYTES_def STORE_SALT_BYTES_def STORE_NONCE_BYTES_def STORE_TAG_BYTES_def)
  have "blob ! 18 = to_byte STORE_VERSION" using version by (metis to_byte_unat)
  moreover have "take 19 blob = take 18 blob @ [blob ! 18]"
    using len take_Suc_conv_app_nth [of 18 blob] by simp
  ultimately have head: "take 19 blob = STORE_HEADER" using magic by (simp add: STORE_HEADER_def)
  have "blob = take 19 blob @ take 16 (drop 19 blob) @ take 12 (drop 35 blob) @ drop 47 blob"
  proof -
    have d: "drop 35 blob = drop 16 (drop 19 blob)" "drop 47 blob = drop 12 (drop 35 blob)"
      by simp_all
    have "take 12 (drop 35 blob) @ drop 47 blob = drop 35 blob"
      unfolding d(2) by (rule append_take_drop_id)
    moreover have "take 16 (drop 19 blob) @ drop 35 blob = drop 19 blob"
      unfolding d(1) by (rule append_take_drop_id)
    ultimately show ?thesis by (simp only: append_take_drop_id)
  qed
  with head len show thesis by (intro that [of "take 16 (drop 19 blob)" "take 12 (drop 35 blob)" "drop 47 blob"]) simp_all
qed

text \<open>
  C31. A store opens exactly when it is the header, a salt, a nonce and a ciphertext of admissible
  size that the key of the passphrase and the salt decrypts, under the header as associated data,
  to a payload that decodes; and the payload is then the one encoding of what comes out.
\<close>

theorem store_opens_exactly:
  "open_store c rt self blob = Inr v \<longleftrightarrow>
     (\<exists>salt nonce ct p. blob = STORE_HEADER @ salt @ nonce @ ct \<and> length salt = 16 \<and>
        length nonce = 12 \<and> 16 \<le> length ct \<and> length ct \<le> 1048592 \<and>
        siv_decrypt c (scrypt_derive c salt (store_passphrase self)) nonce ct STORE_HEADER = Inr p \<and>
        length p \<le> MAX_STORE_PLAINTEXT_BYTES \<and> decode_payload rt p = Inr v \<and>
        encode_object rt v = Inr p)"
proof
  assume v: "open_store c rt self blob = Inr v"
  obtain salt nonce ct where b: "blob = STORE_HEADER @ salt @ nonce @ ct" "length salt = 16"
    "length nonce = 12"
    by (rule open_store_parts [OF v])
  show "\<exists>salt nonce ct p. blob = STORE_HEADER @ salt @ nonce @ ct \<and> length salt = 16 \<and>
        length nonce = 12 \<and> 16 \<le> length ct \<and> length ct \<le> 1048592 \<and>
        siv_decrypt c (scrypt_derive c salt (store_passphrase self)) nonce ct STORE_HEADER = Inr p \<and>
        length p \<le> MAX_STORE_PLAINTEXT_BYTES \<and> decode_payload rt p = Inr v \<and>
        encode_object rt v = Inr p"
    using v b decode_payload_encodes unfolding b(1) open_store_split [OF b(2,3)]
    by (fastforce simp: res_simps)
qed (auto simp: open_store_split res_simps)

lemma store_load_raises:
  assumes "\<And>k n ct ad. raises_among [InvalidTag] (siv_decrypt c k n ct ad)"
    and that: "store_load c rt self s0 = (Raised e, s)"
  shows "isinstance_of e [StoreError, RecursionError]"
proof -
  have se: "isinstance_of (store_error m) [StoreError, RecursionError]" for m
    by (simp add: isinstance_of_def store_error_def)
  have key: "raises_among [StoreError, RecursionError] (derive_key c self x)" for x
    by (simp add: derive_key_def raise_if_def se)
  have decrypt: "raises_among [StoreError, RecursionError] (wrap_exn [InvalidTag]
      (\<lambda>_. store_error m) (siv_decrypt c k n ct ad))" for m k n ct ad
    using assms(1) [of k n ct ad] by (cases "siv_decrypt c k n ct ad") (auto simp: se)
  have open_raises: "raises_among [StoreError, RecursionError] (open_store c rt self blob)" for blob
    unfolding open_store_def Let_def
    by (intro raises_intros decode_payload_raises key decrypt; simp add: se raise_if_def)
  have read: "isinstance_of e' [OSError]" if "read_bytes q s0 = (Raised e', s')" for q e' s'
    using that by (auto simp: read_bytes_def syscall_def Let_def split: fate.splits option.splits if_splits)
  show ?thesis
  proof (cases "read_bytes (store_path self) s0")
    case (Pair r t)
    show ?thesis
    proof (cases r)
      case (Done blob)
      with Pair that have "open_store c rt self blob = Inl e"
        by (auto simp: store_load_def bindI_def catchI_def liftI_def raiseI_def returnI_def split: sum.splits)
      with open_raises [of blob] show ?thesis by simp
    next
      case (Raised e')
      with Pair that read [of _ e' t] se show ?thesis
        by (auto simp: store_load_def bindI_def catchI_def raiseI_def)
    next
      case Crashed
      with Pair that show ?thesis by (simp add: store_load_def bindI_def catchI_def)
    qed
  qed
qed

text \<open>
  C32. The exceptions of the store, with a cipher that rejects by \<open>InvalidTag\<close> and seals all but the
  empty text.  Loading raises \<open>StoreError\<close> or the \<open>RecursionError\<close> of the JSON encoder.  Saving raises
  besides these: \<open>TypeError\<close>, with nothing touched, for what is not a dictionary with string keys;
  the \<open>OSError\<close> of the test for a symbolic link, made once the directories are there; and, when at
  least two calls fail, the \<open>OSError\<close> of closing a descriptor that no file object has taken over.
  Every other \<open>OSError\<close> of the file system is wrapped.
\<close>

theorem store_errors:
  assumes "\<And>k n ct ad. raises_among [InvalidTag] (siv_decrypt c k n ct ad)"
    and "\<And>k n p ad e. siv_encrypt c k n p ad = Inl e \<Longrightarrow> p = []"
    and "machine_ok s0" "length salt = 16"
  shows "(store_load c rt self s0 = (Raised e, s) \<longrightarrow> isinstance_of e [StoreError, RecursionError]) \<and>
    (store_save c rt nt names salt nonce self obj s0 = (Raised e, s) \<longrightarrow>
       isinstance_of e [StoreError, RecursionError] \<or>
       cls e = TypeError \<and> s = s0 \<and> \<not> string_keyed obj \<or>
       e = os_error \<and>
         ((\<exists>t. path_mkdir (parent (store_path self)) s0 = (Done (), t) \<and>
             is_symlink (store_path self) t = (Raised os_error, s)) \<or>
          2 \<le> failures s0 \<and> descriptor s \<noteq> None))"
proof (intro conjI impI)
  show "isinstance_of e [StoreError, RecursionError]" if "store_load c rt self s0 = (Raised e, s)"
    using store_load_raises [OF assms(1) that] .
  assume save: "store_save c rt nt names salt nonce self obj s0 = (Raised e, s)"
  from store_file.save_raises [OF assms(3) save [unfolded store_save_def]]
  consider "seal_store c rt salt nonce self obj = Inl e"
    | "e = store_error (lit ''failed to save encrypted store'')"
    | "e = os_error" "unwrapped s0 (store_path self) s" by blast
  then show "isinstance_of e [StoreError, RecursionError] \<or>
       cls e = TypeError \<and> s = s0 \<and> \<not> string_keyed obj \<or>
       e = os_error \<and>
         ((\<exists>t. path_mkdir (parent (store_path self)) s0 = (Done (), t) \<and>
             is_symlink (store_path self) t = (Raised os_error, s)) \<or>
          2 \<le> failures s0 \<and> descriptor s \<noteq> None)"
  proof cases
    case 1
    then have "s = s0" using save by (simp add: store_save_def liftI_def bindI_def raiseI_def)
    have "siv_encrypt c k nonce x ad \<noteq> Inl e" if "encode_object rt obj = Inr x" for k x ad
      using assms(2) encode_object_nonempty [OF that] by blast
    then have "encode_object rt obj = Inl e"
      using 1 assms(4) by (auto simp: seal_store_def bindE_eq_Inl derive_key_def STORE_SALT_BYTES_def)
    from encode_object_classes [OF this] \<open>s = s0\<close> show ?thesis by blast
  next
    case 2
    then show ?thesis by (simp add: isinstance_of_def store_error_def)
  next
    case 3
    then show ?thesis unfolding unwrapped_def link_test_raises_def by blast
  qed
qed

definition strict_cipher :: "crypto \<Rightarrow> bool" where
  "strict_cipher c \<longleftrightarrow>
     (\<forall>k n ct ad. raises_among [InvalidTag] (siv_decrypt c k n ct ad)) \<and>
     (\<forall>k n p ad e. siv_encrypt c k n p ad = Inl e \<longrightarrow> p = [])"

lemma toy_strict: "strict_cipher toy_crypto"
  by (auto simp: strict_cipher_def toy_crypto_def toy_open_def toy_seal_def Let_def isinstance_of_def
      split: if_splits)

text \<open>A store whose file is too short.\<close>

lemma sample_short:
  "store_load toy_crypto sample_runtime sample_store (sample_machine []) =
     (Raised (store_error (lit ''encrypted store is truncated'')), sample_machine [])"
proof -
  have "read_bytes sample_file (sample_machine []) = (Done [1], sample_machine [])"
    by (simp add: read_bytes_def syscall_works sample_machine_defs file_at_def)
  then show ?thesis
    by (simp add: store_load_def sample_store_def bindI_def catchI_def liftI_def open_store_def
        STORE_FIXED_BYTES_def raiseI_def Let_def STORE_SALT_BYTES_def)
qed

theorem store_errors_witness:
  "\<exists>e. fst (store_load toy_crypto sample_runtime sample_store (sample_machine [])) = Raised e \<and>
     isinstance_of e [StoreError, RecursionError]"
proof -
  have d: "raises_among [InvalidTag] (siv_decrypt toy_crypto k n ct ad)" for k n ct ad
    using toy_strict unfolding strict_cipher_def by blast
  have e: "siv_encrypt toy_crypto k n p ad = Inl e \<Longrightarrow> p = []" for k n p ad e
    using toy_strict unfolding strict_cipher_def by blast
  have l: "length (replicate 16 (1::byte)) = 16" by simp
  from store_errors [OF d e sample_machine_ok l] sample_short show ?thesis by fastforce
qed

section \<open>Objects that a store loses\<close>

text \<open>
  Dictionaries below the top level are not checked for string keys.  The encoder orders integer
  keys as numbers, and the decoder, which reads them as strings, orders them as text.
\<close>

definition int_keyed :: pyval where
  "int_keyed = PDict [(PStr (lit ''a''), PDict [(PInt 2, PNone), (PInt 10, PNone)])]"

definition int_keyed_text :: pystr where
  "int_keyed_text = lit ''{\"a\":{\"2\":null,\"10\":null}}''"

lemma int_keyed_encodes:
  assumes "2 \<le> dumps_depth rt"
  shows "encode_object rt int_keyed = Inr (map to_byte int_keyed_text)"
proof -
  obtain d where d: "dumps_depth rt = Suc (Suc d)"
    using assms by (metis add_2_eq_Suc le_Suc_ex)
  have "dumps rt False False int_keyed = Inr int_keyed_text"
    unfolding dumps_def d int_keyed_def int_keyed_text_def
    by (simp add: sort_items_def encode_item_def key_text_def quote_def escape_char_def
        short_escape_def lit_def int_text_def dec_int_def dec_nat.simps max_str_digits_def)
  moreover have "utf8_encode int_keyed_text = Inr (map to_byte int_keyed_text)"
    by (rule utf8_encode_ascii) (simp add: int_keyed_text_def lit_def)
  moreover have "length int_keyed_text \<le> MAX_STORE_PLAINTEXT_BYTES"
    by (simp add: int_keyed_text_def MAX_STORE_PLAINTEXT_BYTES_def)
  ultimately show ?thesis by (simp add: encode_object_def int_keyed_def)
qed

lemma int_keyed_loads:
  assumes "2 \<le> loads_depth rt"
  shows "loads rt store_reject_duplicate_keys pc int_keyed_text =
    Inr (str_dict [(lit ''a'', str_dict [(lit ''2'', PNone), (lit ''10'', PNone)])])"
proof -
  obtain d where d: "loads_depth rt = Suc (Suc d)"
    using assms by (metis add_2_eq_Suc le_Suc_ex)
  let ?in = "[(lit ''2'', PNone), (lit ''10'', PNone)]" and ?hook = store_reject_duplicate_keys
  let ?t = "lit ''{'' @ join (lit '','') (map (member_text False (\<lambda>v. lit ''null'')) ?in) @ lit ''}''"
  have null: "reads_back rt ?hook pc e (lit ''null'') PNone" for e
    using codec_literals(1) [of rt ?hook pc False False e] by (simp add: codec_def)
  have inner: "reads_back rt ?hook pc (Suc d) ?t (str_dict ?in)"
    by (rule store_hook.reads_back_dict) (use null in \<open>auto simp: lit_def is_scalar_def is_surrogate_def\<close>)
  have "reads_back rt ?hook pc (Suc (Suc d))
      (lit ''{'' @ join (lit '','') (map (member_text False (\<lambda>v. ?t)) [(lit ''a'', str_dict ?in)]) @ lit ''}'')
      (str_dict [(lit ''a'', str_dict ?in)])"
    by (rule store_hook.reads_back_dict) (use inner in \<open>auto simp: lit_def is_scalar_def is_surrogate_def\<close>)
  moreover have "lit ''{'' @ join (lit '','') (map (member_text False (\<lambda>v. ?t)) [(lit ''a'', str_dict ?in)]) @
      lit ''}'' = int_keyed_text"
    by (simp add: member_text_def quote_def escape_char_def short_escape_def int_keyed_text_def lit_def)
  ultimately show ?thesis using d by (intro loads_reads_back) simp
qed

text \<open>
  An object can be saved and never loaded again: a dictionary with the integer keys 2 and 10
  below the top level is encoded and sealed without an error, but what decrypts to its bytes is
  rejected as not canonically encoded.
\<close>

theorem store_loses_integer_keys:
  assumes "2 \<le> dumps_depth rt" "2 \<le> loads_depth rt"
  shows "\<exists>p e. encode_object rt int_keyed = Inr p \<and> decode_payload rt p = Inl e \<and> cls e = StoreError"
proof -
  let ?v = "str_dict [(lit ''a'', str_dict [(lit ''2'', PNone), (lit ''10'', PNone)])]"
  let ?p = "map to_byte int_keyed_text"
  obtain d where d: "dumps_depth rt = Suc (Suc d)"
    using assms(1) by (metis add_2_eq_Suc le_Suc_ex)
  have ascii: "utf8_encode int_keyed_text = Inr ?p"
    by (rule utf8_encode_ascii) (simp add: int_keyed_text_def lit_def)
  have raw: "bindE (decode_utf8 ?p) (loads rt store_reject_duplicate_keys store_reject_nonfinite_number) =
      Inr ?v"
    using utf8_decode_encode [OF ascii] int_keyed_loads [OF assms(2)] by (simp add: decode_utf8_def)
  have "dumps rt False False ?v = Inr (lit ''{\"a\":{\"10\":null,\"2\":null}}'')"
    unfolding dumps_def d str_dict_def
    by (simp add: sort_items_def encode_item_def quote_def escape_char_def short_escape_def lit_def)
  then have "encode_object rt ?v = Inr (map to_byte (lit ''{\"a\":{\"10\":null,\"2\":null}}''))"
    using utf8_encode_ascii [of "lit ''{\"a\":{\"10\":null,\"2\":null}}''"]
    by (simp add: encode_object_def str_dict_def MAX_STORE_PLAINTEXT_BYTES_def lit_def)
  moreover have "map to_byte (lit ''{\"a\":{\"10\":null,\"2\":null}}'') \<noteq> ?p"
    by (simp add: int_keyed_text_def lit_def)
  ultimately have "decode_payload rt ?p =
      Inl (store_error (lit ''decrypted store payload is not canonically encoded''))"
    unfolding decode_payload_def raw by (simp add: str_dict_def)
  with int_keyed_encodes [OF assms(1)] show ?thesis by (simp add: store_error_def)
qed

theorem store_loses_integer_keys_witness:
  "\<exists>p e. encode_object sample_runtime int_keyed = Inr p \<and> decode_payload sample_runtime p = Inl e"
  using store_loses_integer_keys [of sample_runtime] by (auto simp: sample_runtime_def)

end
