(* ===== verification/IdentityStore.thy ===== *)
theory IdentityStore
  imports Identity StoreSafety
begin

text \<open>
  The persisted form of an identity in \<^verbatim>\<open>src/cyphersyntax/identity.py\<close>: its file name, its payload
  in an encrypted store, saving and loading.
\<close>

definition IDENTITY_FORMAT :: pystr where
  "IDENTITY_FORMAT = lit ''CypherSyntax/identity/v1''"

definition IDENTITY_FIELDS :: "pystr list" where
  "IDENTITY_FIELDS =
     [lit ''format'', lit ''name'', lit ''ed25519_private_key'', lit ''x25519_private_key'']"

definition PRIVATE_KEY_BYTES :: nat where
  "PRIVATE_KEY_BYTES = 32"

definition identity_error :: "pystr \<Rightarrow> exn" where
  "identity_error m = Exn IdentityError m"

definition identity_filename :: "pystr \<Rightarrow> pystr res" where
  "identity_filename name =
     bindE (utf8_encode name) (\<lambda>b.
     Inr (lit ''identity-'' @ bytes_hex (sha256 b) @ lit ''.bin''))"

definition decode_private_key :: "pystr \<Rightarrow> pyval \<Rightarrow> bytes res" where
  "decode_private_key field_name value =
     (case value of
        PStr s \<Rightarrow>
          if length s \<noteq> PRIVATE_KEY_BYTES * 2
          then Inl (identity_error (lit ''persisted '' @ field_name @ lit '' has an invalid length''))
          else if \<not> (s \<noteq> [] \<and> list_all is_lower_hex s)
          then Inl (identity_error
                 (lit ''persisted '' @ field_name @ lit '' is not canonical hexadecimal''))
          else opt_else (fromhex s) (Exn ValueError (lit ''non-hexadecimal number found''))
      | _ \<Rightarrow> Inl (identity_error (lit ''persisted '' @ field_name @ lit '' must be a string'')))"

definition storage_path :: "runtime \<Rightarrow> pyval \<Rightarrow> path \<Rightarrow> path res" where
  "storage_path rt name directory =
     bindE (validate_identity_name rt name) (\<lambda>validated_name.
     bindE (identity_filename validated_name) (\<lambda>f. Inr (directory @ [f])))"

definition storage_items :: "Identity \<Rightarrow> (pystr \<times> pyval) list" where
  "storage_items self =
     [(lit ''format'', PStr IDENTITY_FORMAT), (lit ''name'', PStr (id_name self)),
      (lit ''ed25519_private_key'', PStr (bytes_hex (id_signing_private self))),
      (lit ''x25519_private_key'', PStr (bytes_hex (id_exchange_private self)))]"

definition storage_payload :: "Identity \<Rightarrow> pyval" where
  "storage_payload self = str_dict (storage_items self)"

definition identity_save ::
    "crypto \<Rightarrow> runtime \<Rightarrow> bool \<Rightarrow> pystr list \<Rightarrow> bytes \<Rightarrow> bytes \<Rightarrow> Identity \<Rightarrow> path \<Rightarrow> pyval \<Rightarrow> unit io" where
  "identity_save c rt nt names salt nonce self directory passphrase =
     thenI (liftI (validate_passphrase passphrase))
    (bindI (liftI (storage_path rt (PStr (id_name self)) directory)) (\<lambda>destination.
     catchI
       (bindI (liftI (make_store destination passphrase)) (\<lambda>store.
        store_save c rt nt names salt nonce store (storage_payload self)))
       [StoreError] (\<lambda>_. raiseI (identity_error (lit ''failed to save identity'')))))"

text \<open>The checks of \<^verbatim>\<open>load\<close> on the dictionary that the store gives.\<close>

definition schema_details :: "pystr list \<Rightarrow> pystr list \<Rightarrow> pystr" where
  "schema_details missing unexpected =
     join (lit ''; '')
       ((if missing \<noteq> [] then [lit ''missing fields: '' @ join (lit '', '') missing] else []) @
        (if unexpected \<noteq> [] then [lit ''unexpected fields: '' @ join (lit '', '') unexpected] else []))"

definition identity_of_payload :: "runtime \<Rightarrow> pystr \<Rightarrow> (pyval \<times> pyval) list \<Rightarrow> Identity res" where
  "identity_of_payload rt validated_name raw =
     (let received_fields = object_keys raw;
          missing = missing_fields IDENTITY_FIELDS received_fields;
          unexpected = unexpected_fields IDENTITY_FIELDS received_fields in
      thenE (raise_if (missing \<noteq> [] \<or> unexpected \<noteq> [])
              (identity_error (lit ''persisted identity has an invalid schema ('' @
                 schema_details missing unexpected @ lit '')'')))
     (bindE (object_get raw (lit ''format'')) (\<lambda>fmt.
      thenE (raise_if (fmt \<noteq> PStr IDENTITY_FORMAT)
              (identity_error (lit ''persisted identity has an unsupported format'')))
     (bindE (object_get raw (lit ''name'')) (\<lambda>nam.
      thenE (raise_if (nam \<noteq> PStr validated_name)
              (identity_error (lit ''persisted identity name does not match request'')))
     (bindE (object_get raw (lit ''ed25519_private_key'')) (\<lambda>ed.
      bindE (decode_private_key (lit ''Ed25519 private key'') ed) (\<lambda>signing_raw.
      bindE (object_get raw (lit ''x25519_private_key'')) (\<lambda>x.
      bindE (decode_private_key (lit ''X25519 private key'') x) (\<lambda>exchange_raw.
      make_identity rt (PStr validated_name) (Ed25519PrivateKey signing_raw)
        (X25519PrivateKey exchange_raw)))))))))))"

definition identity_load ::
    "crypto \<Rightarrow> runtime \<Rightarrow> pyval \<Rightarrow> path \<Rightarrow> pyval \<Rightarrow> Identity io" where
  "identity_load c rt name directory passphrase =
     bindI (liftI (validate_identity_name rt name)) (\<lambda>validated_name.
     thenI (liftI (validate_passphrase passphrase))
    (bindI (liftI (storage_path rt (PStr validated_name) directory)) (\<lambda>source.
     bindI
       (catchI
         (bindI (liftI (make_store source passphrase)) (store_load c rt))
         [StoreError] (\<lambda>_. raiseI (identity_error (lit ''failed to load identity''))))
       (\<lambda>raw. case raw of
          PDict items \<Rightarrow> liftI (identity_of_payload rt validated_name items)
        | _ \<Rightarrow> raiseI (Exn TypeError (lit ''payload is not a mapping''))))))"

section \<open>Facts\<close>

lemma decode_private_key_eq_Inr [res_simps]:
  "decode_private_key f x = Inr b \<longleftrightarrow> x = PStr (bytes_hex b) \<and> length b = 32"
proof (cases x)
  case (PStr s)
  show ?thesis
  proof
    assume d: "decode_private_key f x = Inr b"
    then have s: "length s = 64" "list_all is_lower_hex s" "fromhex s = Some b"
      using PStr by (auto simp: decode_private_key_def res_simps PRIVATE_KEY_BYTES_def split: if_splits)
    with fromhex_lower [of s] have "bytes_hex b = s" by auto
    with s(1) PStr show "x = PStr (bytes_hex b) \<and> length b = 32"
      using length_bytes_hex [of b] by simp
  next
    assume "x = PStr (bytes_hex b) \<and> length b = 32"
    moreover from this have "bytes_hex b \<noteq> []" by (cases b) auto
    ultimately show "decode_private_key f x = Inr b"
      by (simp add: decode_private_key_def bytes_hex_lower PRIVATE_KEY_BYTES_def)
  qed
qed (auto simp: decode_private_key_def)

text \<open>The payloads that give an identity: the four fields in any order.\<close>

lemma identity_of_payload_eq_Inr:
  "identity_of_payload rt name (map (\<lambda>kv. (PStr (fst kv), snd kv)) ps) = Inr i \<longleftrightarrow>
     set (map fst ps) = set IDENTITY_FIELDS \<and> id_name i = name \<and> identity_valid rt i \<and>
     length (id_signing_private i) = 32 \<and> length (id_exchange_private i) = 32 \<and>
     (\<forall>f \<in> set IDENTITY_FIELDS. map_of ps f = map_of (storage_items i) f)"
  by (cases i)
    (auto simp: identity_of_payload_def Let_def res_simps object_get_str IDENTITY_FIELDS_def
      storage_items_def opt_else_eq_Inr)

lemma storage_items_flat:
  assumes "identity_valid rt i"
  shows "\<forall>kv \<in> set (storage_items i). list_all is_scalar (fst kv) \<and> flat_value (snd kv)"
proof -
  have "list_all is_scalar (bytes_hex b)" for b
    by (rule lower_hex_scalar [OF bytes_hex_lower])
  moreover have "list_all is_scalar (id_name i)"
    using assms by (simp add: identity_valid_def name_ok_def)
  ultimately show ?thesis
    by (auto simp: storage_items_def flat_value_def IDENTITY_FORMAT_def intro!: lit_scalar_ascii)
qed

lemma storage_items_distinct: "distinct (map fst (storage_items i))"
  by (simp add: storage_items_def)

lemma storage_payload_fits:
  assumes "identity_valid rt i" "runtime_ok rt"
  shows "fits rt 1 (storage_payload i)"
proof -
  have "storable rt 0 (snd kv)" if "kv \<in> set (storage_items i)" for kv
    using storage_items_flat [OF assms(1)] that
    by (auto simp: storage_items_def flat_value_def)
  moreover have "distinct (map (\<lambda>kv. the (str_key (fst kv))) (map (\<lambda>kv. (PStr (fst kv), snd kv)) (storage_items i)))"
    using storage_items_distinct by (simp add: comp_def)
  ultimately show ?thesis
    using storage_items_flat [OF assms(1)] assms(2)
    by (simp add: fits_def runtime_ok_def storage_payload_def str_dict_def list_all_iff)
qed

lemma normal_storage_payload: "normal 1 (storage_payload i) = str_dict (sort_key fst (storage_items i))"
proof -
  have "map (\<lambda>kv. (fst kv, normal 0 (snd kv))) (storage_items i) = storage_items i"
    by (simp add: storage_items_def)
  then show ?thesis
    unfolding storage_payload_def One_nat_def normal_str_dict by simp
qed

lemma storage_payload_encodes:
  assumes "identity_valid rt i" "runtime_ok rt" "length (id_signing_private i) = 32"
    and "length (id_exchange_private i) = 32"
  shows "\<exists>p. encode_object rt (storage_payload i) = Inr p"
proof -
  let ?ps = "sort_key fst (storage_items i)"
  let ?t = "flat_text False ?ps"
  have "\<forall>kv \<in> set ?ps. list_all is_scalar (fst kv) \<and> flat_value (snd kv)"
    using storage_items_flat [OF assms(1)] by simp
  from store_hook.codec_flat [OF sort_key_strict [OF storage_items_distinct] this]
  have codec: "codec rt store_reject_duplicate_keys pc False an (Suc 0) ?t (str_dict ?ps)" for pc an .
  have "dumps rt False False (str_dict ?ps) = Inr ?t"
    using codec assms(2) by (intro dumps_codec) (auto simp: runtime_ok_def)
  then have d: "dumps rt False False (storage_payload i) = Inr ?t"
    unfolding storage_payload_def by (subst dumps_sort)
  have "list_all is_scalar ?t" using codec by (simp add: codec_def)
  then have u: "utf8_encode ?t = Inr (concat (map utf8_char ?t))" by (simp add: utf8_encode_def)
  have name: "ulen (quote False (id_name i)) \<le> 512"
    by (rule ulen_quote_name [of rt]) (use assms(1) in \<open>simp add: identity_valid_def\<close>)
  have keys: "ulen (quote False (bytes_hex b)) = 2 * length b + 2" for b
    using ulen_quote_plain [OF lower_hex_plain [OF bytes_hex_lower]] by simp
  have plain: "ulen (quote False (lit s)) = length s + 2"
    if "list_all (\<lambda>c. plain_char (of_char c)) s" for s
    using ulen_quote_plain [of "lit s"] that by (simp add: lit_def list.pred_map comp_def)
  have "ulen ?t = 2 + sum_list (map (\<lambda>kv. ulen (quote False (fst kv)) + 1 +
      ulen (scalar_text False (snd kv))) (storage_items i)) + 3"
    unfolding ulen_flat_text
    by (simp only: sum_list_sort_key length_sort) (simp add: storage_items_def)
  also have "\<dots> \<le> MAX_STORE_PLAINTEXT_BYTES"
    using name
    by (simp add: storage_items_def IDENTITY_FORMAT_def keys plain assms(3,4) plain_char_def
        MAX_STORE_PLAINTEXT_BYTES_def)
  finally have "length (concat (map utf8_char ?t)) \<le> MAX_STORE_PLAINTEXT_BYTES" by (simp add: ulen_def)
  then have "encode_object rt (storage_payload i) = Inr (concat (map utf8_char ?t))"
    unfolding encode_object_eq_Inr using d u by (auto simp: storage_payload_def str_dict_def)
  then show ?thesis by blast
qed

section \<open>Properties\<close>

text \<open>The hypotheses under which an identity can be stored.\<close>

definition keys_ok :: "Identity \<Rightarrow> bool" where
  "keys_ok i \<longleftrightarrow> length (id_signing_private i) = 32 \<and> length (id_exchange_private i) = 32"

lemma identity_of_stored:
  assumes "identity_valid rt i" "keys_ok i"
  shows "\<exists>kvs. normal 1 (storage_payload i) = PDict kvs \<and> identity_of_payload rt (id_name i) kvs = Inr i"
proof -
  let ?ps = "sort_key fst (storage_items i)"
  have "map_of ?ps = map_of (storage_items i)"
    by (subst map_of_inject_set)
      (use sort_key_strict [OF storage_items_distinct] storage_items_distinct in
        \<open>simp_all add: strict_sorted_iff\<close>)
  moreover have "set (map fst ?ps) = set IDENTITY_FIELDS"
    by (simp only: set_map set_sort) (simp add: storage_items_def IDENTITY_FIELDS_def)
  ultimately have "identity_of_payload rt (id_name i) (map (\<lambda>kv. (PStr (fst kv), snd kv)) ?ps) = Inr i"
    using assms by (simp add: identity_of_payload_eq_Inr keys_ok_def)
  then show ?thesis unfolding normal_storage_payload str_dict_def by blast
qed

lemma storage_path_eq_Inr:
  "storage_path rt (PStr name) dir = Inr p \<longleftrightarrow>
     name_ok rt name \<and> \<not> path_component name \<and>
     (\<exists>b. utf8_encode name = Inr b \<and> p = dir @ [lit ''identity-'' @ bytes_hex (sha256 b) @ lit ''.bin''])"
  by (auto simp: storage_path_def identity_filename_def res_simps)

lemma liftI_Inr: "liftI (Inr x) = returnI x"
  by (simp add: liftI_def)

lemma bind_returnI: "bindI (returnI x) f = f x"
  by (rule ext) (simp add: bindI_def returnI_def)

text \<open>The steps of a load whose arguments are admissible.\<close>

lemma identity_load_steps:
  assumes "storage_path rt (PStr name) dir = Inr p" "16 \<le> length pass" "length pass \<le> 1024"
  shows "identity_load c rt (PStr name) dir (PBytes pass) =
    bindI (catchI (store_load c rt \<lparr>store_path = p, store_passphrase = pass\<rparr>) [StoreError]
            (\<lambda>_. raiseI (identity_error (lit ''failed to load identity''))))
      (\<lambda>raw. case raw of
         PDict items \<Rightarrow> liftI (identity_of_payload rt name items)
       | _ \<Rightarrow> raiseI (Exn TypeError (lit ''payload is not a mapping'')))"
proof -
  have pass: "validate_passphrase (PBytes pass) = Inr ()"
    using assms(2,3) by (auto simp: validate_passphrase_eq_Inr)
  have name: "validate_identity_name rt (PStr name) = Inr name"
    using assms(1) by (auto simp: storage_path_eq_Inr validate_identity_name_eq_Inr)
  show ?thesis
    using pass name assms(1)
    by (simp add: identity_load_def make_store_def thenI_def liftI_Inr bind_returnI)
qed

text \<open>Likewise of a save\<close>

lemma identity_save_steps:
  assumes "storage_path rt (PStr (id_name i)) dir = Inr p" "16 \<le> length pass" "length pass \<le> 1024"
  shows "identity_save c rt nt names salt nonce i dir (PBytes pass) =
    catchI (store_save c rt nt names salt nonce \<lparr>store_path = p, store_passphrase = pass\<rparr>
        (storage_payload i)) [StoreError] (\<lambda>_. raiseI (identity_error (lit ''failed to save identity'')))"
proof -
  have "validate_passphrase (PBytes pass) = Inr ()"
    using assms(2,3) by (auto simp: validate_passphrase_eq_Inr)
  then show ?thesis
    using assms(1) by (simp add: identity_save_def make_store_def thenI_def liftI_Inr bind_returnI)
qed

text \<open>
  C33. A saved identity is loaded again: with an admissible passphrase, on a system that works, an
  identity with its two keys comes back from its directory, name and keys unchanged.
\<close>

theorem identity_store_roundtrip:
  assumes "lengths_ok c" "ciphers_correct c" "runtime_ok rt" "identity_valid rt i" "keys_ok i"
    and "length salt = 16" "length nonce = 12" "16 \<le> length pass" "length pass \<le> 1024"
    and "machine_ok s0" "script s0 = []" "storage_path rt (PStr (id_name i)) dir = Inr p"
    and "writable s0 p names"
  shows "\<exists>s. identity_save c rt nt names salt nonce i dir (PBytes pass) s0 = (Done (), s) \<and>
    identity_load c rt (PStr (id_name i)) dir (PBytes pass) s = (Done i, s)"
proof -
  let ?st = "\<lparr>store_path = p, store_passphrase = pass\<rparr>"
  let ?decode = "\<lambda>raw. case raw of
      PDict items \<Rightarrow> liftI (identity_of_payload rt (id_name i) items)
    | _ \<Rightarrow> raiseI (Exn TypeError (lit ''payload is not a mapping''))"
  obtain e where e: "encode_object rt (storage_payload i) = Inr e"
    using storage_payload_encodes [OF assms(4,3)] assms(5) by (auto simp: keys_ok_def)
  then have "store_keeps c rt salt nonce (storage_payload i)"
    using assms(1,2,6,7) by (simp add: store_keeps_def)
  moreover have "recoded rt (storage_payload i) = Inr (normal 1 (storage_payload i))"
    by (rule recoded_fits [OF storage_payload_fits [OF assms(4,3)] e])
  moreover have "?decode (normal 1 (storage_payload i)) s = (Done i, s)" for s
    using identity_of_stored [OF assms(4,5)] by (auto simp: liftI_def returnI_def)
  ultimately show ?thesis
    unfolding identity_save_steps [OF assms(12,8,9)] identity_load_steps [OF assms(12,8,9)]
      store_save_def store_load_def
    using assms(10,11,13) by (intro store_file.decoded_again) auto
qed

text \<open>
  Identities stay in their directory: the file of an accepted name is directly in the given
  directory, and its name, the digest of the name of the identity, is always 77 characters long
  and has no path separator.
\<close>

theorem storage_path_confined:
  assumes "storage_path rt name dir = Inr p"
  shows "\<exists>f s b. p = dir @ [f] \<and> name = PStr s \<and> utf8_encode s = Inr b \<and>
    f = lit ''identity-'' @ bytes_hex (sha256 b) @ lit ''.bin'' \<and> length f = 77 \<and>
    \<not> path_component f \<and> name_ok rt s \<and> \<not> path_component s"
proof -
  obtain s b where s: "name = PStr s" "name_ok rt s" "\<not> path_component s" "utf8_encode s = Inr b"
    "p = dir @ [lit ''identity-'' @ bytes_hex (sha256 b) @ lit ''.bin'']"
    using assms by (auto simp: storage_path_def identity_filename_def res_simps)
  have "47 \<notin> set (bytes_hex x)" "92 \<notin> set (bytes_hex x)" for x
    using bytes_hex_lower [of x] by (auto simp: list_all_iff is_lower_hex_def)
  moreover have "length (lit ''identity-'' @ bytes_hex (sha256 b) @ lit ''.bin'') = 77" by simp
  ultimately have "\<not> path_component (lit ''identity-'' @ bytes_hex (sha256 b) @ lit ''.bin'')"
    by (auto simp: path_component_def lit_def)
  with s show ?thesis by simp
qed

theorem storage_path_confined_witness:
  "\<exists>p f. storage_path sample_runtime (PStr (lit ''alice'')) sample_dir = Inr p \<and> p = sample_dir @ [f]"
proof -
  have "name_ok sample_runtime (lit ''alice'')" "\<not> path_component (lit ''alice'')"
    by (simp_all add: name_ok_plain MAX_PARTICIPANT_NAME_BYTES_def lit_def path_component_def)
  moreover have "\<exists>b. utf8_encode (lit ''alice'') = Inr b"
    by (simp add: utf8_encode_def lit_def is_scalar_def is_surrogate_def)
  ultimately obtain p where p: "storage_path sample_runtime (PStr (lit ''alice'')) sample_dir = Inr p"
    by (auto simp: storage_path_eq_Inr)
  from storage_path_confined [OF this] p show ?thesis by blast
qed

definition stored_alice :: Identity where
  "stored_alice = \<lparr>id_name = lit ''alice'', id_signing_private = replicate 32 1,
     id_exchange_private = replicate 32 2\<rparr>"

lemma stored_alice_ok: "identity_valid sample_runtime stored_alice" "keys_ok stored_alice"
  by (simp_all add: identity_valid_def stored_alice_def keys_ok_def name_ok_plain
      MAX_PARTICIPANT_NAME_BYTES_def lit_def path_component_def)

lemma stored_alice_path: "\<exists>f. storage_path sample_runtime (PStr (id_name stored_alice)) sample_dir =
    Inr (sample_dir @ [f]) \<and> f \<noteq> lit ''f''"
proof -
  have "\<exists>b. utf8_encode (lit ''alice'') = Inr b"
    by (simp add: utf8_encode_def lit_def is_scalar_def is_surrogate_def)
  moreover have "lit ''identity-'' @ x \<noteq> lit ''f''" for x by (simp add: lit_def)
  ultimately show ?thesis
    using stored_alice_ok(1) by (auto simp: storage_path_eq_Inr identity_valid_def stored_alice_def)
qed

lemma new_file_writable:
  assumes "f \<noteq> lit ''f''"
  shows "writable (sample_machine fates) (sample_dir @ [f]) [lit ''x'']"
proof -
  have len: "length (temp_path (sample_dir @ [f]) (lit ''x'')) = 2"
    by (simp add: temp_path_def parent_def sample_dir_def)
  have "temp_path (sample_dir @ [f]) (lit ''x'') \<noteq> sample_file"
  proof
    assume "temp_path (sample_dir @ [f]) (lit ''x'') = sample_file"
    then have "length (last (temp_path (sample_dir @ [f]) (lit ''x''))) = length (last sample_file)" by simp
    then show False by (simp add: temp_path_def sample_file_def)
  qed
  moreover have "temp_path (sample_dir @ [f]) (lit ''x'') \<noteq> []"
    "temp_path (sample_dir @ [f]) (lit ''x'') \<noteq> sample_dir"
    using len by (auto simp: sample_dir_def)
  moreover have "sample_dir @ [f] \<noteq> sample_file" using assms by (simp add: sample_dir_def sample_file_def)
  moreover have "q = [] \<or> q = sample_dir" if "prefix q sample_dir" for q
    using that by (auto simp: sample_dir_def prefix_Cons)
  ultimately show ?thesis
    by (auto simp: writable_def creatable_def sample_machine_defs parent_def)
qed

theorem identity_store_roundtrip_witness:
  "\<exists>s. identity_save toy_crypto sample_runtime False [lit ''x''] (replicate 16 1) (replicate 12 2)
       stored_alice sample_dir (PBytes (replicate 16 7)) (sample_machine []) = (Done (), s) \<and>
     identity_load toy_crypto sample_runtime (PStr (id_name stored_alice)) sample_dir
       (PBytes (replicate 16 7)) s = (Done stored_alice, s)"
proof -
  obtain f where f: "storage_path sample_runtime (PStr (id_name stored_alice)) sample_dir =
    Inr (sample_dir @ [f])" "f \<noteq> lit ''f''"
    using stored_alice_path by blast
  have "length (replicate 16 (1::byte)) = 16" "length (replicate 12 (2::byte)) = 12"
    "16 \<le> length (replicate 16 (7::byte))" "length (replicate 16 (7::byte)) \<le> 1024"
    "script (sample_machine []) = []"
    by (simp_all add: sample_machine_defs)
  from identity_store_roundtrip [OF toy_ciphers sample_runtime_ok stored_alice_ok this(1-4)
      sample_machine_ok this(5) f(1) new_file_writable [OF f(2)]]
  show ?thesis .
qed

lemma object_get_fields:
  assumes "set fs \<subseteq> set (object_keys raw)" "f \<in> set fs"
  shows "raises_among cs (object_get raw f)"
proof -
  have "f \<in> set (object_keys raw)" using assms by blast
  from object_get_present [OF this] show ?thesis by auto
qed

lemma identity_of_payload_raises:
  assumes "name_ok rt name" "\<not> path_component name"
  shows "raises_among [IdentityError] (identity_of_payload rt name raw)"
proof (cases "set (object_keys raw) = set IDENTITY_FIELDS")
  case True
  have ie: "isinstance_of (identity_error m) [IdentityError]" for m
    by (simp add: isinstance_of_def identity_error_def)
  have get: "raises_among [IdentityError] (object_get raw f)" if "f \<in> set IDENTITY_FIELDS" for f
    using object_get_fields [of IDENTITY_FIELDS raw f] True that by simp
  have key: "raises_among [IdentityError] (decode_private_key f x)" for f x
  proof (cases x)
    case (PStr s)
    show ?thesis
    proof (cases "length s = 64 \<and> list_all is_lower_hex s")
      case True
      then obtain b where "fromhex s = Some b" using fromhex_lower [of s] by auto
      with PStr show ?thesis by (simp add: decode_private_key_def ie)
    qed (use PStr in \<open>auto simp: decode_private_key_def ie PRIVATE_KEY_BYTES_def\<close>)
  qed (simp_all add: decode_private_key_def ie)
  have make: "raises_among [IdentityError] (make_identity rt (PStr name) (Ed25519PrivateKey a)
      (X25519PrivateKey b))" for a b
    using assms by (simp add: make_identity_def validate_identity_name_eq_Inr [THEN iffD2])
  show ?thesis
    unfolding identity_of_payload_def Let_def
    by (intro raises_intros get key make; simp add: ie IDENTITY_FIELDS_def)
next
  case False
  then have "missing_fields IDENTITY_FIELDS (object_keys raw) \<noteq> [] \<or>
      unexpected_fields IDENTITY_FIELDS (object_keys raw) \<noteq> []" by auto
  then show ?thesis
    by (simp add: identity_of_payload_def Let_def isinstance_of_def identity_error_def raise_if_def)
qed

lemma identity_of_payload_Inr:
  assumes "identity_of_payload rt name raw = Inr i"
  shows "id_name i = name \<and> identity_valid rt i \<and> keys_ok i"
  using assms
  by (auto simp: identity_of_payload_def Let_def res_simps keys_ok_def)

lemma store_loads_dict: "store_load c rt self s = (Done raw, t) \<Longrightarrow>
    \<exists>kvs blob. raw = PDict kvs \<and> read_bytes (store_path self) s = (Done blob, t) \<and>
      open_store c rt self blob = Inr raw"
proof -
  assume l: "store_load c rt self s = (Done raw, t)"
  then obtain blob where b: "read_bytes (store_path self) s = (Done blob, t)"
    "open_store c rt self blob = Inr raw"
    by (auto simp: store_load_def bindI_def catchI_def liftI_def raiseI_def returnI_def
        split: prod.splits outcome.splits sum.splits if_splits)
  moreover obtain p where "encode_object rt raw = Inr p"
    using b(2) decode_payload_encodes
    by (auto simp: open_store_def Let_def res_simps)
  then have "\<exists>kvs. raw = PDict kvs" by (auto simp: encode_object_eq_Inr)
  ultimately show ?thesis by blast
qed

text \<open>
  C34. What loading promises: it returns only a valid identity of the requested name with keys of
  32 bytes, read from the file of that name and accepted by the store under the passphrase; and
  once name and passphrase are admissible it raises only \<open>IdentityError\<close>, or the
  \<open>RecursionError\<close> of the JSON encoder.
\<close>

theorem identity_load_promises:
  assumes "\<And>k n ct ad. raises_among [InvalidTag] (siv_decrypt c k n ct ad)"
    and "storage_path rt (PStr name) dir = Inr p" "16 \<le> length pass" "length pass \<le> 1024"
    and "identity_load c rt (PStr name) dir (PBytes pass) s = (r, t)"
  shows "case r of
      Done i \<Rightarrow> id_name i = name \<and> identity_valid rt i \<and> keys_ok i \<and>
        (\<exists>blob kvs. read_bytes p s = (Done blob, t) \<and>
           open_store c rt \<lparr>store_path = p, store_passphrase = pass\<rparr> blob = Inr (PDict kvs) \<and>
           identity_of_payload rt name kvs = Inr i)
    | Raised e \<Rightarrow> isinstance_of e [IdentityError, RecursionError]
    | Crashed \<Rightarrow> True"
proof -
  let ?st = "\<lparr>store_path = p, store_passphrase = pass\<rparr>"
  note load = assms(5) [unfolded identity_load_steps [OF assms(2-4)]]
  have name: "name_ok rt name" "\<not> path_component name"
    using assms(2) by (auto simp: storage_path_eq_Inr)
  obtain q u where l: "store_load c rt ?st s = (q, u)" by (cases "store_load c rt ?st s")
  show ?thesis
  proof (cases q)
    case (Done raw)
    obtain kvs blob where raw: "raw = PDict kvs" "read_bytes p s = (Done blob, u)"
      "open_store c rt ?st blob = Inr (PDict kvs)"
      using store_loads_dict [OF l [unfolded Done]] by auto
    have "(r, t) = liftI (identity_of_payload rt name kvs) u"
      using load l Done raw(1) by (simp add: bindI_def catchI_def)
    then show ?thesis
      using identity_of_payload_Inr [of rt name kvs] raw(2,3) identity_of_payload_raises [OF name, of kvs]
      by (cases "identity_of_payload rt name kvs")
        (auto simp: liftI_def raiseI_def returnI_def isinstance_of_def)
  next
    case (Raised e)
    have "isinstance_of e [StoreError, RecursionError]"
      by (rule store_load_raises [OF assms(1) l [unfolded Raised]])
    then show ?thesis
      using load l Raised
      by (auto simp: bindI_def catchI_def raiseI_def isinstance_of_def identity_error_def
          split: if_splits)
  next
    case Crashed
    then show ?thesis using load l by (simp add: bindI_def catchI_def)
  qed
qed

theorem identity_load_promises_witness:
  "\<exists>r t p. identity_load toy_crypto sample_runtime (PStr (id_name stored_alice)) sample_dir
       (PBytes (replicate 16 7)) (sample_machine []) = (r, t) \<and>
     (case r of Done i \<Rightarrow> id_name i = id_name stored_alice \<and> keys_ok i
      | Raised e \<Rightarrow> isinstance_of e [IdentityError, RecursionError] | Crashed \<Rightarrow> True)"
proof -
  have d: "raises_among [InvalidTag] (siv_decrypt toy_crypto k n ct ad)" for k n ct ad
    using toy_strict unfolding strict_cipher_def by blast
  obtain f where f: "storage_path sample_runtime (PStr (id_name stored_alice)) sample_dir =
    Inr (sample_dir @ [f])"
    using stored_alice_path by blast
  obtain r t where r: "identity_load toy_crypto sample_runtime (PStr (id_name stored_alice)) sample_dir
      (PBytes (replicate 16 7)) (sample_machine []) = (r, t)" by fastforce
  from identity_load_promises [OF d f _ _ r] r show ?thesis
    by (cases r) auto
qed

end
