(* ===== verification/PyFormats.thy ===== *)
theory PyFormats
  imports PyText Errors
begin

text \<open>
  The formats of Python's standard library that \<^verbatim>\<open>check_green.py\<close> and
  \<^verbatim>\<open>check_source_quality.py\<close> read: lines of text, URL-safe Base64, comma-separated values as
  \<^verbatim>\<open>csv.reader\<close> reads them in its default dialect, and the headers of a message as
  \<^verbatim>\<open>email.parser.Parser\<close> reads them in its default policy (as in Python 3.11).
\<close>

section \<open>Lines\<close>

text \<open>
  Text is cut after each line end; a carriage return with a following line feed is one end.
  \<open>keep\<close> says whether the ends stay.
\<close>

fun split_lines :: "(nat \<Rightarrow> bool) \<Rightarrow> bool \<Rightarrow> pystr \<Rightarrow> pystr \<Rightarrow> pystr list" where
  "split_lines ends keep line [] = (if line = [] then [] else [line])"
| "split_lines ends keep line (c # s) =
     (if \<not> ends c then split_lines ends keep (line @ [c]) s
      else if c = 13 \<and> s \<noteq> [] \<and> hd s = 10
      then (if keep then line @ [13, 10] else line) # split_lines ends keep [] (tl s)
      else (if keep then line @ [c] else line) # split_lines ends keep [] s)"

text \<open>With the ends kept, nothing is lost.\<close>

lemma concat_split_lines: "concat (split_lines ends True line s) = line @ s"
  by (induction ends "True" line s rule: split_lines.induct) (auto split: if_splits simp: neq_Nil_conv)

text \<open>\<^verbatim>\<open>str.splitlines\<close>, universal newlines, and lines that end in a line feed only\<close>

definition line_break :: "nat \<Rightarrow> bool" where
  "line_break c \<longleftrightarrow>
     10 \<le> c \<and> c \<le> 13 \<or> 28 \<le> c \<and> c \<le> 30 \<or> c = 0x85 \<or> c = 0x2028 \<or> c = 0x2029"

definition splitlines :: "pystr \<Rightarrow> pystr list" where
  "splitlines s = split_lines line_break False [] s"

definition splitlines_keepends :: "pystr \<Rightarrow> pystr list" where
  "splitlines_keepends s = split_lines line_break True [] s"

definition universal_lines :: "pystr \<Rightarrow> pystr list" where
  "universal_lines s = split_lines (\<lambda>c. c = 10 \<or> c = 13) True [] s"

definition newline_lines :: "pystr \<Rightarrow> pystr list" where
  "newline_lines s = split_lines (\<lambda>c. c = 10) True [] s"

definition lower_ascii :: "pystr \<Rightarrow> pystr" where
  "lower_ascii s = map (\<lambda>c. if 65 \<le> c \<and> c \<le> 90 then c + 32 else c) s"

section \<open>Base64\<close>

definition b64_char :: "nat \<Rightarrow> nat" where
  "b64_char n =
     (if n < 26 then 65 + n else if n < 52 then 71 + n else if n < 62 then n - 4
      else if n = 62 then 45 else 95)"

fun b64_digits :: "bytes \<Rightarrow> nat list" where
  "b64_digits [] = []"
| "b64_digits [a] = [unat a div 4, unat a mod 4 * 16]"
| "b64_digits [a, b] = [unat a div 4, unat a mod 4 * 16 + unat b div 16, unat b mod 16 * 4]"
| "b64_digits (a # b # d # s) =
     unat a div 4 # (unat a mod 4 * 16 + unat b div 16) # (unat b mod 16 * 4 + unat d div 64) #
     unat d mod 64 # b64_digits s"

definition b64_padding :: "bytes \<Rightarrow> nat" where
  "b64_padding s = (3 - length s mod 3) mod 3"

definition urlsafe_b64encode :: "bytes \<Rightarrow> pystr" where
  "urlsafe_b64encode s = map b64_char (b64_digits s) @ replicate (b64_padding s) 61"

text \<open>\<^verbatim>\<open>s.rstrip(b"=")\<close>\<close>

definition rstrip_char :: "nat \<Rightarrow> pystr \<Rightarrow> pystr" where
  "rstrip_char c s = rev (dropWhile (\<lambda>x. x = c) (rev s))"

lemma b64_char_no_pad: "b64_char n \<noteq> 61"
  by (auto simp: b64_char_def)

lemma b64_char_inj: "m < 64 \<Longrightarrow> n < 64 \<Longrightarrow> b64_char m = b64_char n \<Longrightarrow> m = n"
  by (auto simp: b64_char_def split: if_splits)

lemma digit_bound: "x mod 4 * 16 + y div 16 < 64" if "y < 256" for x y :: nat
proof -
  have "x mod 4 \<le> 3" "y div 16 \<le> 15" using that by auto
  then show ?thesis by linarith
qed

lemma digit_bound': "x mod 16 * 4 + y div 64 < 64" if "y < 256" for x y :: nat
proof -
  have "x mod 16 \<le> 15" "y div 64 \<le> 3" using that by auto
  then show ?thesis by linarith
qed

lemma b64_digits_small: "list_all (\<lambda>n. n < 64) (b64_digits s)"
proof (induction s rule: b64_digits.induct)
  case (4 a b d s)
  then show ?case using unat_byte_less [of a] unat_byte_less [of b] unat_byte_less [of d]
    by (simp add: div_less_iff_less_mult digit_bound digit_bound')
next
  case (3 a b)
  then show ?case using unat_byte_less [of a] unat_byte_less [of b]
    by (simp add: div_less_iff_less_mult digit_bound)
next
  case (2 a)
  then show ?case using unat_byte_less [of a] by (simp add: div_less_iff_less_mult)
qed simp

lemma rstrip_padding: "rstrip_char 61 (urlsafe_b64encode s) = map b64_char (b64_digits s)"
proof -
  have pad: "dropWhile (\<lambda>x. x = 61) (replicate n 61 @ ys) = dropWhile (\<lambda>x. x = 61) ys" for n and ys :: pystr
    by (induction n) simp_all
  have "dropWhile (\<lambda>x. x = 61) (rev (map b64_char ns)) = rev (map b64_char ns)" for ns
    by (cases ns rule: rev_cases) (simp_all add: b64_char_no_pad)
  then show ?thesis
    by (simp add: rstrip_char_def urlsafe_b64encode_def pad del: dropWhile_append)
qed

lemma same_digits:
  "u * k + v = u' * k + v' \<Longrightarrow> v < k \<Longrightarrow> v' < k \<Longrightarrow> u = u' \<and> v = v'" for u v k :: nat
  by (metis div_mult_self3 div_less add.commute add_0 add_left_cancel not_less_zero)

lemma same_byte: "unat a div k = unat b div k \<Longrightarrow> unat a mod k = unat b mod k \<Longrightarrow> a = b" for a b :: byte
  by (metis div_mult_mod_eq word_unat_eq_iff)

lemma byte_div: "unat b div 16 < 16" "unat b div 64 < 4" for b :: byte
  using unat_byte_less [of b] by linarith+

lemma split_4:
  "unat a mod 4 * 16 + unat b div 16 = unat a' mod 4 * 16 + unat b' div 16 \<Longrightarrow>
     unat a mod 4 = unat a' mod 4 \<and> unat b div 16 = unat b' div 16"
  for a :: byte and b :: byte and a' :: byte and b' :: byte
  by (rule same_digits [OF _ byte_div(1) byte_div(1)])

lemma split_16:
  "unat a mod 16 * 4 + unat b div 64 = unat a' mod 16 * 4 + unat b' div 64 \<Longrightarrow>
     unat a mod 16 = unat a' mod 16 \<and> unat b div 64 = unat b' div 64"
  for a :: byte and b :: byte and a' :: byte and b' :: byte
  by (rule same_digits [OF _ byte_div(2) byte_div(2)])

lemma b64_digits_inj: "b64_digits s = b64_digits t \<Longrightarrow> s = t"
proof (induction s arbitrary: t rule: b64_digits.induct)
  case 1
  then show ?case by (cases t rule: b64_digits.cases) simp_all
next
  case (2 a)
  then show ?case by (cases t rule: b64_digits.cases) (auto intro: same_byte)
next
  case (3 a b)
  then show ?case by (cases t rule: b64_digits.cases) (auto dest!: split_4 intro: same_byte)
next
  case (4 a b d s)
  then show ?case
    by (cases t rule: b64_digits.cases) (auto dest!: split_4 split_16 intro: same_byte)
qed

text \<open>The text without padding still determines the bytes.\<close>

lemma unpadded_inj:
  assumes "rstrip_char 61 (urlsafe_b64encode s) = rstrip_char 61 (urlsafe_b64encode t)"
  shows "s = t"
proof -
  have "map b64_char (b64_digits s) = map b64_char (b64_digits t)"
    using assms by (simp add: rstrip_padding)
  moreover have "inj_on b64_char (set (b64_digits s) \<union> set (b64_digits t))"
    using b64_digits_small [of s] b64_digits_small [of t]
    by (auto simp: inj_on_def list_all_iff intro: b64_char_inj)
  ultimately have "b64_digits s = b64_digits t" by (rule map_inj_on)
  then show ?thesis by (rule b64_digits_inj)
qed

section \<open>Comma-separated values\<close>

text \<open>
  The reader is a state machine over the characters of a line, with an end-of-line symbol after
  each; a record that is inside quotes at the end of a line goes on with the next one.
\<close>

datatype csv_mode =
  START_RECORD | START_FIELD | IN_FIELD | IN_QUOTED_FIELD | QUOTE_IN_QUOTED_FIELD | EAT_CRNL

record csv_reader =
  csv_mode :: csv_mode
  csv_field :: pystr
  csv_fields :: "pystr list"

definition csv_start :: "csv_reader" where
  "csv_start = \<lparr>csv_mode = START_RECORD, csv_field = [], csv_fields = []\<rparr>"

definition csv_field_limit :: nat where
  "csv_field_limit = 131072"

definition save_field :: "csv_mode \<Rightarrow> csv_reader \<Rightarrow> csv_reader" where
  "save_field mode r = \<lparr>csv_mode = mode, csv_field = [], csv_fields = csv_fields r @ [csv_field r]\<rparr>"

definition add_char :: "csv_mode \<Rightarrow> nat \<Rightarrow> csv_reader \<Rightarrow> csv_reader res" where
  "add_char mode c r =
     (if length (csv_field r) \<ge> csv_field_limit
      then Inl (Exn CsvError (lit ''field larger than field limit (131072)''))
      else Inr (r\<lparr>csv_mode := mode, csv_field := csv_field r @ [c]\<rparr>))"

text \<open>The end of a line is \<open>None\<close>.\<close>

definition line_end :: "nat option \<Rightarrow> bool" where
  "line_end c \<longleftrightarrow> c = None \<or> c = Some 10 \<or> c = Some 13"

definition after_line :: "nat option \<Rightarrow> csv_mode" where
  "after_line c = (if c = None then START_RECORD else EAT_CRNL)"

definition csv_start_field :: "nat option \<Rightarrow> csv_reader \<Rightarrow> csv_reader res" where
  "csv_start_field c r =
     (if line_end c then Inr (save_field (after_line c) r)
      else if c = Some 34 then Inr (r\<lparr>csv_mode := IN_QUOTED_FIELD\<rparr>)
      else if c = Some 44 then Inr (save_field START_FIELD r)
      else add_char IN_FIELD (the c) r)"

definition csv_char :: "nat option \<Rightarrow> csv_reader \<Rightarrow> csv_reader res" where
  "csv_char c r =
     (case csv_mode r of
        START_RECORD \<Rightarrow>
          if c = None then Inr r
          else if line_end c then Inr (r\<lparr>csv_mode := EAT_CRNL\<rparr>)
          else csv_start_field c r
      | START_FIELD \<Rightarrow> csv_start_field c r
      | IN_FIELD \<Rightarrow>
          if line_end c then Inr (save_field (after_line c) r)
          else if c = Some 44 then Inr (save_field START_FIELD r)
          else add_char IN_FIELD (the c) r
      | IN_QUOTED_FIELD \<Rightarrow>
          if c = None then Inr r
          else if c = Some 34 then Inr (r\<lparr>csv_mode := QUOTE_IN_QUOTED_FIELD\<rparr>)
          else add_char IN_QUOTED_FIELD (the c) r
      | QUOTE_IN_QUOTED_FIELD \<Rightarrow>
          if c = Some 34 then add_char IN_QUOTED_FIELD 34 r
          else if c = Some 44 then Inr (save_field START_FIELD r)
          else if line_end c then Inr (save_field (after_line c) r)
          else add_char IN_FIELD (the c) r
      | EAT_CRNL \<Rightarrow>
          if c = None then Inr (r\<lparr>csv_mode := START_RECORD\<rparr>)
          else if line_end c then Inr r
          else Inl (Exn CsvError (lit ''new-line character seen in unquoted field'')))"

fun csv_chars :: "nat option list \<Rightarrow> csv_reader \<Rightarrow> csv_reader res" where
  "csv_chars [] r = Inr r"
| "csv_chars (c # cs) r = bindE (csv_char c r) (csv_chars cs)"

fun csv_lines :: "pystr list \<Rightarrow> csv_reader \<Rightarrow> pystr list list res" where
  "csv_lines [] r =
     Inr (if csv_mode r = IN_QUOTED_FIELD then [csv_fields (save_field START_RECORD r)] else [])"
| "csv_lines (l # ls) r =
     bindE (csv_chars (map Some l @ [None]) r) (\<lambda>r'.
     if csv_mode r' = START_RECORD
     then bindE (csv_lines ls csv_start) (\<lambda>rows. Inr (csv_fields r' # rows))
     else csv_lines ls r')"

text \<open>\<^verbatim>\<open>list(csv.reader(io.StringIO(text)))\<close>\<close>

definition csv_rows :: "pystr \<Rightarrow> pystr list list res" where
  "csv_rows s = csv_lines (newline_lines s) csv_start"

text \<open>Rows of three fields without special characters are read as they are written.\<close>

definition csv_plain :: "pystr \<Rightarrow> bool" where
  "csv_plain f \<longleftrightarrow> list_all (\<lambda>c. c \<notin> {10, 13, 34, 44}) f \<and> length f \<le> csv_field_limit"

definition csv_row_text :: "pystr list \<Rightarrow> pystr" where
  "csv_row_text row = row ! 0 @ 44 # row ! 1 @ 44 # row ! 2 @ [10]"

definition csv_plain_row :: "pystr list \<Rightarrow> bool" where
  "csv_plain_row row \<longleftrightarrow>
     (\<exists>a b d. row = [a, b, d] \<and> a \<noteq> [] \<and> csv_plain a \<and> csv_plain b \<and> csv_plain d)"

lemma csv_chars_append: "csv_chars (xs @ ys) r = bindE (csv_chars xs r) (csv_chars ys)"
proof (induction xs arbitrary: r)
  case (Cons x xs)
  then show ?case by (cases "csv_char x r") simp_all
qed simp

lemma csv_in_field:
  assumes "list_all (\<lambda>c. c \<notin> {10, 13, 34, 44}) f" "csv_mode r = IN_FIELD"
    and "length (csv_field r) + length f \<le> csv_field_limit"
  shows "csv_chars (map Some f) r = Inr (r\<lparr>csv_field := csv_field r @ f\<rparr>)"
  using assms
proof (induction f arbitrary: r)
  case (Cons c f)
  have "csv_char (Some c) r = Inr (r\<lparr>csv_field := csv_field r @ [c]\<rparr>)"
    using Cons.prems by (simp add: csv_char_def line_end_def add_char_def)
  with Cons.IH [of "r\<lparr>csv_field := csv_field r @ [c]\<rparr>"] Cons.prems show ?case by simp
qed simp

lemma csv_whole_field:
  assumes "csv_plain f" "csv_field r = []" "csv_mode r = START_FIELD \<or> csv_mode r = START_RECORD \<and> f \<noteq> []"
  shows "csv_chars (map Some f) r =
    Inr (r\<lparr>csv_mode := (if f = [] then START_FIELD else IN_FIELD), csv_field := f\<rparr>)"
proof (cases f)
  case (Cons c g)
  let ?r = "r\<lparr>csv_mode := IN_FIELD, csv_field := [c]\<rparr>"
  have "csv_start_field (Some c) r = Inr ?r"
    using assms(1,2) Cons
    by (simp add: csv_plain_def csv_start_field_def line_end_def add_char_def csv_field_limit_def)
  then have "csv_char (Some c) r = Inr ?r"
    using assms(1,3) Cons by (auto simp: csv_char_def csv_plain_def line_end_def)
  moreover have "csv_chars (map Some g) ?r = Inr (?r\<lparr>csv_field := c # g\<rparr>)"
    using csv_in_field [of g ?r] assms(1) Cons by (simp add: csv_plain_def)
  ultimately show ?thesis using Cons by simp
qed (use assms in \<open>auto\<close>)

lemma csv_comma:
  assumes "csv_mode r = START_FIELD \<or> csv_mode r = IN_FIELD"
  shows "csv_char (Some 44) r = Inr (save_field START_FIELD r)"
    and "csv_char (Some 10) r = Inr (save_field EAT_CRNL r)"
  using assms by (auto simp: csv_char_def csv_start_field_def line_end_def after_line_def)

lemma csv_row_chars:
  assumes "csv_plain_row row"
  shows "csv_chars (map Some (csv_row_text row) @ [None]) csv_start =
    Inr (csv_start\<lparr>csv_fields := row\<rparr>)"
proof -
  obtain a b d where row: "row = [a, b, d]" "a \<noteq> []" "csv_plain a" "csv_plain b" "csv_plain d"
    using assms by (auto simp: csv_plain_row_def)
  then show ?thesis
    by (simp add: csv_row_text_def csv_chars_append csv_whole_field csv_comma save_field_def
        csv_start_def) (simp add: csv_char_def)
qed

lemma split_line_feed:
  "10 \<notin> set l \<Longrightarrow> split_lines (\<lambda>c. c = 10) True acc (l @ 10 # s) =
     (acc @ l @ [10]) # split_lines (\<lambda>c. c = 10) True [] s"
  by (induction l arbitrary: acc) auto

lemma csv_rows_plain:
  assumes "list_all csv_plain_row rows"
  shows "csv_rows (concat (map csv_row_text rows)) = Inr rows"
  using assms
proof (induction rows)
  case Nil
  show ?case by (simp add: csv_rows_def newline_lines_def csv_start_def)
next
  case (Cons row rows)
  obtain a b d where row: "row = [a, b, d]" "csv_plain a" "csv_plain b" "csv_plain d"
    using Cons.prems by (auto simp: csv_plain_row_def)
  let ?l = "a @ 44 # b @ 44 # d"
  have "10 \<notin> set ?l" using row by (auto simp: csv_plain_def list_all_iff)
  then have "newline_lines (csv_row_text row @ t) = csv_row_text row # newline_lines t" for t
    using split_line_feed [of ?l "[]" t] by (simp add: newline_lines_def csv_row_text_def row)
  then show ?case
    using Cons csv_row_chars [of row] by (simp add: csv_rows_def csv_start_def)
qed

section \<open>Message headers\<close>

text \<open>The characters of a field name, and the lines that belong to the headers.\<close>

definition name_char :: "nat \<Rightarrow> bool" where
  "name_char c \<longleftrightarrow> 33 \<le> c \<and> c \<le> 57 \<or> 59 \<le> c \<and> c \<le> 126"

definition header_line :: "pystr \<Rightarrow> bool" where
  "header_line line \<longleftrightarrow>
     prefix (lit ''From '') line \<or>
     (case dropWhile name_char line of [] \<Rightarrow> False | c # _ \<Rightarrow> c = 58) \<or>
     (case line of [] \<Rightarrow> False | c # _ \<Rightarrow> c = 9 \<or> c = 32)"

definition blank_line :: "pystr \<Rightarrow> bool" where
  "blank_line line \<longleftrightarrow> (case line of [] \<Rightarrow> False | c # _ \<Rightarrow> c = 10 \<or> c = 13)"

definition body_lines :: "pystr list \<Rightarrow> pystr list" where
  "body_lines ls =
     (case dropWhile header_line ls of
        [] \<Rightarrow> []
      | l # rest \<Rightarrow> if blank_line l then rest else l # rest)"

text \<open>\<^verbatim>\<open>header_source_parse\<close>: the value of a header and its continuation lines\<close>

definition header_value :: "pystr \<Rightarrow> pystr list \<Rightarrow> pystr" where
  "header_value name ls =
     rev (dropWhile (\<lambda>c. c = 13 \<or> c = 10)
       (rev (dropWhile (\<lambda>c. c = 32 \<or> c = 9) (drop (Suc (length name)) (hd ls)) @ concat (tl ls))))"

definition flush_header :: "pystr \<Rightarrow> pystr list \<Rightarrow> (pystr \<times> pystr) list" where
  "flush_header name ls = (if name = [] then [] else [(name, header_value name ls)])"

text \<open>
  \<^verbatim>\<open>_parse_headers\<close>, with the header under way; a line that starts with \<^verbatim>\<open>From\<close> is ignored, but as
  the last one it goes back to the body.
\<close>

fun parse_headers ::
    "bool \<Rightarrow> pystr \<Rightarrow> pystr list \<Rightarrow> pystr list \<Rightarrow> (pystr \<times> pystr) list \<times> pystr list" where
  "parse_headers first name val [] = (flush_header name val, [])"
| "parse_headers first name val (line # ls) =
     (if hd line = 32 \<or> hd line = 9
      then parse_headers False name (if name = [] then val else val @ [line]) ls
      else if prefix (lit ''From '') line \<and> \<not> first \<and> ls = []
      then (flush_header name val, [line])
      else if prefix (lit ''From '') line
      then apfst (\<lambda>hs. flush_header name val @ hs) (parse_headers False [] [] ls)
      else apfst (\<lambda>hs. flush_header name val @ hs)
             (parse_headers False (takeWhile (\<lambda>c. c \<noteq> 58) line) [line] ls))"

record message =
  headers :: "(pystr \<times> pystr) list"
  payload :: "pystr option"

definition get_all :: "pystr \<Rightarrow> (pystr \<times> pystr) list \<Rightarrow> pystr list" where
  "get_all name hs = map snd (filter (\<lambda>(k, v). lower_ascii k = lower_ascii name) hs)"

definition get_header :: "message \<Rightarrow> pystr \<Rightarrow> pystr option" where
  "get_header m name = (case get_all name (headers m) of [] \<Rightarrow> None | v # _ \<Rightarrow> Some v)"

text \<open>\<^verbatim>\<open>get_content_maintype\<close>\<close>

definition content_maintype :: "(pystr \<times> pystr) list \<Rightarrow> pystr" where
  "content_maintype hs =
     (case get_all (lit ''Content-Type'') hs of
        [] \<Rightarrow> lit ''text''
      | v # _ \<Rightarrow>
          let ctype = lower_ascii (strip (takeWhile (\<lambda>c. c \<noteq> 59) v)) in
          if length (filter (\<lambda>c. c = 47) ctype) \<noteq> 1 then lit ''text''
          else takeWhile (\<lambda>c. c \<noteq> 47) ctype)"

text \<open>
  \<^verbatim>\<open>Parser().parsestr\<close>.  The payload is the text after the headers, and \<open>None\<close> when it is a list
  of messages; how the package takes the parts of a message apart whose header declares them is
  the argument \<open>typed_payload\<close>.
\<close>

definition parsestr ::
    "((pystr \<times> pystr) list \<Rightarrow> pystr list \<Rightarrow> pystr option) \<Rightarrow> pystr \<Rightarrow> message" where
  "parsestr typed_payload s =
     (let ls = universal_lines s;
          (hs, pushed) = parse_headers True [] [] (takeWhile header_line ls);
          rest = pushed @ body_lines ls in
      \<lparr>headers = hs,
       payload = (if content_maintype hs \<in> {lit ''multipart'', lit ''message''}
                  then typed_payload hs rest else Some (concat rest))\<rparr>)"

end
