(* ===== verification/Wheel.thy ===== *)
theory Wheel
  imports PyFormats PyValues Protocol Sha256
begin

text \<open>
  \<^verbatim>\<open>check_green.py\<close>, the validation of the built wheel: \<^verbatim>\<open>_safe_wheel_member\<close>,
  \<^verbatim>\<open>_record_digest\<close> and \<^verbatim>\<open>_validate_wheel\<close>.  An archive is the list of its entries; reading an entry
  may fail.  What the file system answers, how the \<^verbatim>\<open>email\<close> package takes a message with declared
  parts apart, and the text of a list of strings in a message are arguments.
\<close>

section \<open>Archives\<close>

record zip_entry =
  filename :: pystr
  entry_data :: "bytes res"

record wheel_surroundings =
  repository_license :: "bytes res"
  typed_payload :: "(pystr \<times> pystr) list \<Rightarrow> pystr list \<Rightarrow> pystr option"
  list_text :: "pystr list \<Rightarrow> pystr"

text \<open>
  \<^verbatim>\<open>info.is_dir()\<close>, false for an empty name (where older versions of Python raise \<^verbatim>\<open>IndexError\<close>), and
  \<^verbatim>\<open>archive.read\<close>, which finds the last entry of a name
\<close>

definition is_dir_entry :: "zip_entry \<Rightarrow> bool" where
  "is_dir_entry info \<longleftrightarrow> suffix (lit ''/'') (filename info)"

definition archive_read :: "zip_entry list \<Rightarrow> pystr \<Rightarrow> bytes res" where
  "archive_read infos name =
     (case filter (\<lambda>info. filename info = name) (rev infos) of
        [] \<Rightarrow> Inl (Exn KeyError (lit ''There is no item named '' @ name @ lit '' in the archive''))
      | info # _ \<Rightarrow> entry_data info)"

definition green_error :: "pystr \<Rightarrow> exn" where
  "green_error m = Exn GreenCheckError m"

section \<open>Constants\<close>

definition PACKAGE_NAME :: pystr where
  "PACKAGE_NAME = lit ''CypherSyntax''"

definition PACKAGE_VERSION :: pystr where
  "PACKAGE_VERSION = lit ''0.1.0''"

definition EXPECTED_RUNTIME_DEPENDENCY :: pystr where
  "EXPECTED_RUNTIME_DEPENDENCY = lit ''cryptography>=46.0.0''"

definition EXPECTED_README_MARKER :: pystr where
  "EXPECTED_README_MARKER =
     lit ''CypherSyntax is a compact authenticated secure-messaging core for Python.''"

definition EXPECTED_PACKAGE_FILES :: "pystr list" where
  "EXPECTED_PACKAGE_FILES =
     [lit ''cyphersyntax/__init__.py'', lit ''cyphersyntax/errors.py'',
      lit ''cyphersyntax/handshake.py'', lit ''cyphersyntax/identity.py'',
      lit ''cyphersyntax/kdf.py'', lit ''cyphersyntax/persistence.py'',
      lit ''cyphersyntax/protocol.py'', lit ''cyphersyntax/py.typed'',
      lit ''cyphersyntax/replay.py'', lit ''cyphersyntax/session.py'',
      lit ''cyphersyntax/store.py'', lit ''cyphersyntax/wire.py'']"

section \<open>Members\<close>

text \<open>\<^verbatim>\<open>PurePosixPath(name).parts\<close>: the root, if any, and the components without empty ones and dots\<close>

fun split_slash :: "pystr \<Rightarrow> pystr \<Rightarrow> pystr list" where
  "split_slash part [] = [part]"
| "split_slash part (c # s) =
     (if c = 47 then part # split_slash [] s else split_slash (part @ [c]) s)"

definition posix_root :: "pystr \<Rightarrow> pystr list" where
  "posix_root name =
     (if \<not> prefix (lit ''/'') name then []
      else if prefix (lit ''//'') name \<and> \<not> prefix (lit ''///'') name then [lit ''//'']
      else [lit ''/''])"

definition posix_parts :: "pystr \<Rightarrow> pystr list" where
  "posix_parts name =
     posix_root name @ filter (\<lambda>part. part \<noteq> [] \<and> part \<noteq> lit ''.'') (split_slash [] name)"

definition safe_wheel_member :: "pystr \<Rightarrow> bool" where
  "safe_wheel_member name \<longleftrightarrow>
     name \<noteq> [] \<and> \<not> (prefix (lit ''/'') name \<or> prefix [92] name) \<and> 92 \<notin> set name \<and>
     lit ''..'' \<notin> set (posix_parts name)"

definition record_digest :: "bytes \<Rightarrow> pystr" where
  "record_digest data = rstrip_char 61 (urlsafe_b64encode (sha256 data))"

text \<open>\<^verbatim>\<open>', '.join(names)\<close>\<close>

fun comma_separated :: "pystr list \<Rightarrow> pystr" where
  "comma_separated [] = []"
| "comma_separated [x] = x"
| "comma_separated (x # xs) = x @ lit '', '' @ comma_separated xs"

text \<open>\<^verbatim>\<open>if names: raise GreenCheckError(...)\<close>\<close>

definition raise_names :: "pystr \<Rightarrow> pystr list \<Rightarrow> unit res" where
  "raise_names message names = raise_if (names \<noteq> []) (green_error (message @ comma_separated names))"

definition package_python :: "pystr \<Rightarrow> bool" where
  "package_python name \<longleftrightarrow> prefix (lit ''cyphersyntax/'') name \<and> suffix (lit ''.py'') name"

definition forbidden_member :: "pystr \<Rightarrow> bool" where
  "forbidden_member name \<longleftrightarrow>
     prefix (lit ''tests/'') name \<or> sublist (lit ''__pycache__'') name \<or>
     suffix (lit ''.pyc'') name \<or> suffix (lit ''.pem'') name \<or> suffix (lit ''.bin'') name \<or>
     suffix (lit ''.coverage'') name"

definition check_members :: "pystr list \<Rightarrow> unit res" where
  "check_members names =
     thenE (raise_if (\<not> distinct names) (green_error (lit ''wheel contains duplicate archive members'')))
    (thenE (raise_names (lit ''wheel contains unsafe archive members: '')
             (sort (filter (\<lambda>name. \<not> safe_wheel_member name) names)))
    (thenE (raise_names (lit ''wheel is missing package files: '')
             (sort (filter (\<lambda>name. name \<notin> set names) EXPECTED_PACKAGE_FILES)))
    (thenE (raise_names (lit ''wheel contains unexpected package modules: '')
             (sort (filter (\<lambda>name. package_python name \<and>
                name \<notin> set (filter (suffix (lit ''.py'')) EXPECTED_PACKAGE_FILES)) names)))
    (raise_names (lit ''wheel contains forbidden files: '') (sort (filter forbidden_member names))))))"

section \<open>Metadata\<close>

definition names_ending :: "string \<Rightarrow> pystr list \<Rightarrow> pystr list" where
  "names_ending ending names = sort (filter (suffix (lit ending)) names)"

definition check_metadata :: "wheel_surroundings \<Rightarrow> message \<Rightarrow> unit res" where
  "check_metadata ws metadata =
     thenE (raise_if (get_header metadata (lit ''Name'') \<noteq> Some PACKAGE_NAME)
             (green_error (lit ''wheel metadata contains an unexpected name'')))
    (thenE (raise_if (get_header metadata (lit ''Version'') \<noteq> Some PACKAGE_VERSION)
             (green_error (lit ''wheel metadata contains an unexpected version'')))
    (thenE (raise_if (get_header metadata (lit ''Requires-Python'') \<noteq> Some (lit ''>=3.10''))
             (green_error (lit ''wheel metadata contains an unexpected Python requirement'')))
    (thenE (raise_if (get_header metadata (lit ''Description-Content-Type'') \<noteq> Some (lit ''text/markdown''))
             (green_error (lit ''wheel metadata is missing Markdown README metadata'')))
    (thenE (raise_if (\<not> (case payload metadata of None \<Rightarrow> False | Some p \<Rightarrow> sublist EXPECTED_README_MARKER p))
             (green_error (lit ''wheel metadata is missing the repository README'')))
    (let direct_runtime_dependencies =
           filter (\<lambda>d. \<not> sublist (lit ''; extra =='') d) (get_all (lit ''Requires-Dist'') (headers metadata)) in
     raise_if (direct_runtime_dependencies \<noteq> [EXPECTED_RUNTIME_DEPENDENCY])
       (green_error (lit ''wheel metadata contains unexpected runtime dependencies: '' @
          list_text ws direct_runtime_dependencies)))))))"

section \<open>The RECORD file\<close>

text \<open>One turn of the loop over the rows\<close>

definition check_row :: "zip_entry list \<Rightarrow> pystr \<Rightarrow> pystr \<times> pystr \<times> pystr \<Rightarrow> unit res" where
  "check_row infos record_name row =
     (let (path, digest_field, size_field) = row in
      if path = record_name
      then raise_if (digest_field \<noteq> [] \<or> size_field \<noteq> [])
             (green_error (lit ''wheel RECORD entry for RECORD must omit hash and size''))
      else
        thenE (raise_if (\<not> prefix (lit ''sha256='') digest_field)
                (green_error (lit ''wheel RECORD entry lacks a SHA-256 digest: '' @ path)))
       (bindE (archive_read infos path) (\<lambda>data.
        thenE (raise_if (digest_field \<noteq> lit ''sha256='' @ record_digest data)
                (green_error (lit ''wheel RECORD digest does not match archive member: '' @ path)))
       (raise_if (size_field \<noteq> dec_nat (length data))
                (green_error (lit ''wheel RECORD size does not match archive member: '' @ path))))))"

fun check_rows :: "zip_entry list \<Rightarrow> pystr \<Rightarrow> (pystr \<times> pystr \<times> pystr) list \<Rightarrow> unit res" where
  "check_rows infos record_name [] = Inr ()"
| "check_rows infos record_name (row # rows) =
     thenE (check_row infos record_name row) (check_rows infos record_name rows)"

definition row_of :: "pystr list \<Rightarrow> pystr \<times> pystr \<times> pystr" where
  "row_of r = (r ! 0, r ! 1, r ! 2)"

definition check_record ::
    "zip_entry list \<Rightarrow> pystr list \<Rightarrow> pystr \<Rightarrow> pystr list list \<Rightarrow> unit res" where
  "check_record infos names record_name rows =
     thenE (raise_if (\<exists>r\<in>set rows. length r \<noteq> 3) (green_error (lit ''wheel RECORD contains malformed rows'')))
    (let record_paths = map (\<lambda>r. r ! 0) rows in
     thenE (raise_if (\<not> distinct record_paths) (green_error (lit ''wheel RECORD contains duplicate paths'')))
    (thenE (raise_if (set record_paths \<noteq> set names)
             (green_error (lit ''wheel RECORD does not match archive contents'')))
    (check_rows infos record_name (map row_of rows))))"

section \<open>The whole check\<close>

definition read_text_member :: "zip_entry list \<Rightarrow> pystr \<Rightarrow> pystr res" where
  "read_text_member infos name = bindE (archive_read infos name) decode_utf8"

definition validate_archive :: "wheel_surroundings \<Rightarrow> zip_entry list \<Rightarrow> unit res" where
  "validate_archive ws infos =
     (let names = map filename (filter (\<lambda>info. \<not> is_dir_entry info) infos) in
      thenE (check_members names)
     (let metadata_names = names_ending ''.dist-info/METADATA'' names;
          wheel_names = names_ending ''.dist-info/WHEEL'' names;
          record_names = names_ending ''.dist-info/RECORD'' names;
          license_names = names_ending ''.dist-info/licenses/LICENSE'' names in
      thenE (raise_if (\<not> (length metadata_names = length wheel_names \<and>
                          length wheel_names = length record_names \<and>
                          length record_names = length license_names \<and> length license_names = 1))
              (green_error (lit ''wheel must contain exactly one METADATA, WHEEL, RECORD, and LICENSE file'')))
     (bindE (repository_license ws) (\<lambda>license.
      bindE (archive_read infos (license_names ! 0)) (\<lambda>packaged.
      thenE (raise_if (packaged \<noteq> license)
              (green_error (lit ''wheel license does not match repository LICENSE'')))
     (bindE (read_text_member infos (metadata_names ! 0)) (\<lambda>metadata_text.
      thenE (check_metadata ws (parsestr (typed_payload ws) metadata_text))
     (bindE (read_text_member infos (wheel_names ! 0)) (\<lambda>wheel_text.
      thenE (raise_if (get_header (parsestr (typed_payload ws) wheel_text) (lit ''Root-Is-Purelib'') \<noteq>
                        Some (lit ''true''))
              (green_error (lit ''wheel must be platform-independent pure Python'')))
     (bindE (read_text_member infos (record_names ! 0)) (\<lambda>record_text.
      bindE (csv_rows record_text) (\<lambda>rows.
      check_record infos names (record_names ! 0) rows))))))))))))"

text \<open>The \<^verbatim>\<open>try\<close> block; the argument is the result of opening the archive.\<close>

definition validate_wheel :: "wheel_surroundings \<Rightarrow> zip_entry list res \<Rightarrow> unit res" where
  "validate_wheel ws opened =
     wrap_exn [OSError, UnicodeError, BadZipFile]
       (\<lambda>e. green_error (lit ''failed to validate wheel: '' @ msg e))
       (bindE opened (validate_archive ws))"

section \<open>What an accepted wheel is\<close>

text \<open>Where the parts of a member's path lead from a directory, and that a safe one stays below it\<close>

fun walk_parts :: "pystr list \<Rightarrow> pystr list \<Rightarrow> pystr list" where
  "walk_parts dir [] = dir"
| "walk_parts dir (part # parts) =
     (if part = lit ''/'' \<or> part = lit ''//'' then walk_parts [] parts
      else if part = lit ''..'' then walk_parts (butlast dir) parts
      else walk_parts (dir @ [part]) parts)"

lemma split_slash_no_slash: "47 \<notin> set part \<Longrightarrow> q \<in> set (split_slash part s) \<Longrightarrow> 47 \<notin> set q"
  by (induction part s rule: split_slash.induct) (auto split: if_splits)

lemma walk_parts_below:
  "\<forall>part\<in>set parts. part \<noteq> lit ''..'' \<and> 47 \<notin> set part \<Longrightarrow> walk_parts dir parts = dir @ parts"
  by (induction parts arbitrary: dir) (auto simp: lit_def)

lemma safe_member_below:
  assumes "safe_wheel_member name"
  shows "walk_parts dir (posix_parts name) = dir @ posix_parts name"
proof (rule walk_parts_below)
  have "posix_root name = []" using assms by (simp add: safe_wheel_member_def posix_root_def)
  then show "\<forall>part\<in>set (posix_parts name). part \<noteq> lit ''..'' \<and> 47 \<notin> set part"
    using assms split_slash_no_slash [of "[]" _ name] by (auto simp: safe_wheel_member_def posix_parts_def)
qed

text \<open>The names of the files of an archive, and the rows that a RECORD must have for them\<close>

definition file_names :: "zip_entry list \<Rightarrow> pystr list" where
  "file_names infos = map filename (filter (\<lambda>info. \<not> is_dir_entry info) infos)"

definition row_for :: "pystr \<Rightarrow> bytes \<Rightarrow> pystr list" where
  "row_for name data = [name, lit ''sha256='' @ record_digest data, dec_nat (length data)]"

lemma raise_names_eq_Inr: "raise_names m (sort names) = Inr u \<longleftrightarrow> names = []"
  by (simp add: raise_names_def raise_if_eq_Inr) (metis length_sort length_0_conv)

lemma thenE_eq_unit: "thenE m n = Inr u \<longleftrightarrow> m = Inr () \<and> n = Inr u" for m :: "unit res"
  by (cases m) auto

lemma bindE_eq_unit: "bindE m f = Inr u \<longleftrightarrow> (\<exists>x. m = Inr x \<and> f x = Inr u)"
  by (cases m) auto

lemmas accept_simps = raise_if_eq_Inr raise_names_eq_Inr thenE_eq_unit bindE_eq_unit

lemma check_members_accept:
  "check_members names = Inr () \<longleftrightarrow>
     distinct names \<and> (\<forall>n\<in>set names. safe_wheel_member n \<and> \<not> forbidden_member n) \<and>
     set EXPECTED_PACKAGE_FILES \<subseteq> set names \<and>
     (\<forall>n\<in>set names. package_python n \<longrightarrow> n \<in> set EXPECTED_PACKAGE_FILES)"
proof -
  have "n \<in> set (filter (suffix (lit ''.py'')) EXPECTED_PACKAGE_FILES) \<longleftrightarrow> n \<in> set EXPECTED_PACKAGE_FILES"
    if "package_python n" for n using that by (simp add: package_python_def)
  then show ?thesis
    unfolding check_members_def accept_simps filter_empty_conv by auto
qed

lemma check_row_accept:
  "check_row infos r (path, digest, count) = Inr () \<longleftrightarrow>
     (if path = r then digest = [] \<and> count = []
      else \<exists>data. archive_read infos path = Inr data \<and>
        digest = lit ''sha256='' @ record_digest data \<and> count = dec_nat (length data))"
  by (auto simp: check_row_def accept_simps)

lemma check_rows_accept:
  "check_rows infos r rows = Inr () \<longleftrightarrow> (\<forall>row\<in>set rows. check_row infos r row = Inr ())"
  by (induction rows) (auto simp: accept_simps)

lemma three_fields: "length r = 3 \<Longrightarrow> r = [r ! 0, r ! 1, r ! 2]"
  by (auto simp: numeral_3_eq_3 length_Suc_conv)

lemma check_record_accept:
  "check_record infos names r rows = Inr () \<longleftrightarrow>
     (\<forall>row\<in>set rows. length row = 3) \<and> distinct (map (\<lambda>row. row ! 0) rows) \<and>
     set (map (\<lambda>row. row ! 0) rows) = set names \<and>
     (\<forall>row\<in>set rows. check_row infos r (row_of row) = Inr ())"
  by (auto simp: check_record_def accept_simps Let_def check_rows_accept)

lemma dec_nat_inj: "dec_nat m = dec_nat n \<Longrightarrow> m = n"
  by (metis digits_value_dec_nat)

text \<open>The row of a member that is not the RECORD file itself\<close>

lemma record_rows:
  assumes "check_record infos names r rows = Inr ()" "n \<in> set names" "n \<noteq> r"
  shows "\<exists>data. archive_read infos n = Inr data \<and> row_for n data \<in> set rows"
proof -
  obtain row where row: "row \<in> set rows" "row ! 0 = n"
    using assms(1,2) by (force simp: check_record_accept)
  then have "length row = 3" "check_row infos r (row_of row) = Inr ()"
    using assms(1) by (simp_all add: check_record_accept)
  then show ?thesis
    using row assms(3) three_fields [of row]
    by (auto simp: row_of_def check_row_accept row_for_def)
qed

lemma validate_archive_accept:
  assumes "validate_archive ws infos = Inr ()"
  obtains r content rows where "check_members (file_names infos) = Inr ()"
    "r \<in> set (file_names infos)" "suffix (lit ''.dist-info/RECORD'') r"
    "\<And>n. n \<in> set (file_names infos) \<Longrightarrow> suffix (lit ''.dist-info/RECORD'') n \<Longrightarrow> n = r"
    "read_text_member infos r = Inr content" "csv_rows content = Inr rows"
    "check_record infos (file_names infos) r rows = Inr ()"
    "\<exists>l. suffix (lit ''.dist-info/licenses/LICENSE'') l \<and> l \<in> set (file_names infos) \<and>
       archive_read infos l = repository_license ws"
proof -
  let ?names = "file_names infos"
  have one: "\<exists>x. names_ending e ?names = [x] \<and> x \<in> set ?names \<and> suffix (lit e) x \<and>
      (\<forall>n\<in>set ?names. suffix (lit e) n \<longrightarrow> n = x)" if len: "length (names_ending e ?names) = 1" for e
  proof -
    obtain x where x: "names_ending e ?names = [x]"
      using len by (cases "names_ending e ?names") auto
    then have "set (filter (suffix (lit e)) ?names) = {x}"
      unfolding names_ending_def by (metis set_sort list.simps(15) empty_set)
    with x show ?thesis by auto
  qed
  note a = assms [unfolded validate_archive_def Let_def accept_simps, folded file_names_def]
  then have lens: "length (names_ending ''.dist-info/RECORD'' ?names) = 1"
    "length (names_ending ''.dist-info/licenses/LICENSE'' ?names) = 1" by simp_all
  obtain r where r: "names_ending ''.dist-info/RECORD'' ?names = [r]" "r \<in> set ?names"
    "suffix (lit ''.dist-info/RECORD'') r"
    "\<forall>n\<in>set ?names. suffix (lit ''.dist-info/RECORD'') n \<longrightarrow> n = r" using one [OF lens(1)] by blast
  obtain l where l: "names_ending ''.dist-info/licenses/LICENSE'' ?names = [l]" "l \<in> set ?names"
    "suffix (lit ''.dist-info/licenses/LICENSE'') l" using one [OF lens(2)] by blast
  have members: "check_members ?names = Inr ()" using a by (elim conjE)
  obtain license where "repository_license ws = Inr license"
    "archive_read infos (names_ending ''.dist-info/licenses/LICENSE'' ?names ! 0) = Inr license"
    using a by (elim conjE exE) simp
  then have licensed: "archive_read infos l = repository_license ws" by (simp add: l)
  obtain content rows where
    "read_text_member infos (names_ending ''.dist-info/RECORD'' ?names ! 0) = Inr content"
    "csv_rows content = Inr rows"
    "check_record infos ?names (names_ending ''.dist-info/RECORD'' ?names ! 0) rows = Inr ()"
    using a by (elim conjE exE)
  then have recorded: "read_text_member infos r = Inr content" "csv_rows content = Inr rows"
    "check_record infos ?names r rows = Inr ()" by (simp_all add: r)
  show thesis
    by (rule that [OF members r(2,3) _ recorded]) (use r(4) l licensed in blast)+
qed

end
