(* ===== verification/WheelSafety.thy ===== *)
theory WheelSafety
  imports Wheel Crypto
begin

text \<open>
  What the gate on the wheel guarantees, with a small wheel that passes it.
\<close>

section \<open>A wheel that is accepted\<close>

definition sample_surroundings :: "wheel_surroundings" where
  "sample_surroundings =
     \<lparr>repository_license = Inr [], typed_payload = (\<lambda>hs ls. None), list_text = (\<lambda>ds. [])\<rparr>"

definition sample_metadata :: pystr where
  "sample_metadata =
     lit ''Name: CypherSyntax'' @ [10] @ lit ''Version: 0.1.0'' @ [10] @
     lit ''Requires-Python: >=3.10'' @ [10] @ lit ''Description-Content-Type: text/markdown'' @ [10] @
     lit ''Requires-Dist: cryptography>=46.0.0'' @ [10] @
     lit ''Requires-Dist: pytest; extra == x'' @ [10] @ [10] @ EXPECTED_README_MARKER @ [10]"

definition sample_wheel_file :: pystr where
  "sample_wheel_file = lit ''Wheel-Version: 1.0'' @ [10] @ lit ''Root-Is-Purelib: true'' @ [10]"

lemma sample_metadata_ok:
  "check_metadata sample_surroundings (parsestr (typed_payload sample_surroundings) sample_metadata) = Inr ()"
  by code_simp

lemma sample_wheel_file_ok:
  "get_header (parsestr (typed_payload sample_surroundings) sample_wheel_file) (lit ''Root-Is-Purelib'') =
     Some (lit ''true'')"
  by code_simp

text \<open>The fields of a RECORD row need no quotes.\<close>

lemma b64_char_plain: "b64_char n \<notin> {10, 13, 34, 44}" if "n < 64"
  using that by (auto simp: b64_char_def)

lemma length_b64_digits: "length (b64_digits s) \<le> 2 * length s"
  by (induction s rule: b64_digits.induct) simp_all

lemma digest_plain: "csv_plain (lit ''sha256='' @ record_digest data)"
proof -
  have "record_digest data = map b64_char (b64_digits (sha256 data))"
    by (simp add: record_digest_def rstrip_padding)
  moreover have "length (b64_digits (sha256 data)) \<le> 64"
    using length_b64_digits [of "sha256 data"] by simp
  ultimately show ?thesis
    using b64_digits_small [of "sha256 data"] b64_char_plain
    by (auto simp: csv_plain_def list_all_iff csv_field_limit_def lit_def)
qed

lemma dec_nat_plain:
  assumes "n < 10 ^ 6"
  shows "csv_plain (dec_nat n)"
  using dec_nat_digits [of n] length_dec_nat [OF assms]
  by (auto simp: csv_plain_def list_all_iff csv_field_limit_def is_digit_def)

lemma row_for_plain:
  assumes "csv_plain name" "name \<noteq> []" "length data < 10 ^ 6"
  shows "csv_plain_row (row_for name data)"
  using assms digest_plain dec_nat_plain [OF assms(3)]
  by (simp add: csv_plain_row_def row_for_def)

definition sample_dist :: "string \<Rightarrow> pystr" where
  "sample_dist name = lit ''cyphersyntax-0.1.0.dist-info/'' @ lit name"

definition sample_files :: "(pystr \<times> bytes) list" where
  "sample_files = map (\<lambda>n. (n, [])) EXPECTED_PACKAGE_FILES @
     [(sample_dist ''METADATA'', map to_byte sample_metadata),
      (sample_dist ''WHEEL'', map to_byte sample_wheel_file),
      (sample_dist ''licenses/LICENSE'', [])]"

definition sample_rows :: "pystr list list" where
  "sample_rows = map (\<lambda>(n, d). row_for n d) sample_files @ [[sample_dist ''RECORD'', [], []]]"

definition sample_record :: pystr where
  "sample_record = concat (map csv_row_text sample_rows)"

definition zip_entry_of :: "pystr \<times> bytes \<Rightarrow> zip_entry" where
  "zip_entry_of f = \<lparr>filename = fst f, entry_data = Inr (snd f)\<rparr>"

definition sample_infos :: "zip_entry list" where
  "sample_infos = map zip_entry_of (sample_files @ [(sample_dist ''RECORD'', map to_byte sample_record)])"

definition sample_names :: "pystr list" where
  "sample_names = EXPECTED_PACKAGE_FILES @
     [sample_dist ''METADATA'', sample_dist ''WHEEL'', sample_dist ''licenses/LICENSE'', sample_dist ''RECORD'']"

lemma sample_names_distinct: "distinct sample_names"
  by code_simp

lemma sample_names_files: "list_all (\<lambda>n. n \<noteq> [] \<and> \<not> suffix (lit ''/'') n) sample_names"
  by code_simp

lemma sample_names_safe: "list_all safe_wheel_member sample_names"
  by code_simp

lemma sample_names_allowed: "list_all (\<lambda>n. \<not> forbidden_member n) sample_names"
  by code_simp

lemma sample_names_package:
  "list_all (\<lambda>n. package_python n \<longrightarrow> n \<in> set EXPECTED_PACKAGE_FILES) sample_names"
  by code_simp

lemma sample_names_checked: "check_members sample_names = Inr ()"
  unfolding check_members_accept
  using sample_names_distinct sample_names_safe sample_names_allowed sample_names_package
  by (auto simp: list_all_iff sample_names_def)

lemma sample_names_ending:
  "names_ending ''.dist-info/METADATA'' sample_names = [sample_dist ''METADATA'']"
  "names_ending ''.dist-info/WHEEL'' sample_names = [sample_dist ''WHEEL'']"
  by code_simp+

lemma sample_names_ending':
  "names_ending ''.dist-info/RECORD'' sample_names = [sample_dist ''RECORD'']"
  "names_ending ''.dist-info/licenses/LICENSE'' sample_names = [sample_dist ''licenses/LICENSE'']"
  by code_simp+

lemma sample_names_ascii: "list_all (list_all (\<lambda>c. c < 0x80)) sample_names"
  by code_simp

lemma sample_names_plain: "list_all csv_plain sample_names"
  by (simp add: sample_names_def EXPECTED_PACKAGE_FILES_def sample_dist_def csv_plain_def
      csv_field_limit_def lit_def)

lemma archive_read_distinct:
  assumes "distinct (map fst files)" "(n, d) \<in> set files"
  shows "archive_read (map zip_entry_of files) n = Inr d"
proof -
  have "filter (\<lambda>info. filename info = n) (map zip_entry_of files) = [zip_entry_of (n, d)]"
    using assms
  proof (induction files)
    case (Cons f files)
    then show ?case
      by (cases f; cases "fst f = n") (auto simp: zip_entry_of_def filter_empty_conv image_iff)
  qed simp
  then show ?thesis by (simp add: archive_read_def rev_filter [symmetric] zip_entry_of_def)
qed

lemma sample_file_names:
  "map fst (sample_files @ [(sample_dist ''RECORD'', d)]) = sample_names"
  by (simp add: sample_files_def sample_names_def comp_def)

lemma sample_infos_names: "file_names sample_infos = sample_names"
proof -
  have "map filename sample_infos = sample_names"
    using sample_file_names [of "map to_byte sample_record"]
    by (simp add: sample_infos_def zip_entry_of_def comp_def)
  moreover have "filter (\<lambda>info. \<not> is_dir_entry info) sample_infos = sample_infos"
  proof (rule filter_True, rule)
    fix x
    assume "x \<in> set sample_infos"
    then have "filename x \<in> set sample_names" using calculation by (metis imageI list.set_map)
    then show "\<not> is_dir_entry x" using sample_names_files by (simp add: is_dir_entry_def list_all_iff)
  qed
  ultimately show ?thesis by (simp add: file_names_def)
qed

lemma sample_read:
  "(n, d) \<in> set sample_files \<Longrightarrow> archive_read sample_infos n = Inr d"
  "archive_read sample_infos (sample_dist ''RECORD'') = Inr (map to_byte sample_record)"
  unfolding sample_infos_def
  by (rule archive_read_distinct; simp add: sample_names_distinct sample_file_names del: map_append)+

lemma decode_ascii: "list_all (\<lambda>c. c < 0x80) s \<Longrightarrow> decode_utf8 (map to_byte s) = Inr s"
  using utf8_decode_encode [OF utf8_encode_ascii] by (simp add: decode_utf8_def opt_else_def)

lemma sample_texts_ascii:
  "list_all (\<lambda>c. c < 0x80) sample_metadata" "list_all (\<lambda>c. c < 0x80) sample_wheel_file"
  by code_simp+

lemma sample_files_short: "(n, d) \<in> set sample_files \<Longrightarrow> length d < 10 ^ 6"
  by (auto simp: sample_files_def sample_metadata_def sample_wheel_file_def EXPECTED_README_MARKER_def)

lemma sample_files_named: "(n, d) \<in> set sample_files \<Longrightarrow> n \<in> set sample_names"
  using arg_cong [OF sample_file_names [of "[]"], of set] by force

lemma sample_rows_cases:
  assumes "row \<in> set sample_rows"
  obtains n d where "(n, d) \<in> set sample_files" "row = row_for n d"
  | "row = [sample_dist ''RECORD'', [], []]"
  using assms by (auto simp: sample_rows_def)

lemma sample_rows_plain: "list_all csv_plain_row sample_rows"
  unfolding list_all_iff
proof
  have plain: "csv_plain n" "n \<noteq> []" if "n \<in> set sample_names" for n
    using that sample_names_plain sample_names_files by (auto simp: list_all_iff)
  fix row
  assume "row \<in> set sample_rows"
  then show "csv_plain_row row"
  proof (cases rule: sample_rows_cases)
    case (1 n d)
    then show ?thesis
      using plain [OF sample_files_named] sample_files_short by (simp add: row_for_plain)
  next
    case 2
    have "sample_dist ''RECORD'' \<in> set sample_names" by (simp add: sample_names_def)
    then show ?thesis using plain 2 by (simp add: csv_plain_row_def csv_plain_def)
  qed
qed

lemma sample_record_ascii: "list_all (\<lambda>c. c < 0x80) sample_record"
proof -
  have digest: "c < 0x80" if "c \<in> set (record_digest d)" for c d
    using that b64_digits_small [of "sha256 d"]
    by (auto simp: record_digest_def rstrip_padding list_all_iff b64_char_def)
  have number: "c < 0x80" if "c \<in> set (dec_nat n)" for c n
    using that dec_nat_digits [of n] by (auto simp: list_all_iff is_digit_def)
  have name: "c < 0x80" if "c \<in> set n" "n \<in> set sample_names" for c n
    using that sample_names_ascii by (auto simp: list_all_iff)
  have "c < 0x80" if "row \<in> set sample_rows" "c \<in> set (csv_row_text row)" for row c
    using that(1)
  proof (cases rule: sample_rows_cases)
    case (1 n d)
    then show ?thesis
      using that(2) digest number name [OF _ sample_files_named [OF 1(1)]]
      by (auto simp: row_for_def csv_row_text_def lit_def)
  next
    case 2
    have "sample_dist ''RECORD'' \<in> set sample_names" by (simp add: sample_names_def)
    then show ?thesis using that(2) name 2 by (auto simp: csv_row_text_def)
  qed
  then show ?thesis by (auto simp: sample_record_def list_all_iff)
qed

lemma sample_members:
  "(sample_dist ''METADATA'', map to_byte sample_metadata) \<in> set sample_files"
  "(sample_dist ''WHEEL'', map to_byte sample_wheel_file) \<in> set sample_files"
  "(sample_dist ''licenses/LICENSE'', []) \<in> set sample_files"
  by (simp_all add: sample_files_def)

text \<open>Every archive with these files passes, whatever directory entries it has.\<close>

definition like_sample :: "zip_entry list \<Rightarrow> bool" where
  "like_sample infos \<longleftrightarrow> file_names infos = sample_names \<and>
     (\<forall>n\<in>set sample_names. archive_read infos n = archive_read sample_infos n)"

lemma like_sample_read:
  assumes "like_sample infos"
  shows "(n, d) \<in> set sample_files \<Longrightarrow> archive_read infos n = Inr d"
    and "archive_read infos (sample_dist ''RECORD'') = Inr (map to_byte sample_record)"
proof -
  have same: "archive_read infos n = archive_read sample_infos n" if "n \<in> set sample_names" for n
    using assms that by (simp add: like_sample_def)
  show "archive_read infos n = Inr d" if "(n, d) \<in> set sample_files"
    using same [OF sample_files_named [OF that]] sample_read(1) [OF that] by simp
  show "archive_read infos (sample_dist ''RECORD'') = Inr (map to_byte sample_record)"
    using same [of "sample_dist ''RECORD''"] sample_read(2) by (simp add: sample_names_def)
qed

lemma sample_record_ok:
  assumes "like_sample infos"
  shows "check_record infos sample_names (sample_dist ''RECORD'') sample_rows = Inr ()"
proof -
  have first: "map (\<lambda>row. row ! 0) sample_rows = sample_names"
    using sample_file_names [of "[]"] by (simp add: sample_rows_def comp_def split_def row_for_def)
  have fresh: "n \<noteq> sample_dist ''RECORD''" if "(n, d) \<in> set sample_files" for n d
    using that by (auto simp: sample_files_def EXPECTED_PACKAGE_FILES_def sample_dist_def lit_def)
  have "length row = 3 \<and> check_row infos (sample_dist ''RECORD'') (row_of row) = Inr ()"
    if "row \<in> set sample_rows" for row
    using that
  proof (cases rule: sample_rows_cases)
    case (1 n d)
    then show ?thesis
      using fresh [OF 1(1)] like_sample_read(1) [OF assms 1(1)]
      by (simp add: row_for_def row_of_def check_row_accept)
  qed (simp add: row_of_def check_row_accept)
  then show ?thesis
    unfolding check_record_accept first using sample_names_distinct by simp
qed

lemma like_sample_accepted:
  assumes "like_sample infos"
  shows "validate_wheel sample_surroundings (Inr infos) = Inr ()"
proof -
  note read = like_sample_read [OF assms]
  have texts: "read_text_member infos (sample_dist ''METADATA'') = Inr sample_metadata"
    "read_text_member infos (sample_dist ''WHEEL'') = Inr sample_wheel_file"
    "read_text_member infos (sample_dist ''RECORD'') = Inr sample_record"
    using read(1) [OF sample_members(1)] read(1) [OF sample_members(2)] read(2)
      decode_ascii [OF sample_texts_ascii(1)] decode_ascii [OF sample_texts_ascii(2)]
      decode_ascii [OF sample_record_ascii]
    by (simp_all add: read_text_member_def)
  have license: "archive_read infos (sample_dist ''licenses/LICENSE'') = Inr []"
    "repository_license sample_surroundings = Inr []"
    using read(1) [OF sample_members(3)] by (simp_all add: sample_surroundings_def)
  have rows: "csv_rows sample_record = Inr sample_rows"
    unfolding sample_record_def by (rule csv_rows_plain [OF sample_rows_plain])
  have names: "file_names infos = sample_names"
    using assms by (simp add: like_sample_def)
  show ?thesis
    unfolding validate_wheel_def validate_archive_def Let_def file_names_def [symmetric]
    by (simp add: names sample_names_checked sample_names_ending sample_names_ending' texts license rows
        sample_metadata_ok sample_wheel_file_ok sample_record_ok [OF assms])
qed

definition directory_entry :: "zip_entry" where
  "directory_entry = \<lparr>filename = lit ''cyphersyntax/'', entry_data = Inr []\<rparr>"

lemma sample_likes: "like_sample sample_infos" "like_sample (directory_entry # sample_infos)"
proof -
  show "like_sample sample_infos" by (simp add: like_sample_def sample_infos_names)
  have "is_dir_entry directory_entry" by code_simp
  moreover have "archive_read (directory_entry # infos) n = archive_read infos n"
    if "n \<in> set sample_names" for n infos
    using that sample_names_files calculation
    by (auto simp: archive_read_def list_all_iff is_dir_entry_def split: list.splits)
  ultimately show "like_sample (directory_entry # sample_infos)"
    using sample_infos_names by (simp add: like_sample_def file_names_def)
qed

lemmas sample_wheels_accepted = sample_likes [THEN like_sample_accepted]

section \<open>Properties\<close>

text \<open>
  C37. A wheel that passes the gate is confined and complete: its file names are distinct, none
  leads out of the directory it is unpacked in and none is of a forbidden kind, every package file
  is there and no other package module, its license is that of the repository, and its RECORD file
  lists exactly its files, each but the RECORD file itself with the SHA-256 digest and the size of
  its content.
\<close>

theorem accepted_wheel:
  assumes "validate_wheel ws (Inr infos) = Inr ()"
  shows "distinct (file_names infos) \<and>
    (\<forall>n\<in>set (file_names infos). \<not> forbidden_member n \<and>
       (\<forall>dir. walk_parts dir (posix_parts n) = dir @ posix_parts n)) \<and>
    {n\<in>set (file_names infos). package_python n} = {n\<in>set EXPECTED_PACKAGE_FILES. package_python n} \<and>
    set EXPECTED_PACKAGE_FILES \<subseteq> set (file_names infos) \<and>
    (\<exists>l\<in>set (file_names infos). archive_read infos l = repository_license ws) \<and>
    (\<exists>r content rows. r \<in> set (file_names infos) \<and> read_text_member infos r = Inr content \<and>
       csv_rows content = Inr rows \<and> set (map hd rows) = set (file_names infos) \<and>
       (\<forall>n\<in>set (file_names infos). n \<noteq> r \<longrightarrow>
          (\<exists>data. archive_read infos n = Inr data \<and> row_for n data \<in> set rows)))"
proof -
  have "validate_archive ws infos = Inr ()"
    using assms by (simp add: validate_wheel_def wrap_exn_eq_Inr)
  then obtain r content rows where w: "check_members (file_names infos) = Inr ()"
    "r \<in> set (file_names infos)" "read_text_member infos r = Inr content" "csv_rows content = Inr rows"
    "check_record infos (file_names infos) r rows = Inr ()"
    "\<exists>l. suffix (lit ''.dist-info/licenses/LICENSE'') l \<and> l \<in> set (file_names infos) \<and>
       archive_read infos l = repository_license ws"
    by (rule validate_archive_accept)
  have "hd row = row ! 0" if "row \<in> set rows" for row
    using w(5) that three_fields [of row] by (metis check_record_accept list.sel(1))
  then have "set (map hd rows) = set (file_names infos)"
    using w(5) by (auto simp: check_record_accept cong: map_cong)
  moreover have "\<forall>n\<in>set (file_names infos). n \<noteq> r \<longrightarrow>
      (\<exists>data. archive_read infos n = Inr data \<and> row_for n data \<in> set rows)"
    using record_rows [OF w(5)] by blast
  ultimately show ?thesis
    using w(1-4,6) unfolding check_members_accept by (auto simp: safe_member_below)
qed

theorem accepted_wheel_witness:
  "validate_wheel sample_surroundings (Inr sample_infos) = Inr () \<and>
   set EXPECTED_PACKAGE_FILES \<subseteq> set (file_names sample_infos)"
  using sample_wheels_accepted(1) accepted_wheel [OF sample_wheels_accepted(1)] by blast

text \<open>
  C38. The RECORD file of an accepted wheel pins its content: two accepted wheels with the same
  RECORD file have the same files, and every other file has the same size and the same SHA-256
  digest in both.
\<close>

theorem record_pins_content:
  assumes "validate_wheel ws (Inr a) = Inr ()" "validate_wheel ws' (Inr b) = Inr ()"
    and "suffix (lit ''.dist-info/RECORD'') r" "r \<in> set (file_names a)" "r \<in> set (file_names b)"
    and "archive_read a r = archive_read b r"
  shows "set (file_names a) = set (file_names b) \<and>
    (\<forall>n\<in>set (file_names a). n \<noteq> r \<longrightarrow>
       (\<exists>x y. archive_read a n = Inr x \<and> archive_read b n = Inr y \<and>
          length x = length y \<and> sha256 x = sha256 y))"
proof -
  have accept: "validate_archive ws a = Inr ()" "validate_archive ws' b = Inr ()"
    using assms(1,2) by (simp_all add: validate_wheel_def wrap_exn_eq_Inr)
  obtain content rows where a: "read_text_member a r = Inr content" "csv_rows content = Inr rows"
    "check_record a (file_names a) r rows = Inr ()"
    using validate_archive_accept [OF accept(1)] assms(3,4) by metis
  obtain content' rows' where b: "read_text_member b r = Inr content'" "csv_rows content' = Inr rows'"
    "check_record b (file_names b) r rows' = Inr ()"
    using validate_archive_accept [OF accept(2)] assms(3,5) by metis
  have "content' = content" using a(1) b(1) assms(6) by (simp add: read_text_member_def)
  then have rows: "rows' = rows" using a(2) b(2) by simp
  have names: "set (file_names a) = set (file_names b)"
    using a(3) b(3) by (simp add: check_record_accept rows)
  have "\<exists>x y. archive_read a n = Inr x \<and> archive_read b n = Inr y \<and> length x = length y \<and> sha256 x = sha256 y"
    if n: "n \<in> set (file_names a)" "n \<noteq> r" for n
  proof -
    obtain x where x: "archive_read a n = Inr x" "row_for n x \<in> set rows"
      using record_rows [OF a(3) n] by blast
    obtain y where y: "archive_read b n = Inr y" "row_for n y \<in> set rows"
      using record_rows [OF b(3) _ n(2)] n(1) names rows by blast
    have "row_for n x = row_for n y"
    proof -
      have "inj_on (\<lambda>row. row ! 0) (set rows)" using a(3) by (simp add: check_record_accept distinct_map)
      then show ?thesis by (rule inj_onD) (use x(2) y(2) in \<open>simp_all add: row_for_def\<close>)
    qed
    then show ?thesis
      using x(1) y(1) unpadded_inj by (auto simp: row_for_def record_digest_def dest: dec_nat_inj)
  qed
  with names show ?thesis by blast
qed

theorem record_pins_content_witness:
  "\<exists>x y. archive_read sample_infos (sample_dist ''WHEEL'') = Inr x \<and>
     archive_read (directory_entry # sample_infos) (sample_dist ''WHEEL'') = Inr y \<and> sha256 x = sha256 y"
proof -
  let ?r = "sample_dist ''RECORD''" and ?w = "sample_dist ''WHEEL''"
  have names: "file_names sample_infos = sample_names" "file_names (directory_entry # sample_infos) = sample_names"
    using sample_likes by (simp_all add: like_sample_def)
  have r: "suffix (lit ''.dist-info/RECORD'') ?r" by code_simp
  have mem: "?r \<in> set sample_names" "?w \<in> set sample_names" by (simp_all add: sample_names_def)
  have "?w \<noteq> ?r" by (simp add: sample_dist_def)
  moreover have "archive_read sample_infos ?r = archive_read (directory_entry # sample_infos) ?r"
    using sample_likes(2) mem(1) by (simp add: like_sample_def)
  ultimately have "\<exists>x y. archive_read sample_infos ?w = Inr x \<and>
      archive_read (directory_entry # sample_infos) ?w = Inr y \<and> length x = length y \<and> sha256 x = sha256 y"
    using record_pins_content [OF sample_wheels_accepted r] mem names by simp
  then show ?thesis by blast
qed

end
