(* ===== verification/PyAst.thy ===== *)
theory PyAst
  imports PyValues
begin

text \<open>
  The Python syntax trees that \<^verbatim>\<open>check_source_quality.py\<close> inspects: the classes of the \<^verbatim>\<open>ast\<close>
  module whose fields it reads, with the fields in the order of \<^verbatim>\<open>ast.iter_child_nodes\<close>, and
  \<^verbatim>\<open>ast.walk\<close>.  Every other class is \<open>Node\<close>, but for \<open>Lambda\<close>, whose arguments are no \<open>ast\<close>;
  the operator and context nodes, which have no children and no rule, are left out.  Line numbers
  come first.
\<close>

section \<open>Trees\<close>

datatype import_alias = Alias (alias_name: pystr)

datatype ast =
    Module "ast list"
  | Import nat "import_alias list"
  | ImportFrom nat "pystr option" "import_alias list"
  | FunctionDef nat pystr arguments "ast list" "ast list" "ast option" "ast list"
  | Lambda nat arguments ast
  | Assert nat "ast list"
  | ExceptHandler nat "ast option" "ast list"
  | Call nat ast "ast list"
  | Name nat pystr
  | Attribute nat ast pystr
  | Display nat "ast list"
  | Node nat "ast list"
and arguments =
    Arguments (posonlyargs: "arg list") (regular_args: "arg list") (vararg: "arg option")
      (kwonlyargs: "arg list") (kw_defaults: "ast option list") (kwarg: "arg option")
      (defaults: "ast list")
and arg = Arg (arg_line: nat) (arg_name: pystr) (annotation: "ast option")

text \<open>
  \<open>FunctionDef\<close> stands for \<^verbatim>\<open>FunctionDef\<close> and \<^verbatim>\<open>AsyncFunctionDef\<close>: line, name, arguments, body,
  decorators, return annotation and type parameters.  \<open>Display\<close> stands for \<^verbatim>\<open>Dict\<close>, \<^verbatim>\<open>DictComp\<close>,
  \<^verbatim>\<open>List\<close>, \<^verbatim>\<open>ListComp\<close>, \<^verbatim>\<open>Set\<close> and \<^verbatim>\<open>SetComp\<close>.  An entry of \<open>kw_defaults\<close> is missing for a
  keyword parameter without a default.
\<close>

fun lineno :: "ast \<Rightarrow> nat" where
  "lineno (Module b) = 0"
| "lineno (Import l ns) = l"
| "lineno (ImportFrom l m ns) = l"
| "lineno (FunctionDef l n as b ds r ts) = l"
| "lineno (Lambda l as b) = l"
| "lineno (Assert l b) = l"
| "lineno (ExceptHandler l t b) = l"
| "lineno (Call l f b) = l"
| "lineno (Name l n) = l"
| "lineno (Attribute l v n) = l"
| "lineno (Display l b) = l"
| "lineno (Node l b) = l"

datatype ast_node =
    Syntax ast
  | ArgumentsNode arguments
  | ArgNode arg
  | AliasNode import_alias

fun list_of :: "'a option \<Rightarrow> 'a list" where
  "list_of None = []"
| "list_of (Some x) = [x]"

lemma set_list_of [simp]: "set (list_of x) = set_option x"
  by (cases x) simp_all

text \<open>\<^verbatim>\<open>ast.iter_child_nodes\<close>\<close>

fun children :: "ast_node \<Rightarrow> ast_node list" where
  "children (Syntax (Module b)) = map Syntax b"
| "children (Syntax (Import l ns)) = map AliasNode ns"
| "children (Syntax (ImportFrom l m ns)) = map AliasNode ns"
| "children (Syntax (FunctionDef l n as b ds r ts)) =
     ArgumentsNode as # map Syntax b @ map Syntax ds @ map Syntax (list_of r) @ map Syntax ts"
| "children (Syntax (Lambda l as b)) = [ArgumentsNode as, Syntax b]"
| "children (Syntax (Assert l b)) = map Syntax b"
| "children (Syntax (ExceptHandler l t b)) = map Syntax (list_of t) @ map Syntax b"
| "children (Syntax (Call l f b)) = Syntax f # map Syntax b"
| "children (Syntax (Name l n)) = []"
| "children (Syntax (Attribute l v n)) = [Syntax v]"
| "children (Syntax (Display l b)) = map Syntax b"
| "children (Syntax (Node l b)) = map Syntax b"
| "children (ArgumentsNode (Arguments ps as v ks kds k ds)) =
     map ArgNode ps @ map ArgNode as @ map ArgNode (list_of v) @ map ArgNode ks @
     map Syntax (concat (map list_of kds)) @ map ArgNode (list_of k) @ map Syntax ds"
| "children (ArgNode (Arg l n a)) = map Syntax (list_of a)"
| "children (AliasNode a) = []"

section \<open>Walking a tree\<close>

text \<open>The number of nodes, the measure of the walk.\<close>

fun ast_weight :: "ast \<Rightarrow> nat" and arguments_weight :: "arguments \<Rightarrow> nat" and arg_weight :: "arg \<Rightarrow> nat" where
  "ast_weight (Module b) = Suc (sum_list (map ast_weight b))"
| "ast_weight (Import l ns) = Suc (length ns)"
| "ast_weight (ImportFrom l m ns) = Suc (length ns)"
| "ast_weight (FunctionDef l n as b ds r ts) =
     Suc (arguments_weight as + sum_list (map ast_weight b) + sum_list (map ast_weight ds) +
       (case r of None \<Rightarrow> 0 | Some a \<Rightarrow> ast_weight a) + sum_list (map ast_weight ts))"
| "ast_weight (Lambda l as b) = Suc (arguments_weight as + ast_weight b)"
| "ast_weight (Assert l b) = Suc (sum_list (map ast_weight b))"
| "ast_weight (ExceptHandler l t b) =
     Suc ((case t of None \<Rightarrow> 0 | Some a \<Rightarrow> ast_weight a) + sum_list (map ast_weight b))"
| "ast_weight (Call l f b) = Suc (ast_weight f + sum_list (map ast_weight b))"
| "ast_weight (Name l n) = 1"
| "ast_weight (Attribute l v n) = Suc (ast_weight v)"
| "ast_weight (Display l b) = Suc (sum_list (map ast_weight b))"
| "ast_weight (Node l b) = Suc (sum_list (map ast_weight b))"
| "arguments_weight (Arguments ps as v ks kds k ds) =
     Suc (sum_list (map arg_weight ps) + sum_list (map arg_weight as) +
       (case v of None \<Rightarrow> 0 | Some a \<Rightarrow> arg_weight a) + sum_list (map arg_weight ks) +
       sum_list (map (\<lambda>d. case d of None \<Rightarrow> 0 | Some a \<Rightarrow> ast_weight a) kds) +
       (case k of None \<Rightarrow> 0 | Some a \<Rightarrow> arg_weight a) + sum_list (map ast_weight ds))"
| "arg_weight (Arg l n a) = Suc (case a of None \<Rightarrow> 0 | Some b \<Rightarrow> ast_weight b)"

fun node_weight :: "ast_node \<Rightarrow> nat" where
  "node_weight (Syntax a) = ast_weight a"
| "node_weight (ArgumentsNode as) = arguments_weight as"
| "node_weight (ArgNode a) = arg_weight a"
| "node_weight (AliasNode a) = 1"

definition weight :: "ast_node list \<Rightarrow> nat" where
  "weight ns = sum_list (map node_weight ns)"

lemma weight_simps [simp]:
  "weight [] = 0"
  "weight (n # ns) = node_weight n + weight ns"
  "weight (ms @ ns) = weight ms + weight ns"
  "weight (map Syntax as) = sum_list (map ast_weight as)"
  "weight (map ArgNode gs) = sum_list (map arg_weight gs)"
  "weight (map AliasNode ns') = length ns'"
  by (simp_all add: weight_def comp_def sum_list_triv)

lemma sum_list_of [simp]:
  "sum_list (map f (list_of x)) = (case x of None \<Rightarrow> 0 | Some a \<Rightarrow> f a)" for f :: "'a \<Rightarrow> nat"
  by (cases x) simp_all

lemma weight_optional [simp]:
  "sum_list (map f (concat (map list_of ds))) = sum_list (map (\<lambda>d. case d of None \<Rightarrow> 0 | Some a \<Rightarrow> f a) ds)"
  for f :: "'a \<Rightarrow> nat"
  by (induction ds) simp_all

text \<open>A node weighs one more than its children together.\<close>

lemma children_weight: "node_weight n = Suc (weight (children n))"
  by (cases n rule: children.cases) simp_all

text \<open>
  \<^verbatim>\<open>ast.walk\<close>: a queue, from which the first node is taken and to which its children are added.
\<close>

function walk :: "ast_node list \<Rightarrow> ast_node list" where
  "walk [] = []"
| "walk (n # queue) = n # walk (queue @ children n)"
  by pat_completeness auto
termination
  by (relation "measure weight") (simp_all add: children_weight)

text \<open>The nodes of a tree, without an order.\<close>

inductive descends :: "ast_node \<Rightarrow> ast_node \<Rightarrow> bool" where
  self: "descends n n"
| child: "k \<in> set (children n) \<Longrightarrow> descends k m \<Longrightarrow> descends n m"

inductive_cases descendsE: "descends n m"
inductive_simps descends_iff: "descends n m"

lemma set_walk: "m \<in> set (walk ns) \<longleftrightarrow> (\<exists>n\<in>set ns. descends n m)"
proof (induction ns rule: walk.induct)
  case (2 n queue)
  have "descends n m \<longleftrightarrow> m = n \<or> (\<exists>k\<in>set (children n). descends k m)"
    by (auto elim: descendsE intro: descends.intros)
  with 2 show ?case by auto
qed simp

lemma walk_all: "(\<forall>m\<in>set (walk [n]). P m) \<longleftrightarrow> (\<forall>m. descends n m \<longrightarrow> P m)"
  by (auto simp: set_walk simp del: walk.simps)

text \<open>No node is visited twice: the walk has as many entries as the tree has nodes.\<close>

lemma length_walk: "length (walk ns) = weight ns"
  by (induction ns rule: walk.induct) (simp_all add: children_weight)

end
