(* ===== verification/SourceQuality.thy ===== *)
theory SourceQuality
  imports PyAst PyFormats "HOL-Library.Product_Lexorder" "HOL-Library.Multiset"
begin

text \<open>
  \<^verbatim>\<open>check_source_quality.py\<close>: the rules on the text and on the syntax tree of a source file, and
  the report over the repository.

  \<open>checkout\<close> holds what the script finds outside itself: the root of the repository, what the
  file system answers, and Python's tokenizer, parser and case folding.  A path is absolute, the
  list of its components.
\<close>

section \<open>Violations\<close>

type_synonym location = "pystr list"

datatype violation =
  Violation (violation_path: pystr) (violation_line: nat) (violation_code: pystr)
    (violation_message: pystr)

text \<open>\<^verbatim>\<open>@dataclass(order=True)\<close> compares the fields from left to right.\<close>

definition violation_key :: "violation \<Rightarrow> pystr \<times> nat \<times> pystr \<times> pystr" where
  "violation_key v = (violation_path v, violation_line v, violation_code v, violation_message v)"

lemma violation_key_inj: "violation_key v = violation_key w \<Longrightarrow> v = w"
  by (cases v; cases w) (simp add: violation_key_def)

instantiation violation :: linorder
begin

definition less_eq_violation :: "violation \<Rightarrow> violation \<Rightarrow> bool" where
  "less_eq_violation v w \<longleftrightarrow> violation_key v \<le> violation_key w"

definition less_violation :: "violation \<Rightarrow> violation \<Rightarrow> bool" where
  "less_violation v w \<longleftrightarrow> violation_key v < violation_key w"

instance
  by standard
    (auto simp: less_eq_violation_def less_violation_def less_le_not_le intro: violation_key_inj)

end

text \<open>\<^verbatim>\<open>QualityViolation.render\<close>\<close>

definition render :: "violation \<Rightarrow> pystr" where
  "render v = violation_path v @ lit '':'' @ dec_nat (violation_line v) @ lit '': '' @
     violation_code v @ lit '' '' @ violation_message v"

section \<open>The surroundings\<close>

datatype token_kind = COMMENT | OtherToken

record token =
  token_kind :: token_kind
  token_string :: pystr
  token_line :: nat

text \<open>
  A tokenizer yields tokens and then ends, raises one of the two exceptions that are caught, with
  the line if it has one, or raises another.
\<close>

datatype tokens_end = TokensDone | TokenError "nat option" pystr | TokensRaise exn

datatype parse_result = Parsed ast | Unparsable "nat option" pystr | ParseRaises exn

record checkout =
  repository_root :: location
  resolve :: "location \<Rightarrow> location"
  rglob_python :: "location \<Rightarrow> location list"
  is_file :: "location \<Rightarrow> bool"
  read_text :: "location \<Rightarrow> pystr + pystr"
  generate_tokens :: "pystr list \<Rightarrow> token list \<times> tokens_end"
  parse_source :: "pystr \<Rightarrow> parse_result"
  casefold :: "pystr \<Rightarrow> pystr"

section \<open>Constants\<close>

definition MAX_LINE_LENGTH :: nat where
  "MAX_LINE_LENGTH = 100"

definition FORBIDDEN_COMMENT_MARKERS :: "pystr list" where
  "FORBIDDEN_COMMENT_MARKERS = [lit ''todo'', lit ''fixme'', lit ''xxx'', lit ''placeholder'']"

definition FORBIDDEN_IMPORT_ROOTS :: "pystr list" where
  "FORBIDDEN_IMPORT_ROOTS =
     [lit ''cloudpickle'', lit ''dill'', lit ''marshal'', lit ''pickle'', lit ''shelve'']"

definition FORBIDDEN_CALLS :: "pystr list" where
  "FORBIDDEN_CALLS =
     [lit ''__import__'', lit ''breakpoint'', lit ''compile'', lit ''eval'', lit ''exec'']"

definition MUTABLE_DEFAULT_CALLS :: "pystr list" where
  "MUTABLE_DEFAULT_CALLS = [lit ''dict'', lit ''list'', lit ''set'']"

definition package_root :: "checkout \<Rightarrow> location" where
  "package_root co = repository_root co @ [lit ''src'', lit ''cyphersyntax'']"

section \<open>Text\<close>

definition rstrip :: "pystr \<Rightarrow> pystr" where
  "rstrip s = rev (dropWhile is_space (rev s))"

text \<open>\<^verbatim>\<open>path.as_posix()\<close> of an absolute and of a relative path\<close>

fun slash_separated :: "pystr list \<Rightarrow> pystr" where
  "slash_separated [] = []"
| "slash_separated [x] = x"
| "slash_separated (x # xs) = x @ lit ''/'' @ slash_separated xs"

definition relative_path :: "checkout \<Rightarrow> location \<Rightarrow> pystr" where
  "relative_path co path =
     (let resolved = resolve co path; root = repository_root co in
      if take (length root) resolved = root
      then (if drop (length root) resolved = [] then lit ''.''
            else slash_separated (drop (length root) resolved))
      else lit ''/'' @ slash_separated path)"

definition make_violation :: "checkout \<Rightarrow> location \<Rightarrow> nat \<Rightarrow> pystr \<Rightarrow> pystr \<Rightarrow> violation" where
  "make_violation co path line code message = Violation (relative_path co path) line code message"

text \<open>The three rules on one line\<close>

definition line_violations :: "checkout \<Rightarrow> location \<Rightarrow> nat \<times> pystr \<Rightarrow> violation list" where
  "line_violations co path numbered =
     (let (line_number, line) = numbered in
      (if 9 \<in> set line
       then [make_violation co path line_number (lit ''TXT002'') (lit ''tab character is not permitted'')]
       else []) @
      (if rstrip line \<noteq> line
       then [make_violation co path line_number (lit ''TXT003'') (lit ''trailing whitespace'')]
       else []) @
      (if length line > MAX_LINE_LENGTH
       then [make_violation co path line_number (lit ''TXT004'')
               (lit ''line exceeds '' @ dec_nat MAX_LINE_LENGTH @ lit '' characters'')]
       else []))"

definition token_violations :: "checkout \<Rightarrow> location \<Rightarrow> token \<Rightarrow> violation list" where
  "token_violations co path tok =
     (if token_kind tok \<noteq> COMMENT then []
      else
        (let normalized = casefold co (token_string tok) in
         map (\<lambda>marker. make_violation co path (token_line tok) (lit ''TXT005'')
                (lit ''forbidden unfinished-work marker: '' @ marker))
           (filter (\<lambda>marker. sublist marker normalized) FORBIDDEN_COMMENT_MARKERS)))"

text \<open>\<^verbatim>\<open>exc.lineno or 1\<close>\<close>

definition line_or_1 :: "nat option \<Rightarrow> nat" where
  "line_or_1 line = (case line of None \<Rightarrow> 1 | Some n \<Rightarrow> if n = 0 then 1 else n)"

definition check_text :: "checkout \<Rightarrow> location \<Rightarrow> pystr \<Rightarrow> violation list res" where
  "check_text co path source =
     (let final = (if source \<noteq> [] \<and> last source \<noteq> 10
                   then [make_violation co path (max 1 (length (splitlines source))) (lit ''TXT001'')
                           (lit ''missing final newline'')]
                   else []);
          lines = concat (map (line_violations co path) (enumerate 1 (splitlines source)));
          (tokens, ending) = generate_tokens co (splitlines_keepends source);
          comments = concat (map (token_violations co path) tokens) in
      case ending of
        TokensDone \<Rightarrow> Inr (final @ lines @ comments)
      | TokenError line message \<Rightarrow>
          Inr (final @ lines @ comments @
            [make_violation co path (line_or_1 line) (lit ''SYN001'')
               (lit ''tokenization failed: '' @ message)])
      | TokensRaise e \<Rightarrow> Inl e)"

section \<open>Syntax\<close>

fun call_name :: "ast \<Rightarrow> pystr option" where
  "call_name (Name l n) = Some n"
| "call_name (Attribute l (Name l' n) attr) = (if n = lit ''builtins'' then Some attr else None)"
| "call_name _ = None"

fun has_mutable_default :: "ast \<Rightarrow> bool" where
  "has_mutable_default (Display l b) = True"
| "has_mutable_default (Call l (Name l' n) b) = (n \<in> set MUTABLE_DEFAULT_CALLS)"
| "has_mutable_default _ = False"

text \<open>\<^verbatim>\<open>repr\<close> of an identifier, which has no quote, backslash or unprintable character\<close>

definition repr_identifier :: "pystr \<Rightarrow> pystr" where
  "repr_identifier s = lit [CHR 0x27] @ s @ lit [CHR 0x27]"

definition missing_annotation :: "checkout \<Rightarrow> location \<Rightarrow> pystr \<Rightarrow> arg \<Rightarrow> violation" where
  "missing_annotation co path name parameter =
     make_violation co path (arg_line parameter) (lit ''TYP001'')
       (lit ''parameter '' @ repr_identifier name @ lit '' is missing a type annotation'')"

definition unannotated :: "arg \<Rightarrow> bool" where
  "unannotated parameter \<longleftrightarrow> annotation parameter = None"

definition function_violations ::
    "checkout \<Rightarrow> location \<Rightarrow> nat \<Rightarrow> pystr \<Rightarrow> arguments \<Rightarrow> ast option \<Rightarrow> violation list" where
  "function_violations co path line name args returns =
     map (\<lambda>p. missing_annotation co path (arg_name p) p)
       (filter (\<lambda>p. arg_name p \<notin> {lit ''self'', lit ''cls''} \<and> unannotated p)
          (posonlyargs args @ regular_args args @ kwonlyargs args)) @
     map (\<lambda>p. missing_annotation co path (lit ''*'' @ arg_name p) p)
       (filter unannotated (list_of (vararg args))) @
     map (\<lambda>p. missing_annotation co path (lit ''**'' @ arg_name p) p)
       (filter unannotated (list_of (kwarg args))) @
     (if returns = None
      then [make_violation co path line (lit ''TYP002'')
              (lit ''function '' @ repr_identifier name @ lit '' is missing a return annotation'')]
      else []) @
     map (\<lambda>d. make_violation co path (lineno d) (lit ''TYP003'')
            (lit ''function '' @ repr_identifier name @ lit '' has a mutable default argument''))
       (filter has_mutable_default (defaults args @ concat (map list_of (kw_defaults args))))"

text \<open>\<^verbatim>\<open>name.partition(".")[0]\<close>\<close>

definition import_root :: "pystr \<Rightarrow> pystr" where
  "import_root name = takeWhile (\<lambda>c. c \<noteq> 46) name"

definition import_violation :: "checkout \<Rightarrow> location \<Rightarrow> nat \<Rightarrow> pystr \<Rightarrow> violation list" where
  "import_violation co path line root =
     (if root \<in> set FORBIDDEN_IMPORT_ROOTS
      then [make_violation co path line (lit ''SEC001'')
              (lit ''forbidden unsafe serialization import: '' @ root)]
      else [])"

text \<open>The chain of \<^verbatim>\<open>isinstance\<close> tests in the loop over \<^verbatim>\<open>ast.walk(tree)\<close>\<close>

fun node_violations :: "checkout \<Rightarrow> location \<Rightarrow> bool \<Rightarrow> ast_node \<Rightarrow> violation list" where
  "node_violations co path require (Syntax (Import l ns)) =
     concat (map (\<lambda>a. import_violation co path l (import_root (alias_name a))) ns)"
| "node_violations co path require (Syntax (ImportFrom l m ns)) =
     (if \<exists>a\<in>set ns. alias_name a = lit ''*''
      then [make_violation co path l (lit ''IMP001'') (lit ''wildcard import'')] else []) @
     import_violation co path l (import_root (case m of None \<Rightarrow> [] | Some s \<Rightarrow> s))"
| "node_violations co path require (Syntax (Call l f b)) =
     (case call_name f of
        Some name \<Rightarrow>
          if name \<in> set FORBIDDEN_CALLS
          then [make_violation co path l (lit ''SEC002'') (lit ''forbidden dynamic execution call: '' @ name)]
          else []
      | None \<Rightarrow> [])"
| "node_violations co path require (Syntax (Assert l b)) =
     [make_violation co path l (lit ''SEC003'') (lit ''runtime package code must not use assert'')]"
| "node_violations co path require (Syntax (ExceptHandler l t b)) =
     (if t = None then [make_violation co path l (lit ''ERR001'') (lit ''bare except clause'')] else [])"
| "node_violations co path require (Syntax (FunctionDef l n as b ds r ts)) =
     (if require then function_violations co path l n as r else [])"
| "node_violations co path require _ = []"

fun future_annotations :: "ast \<Rightarrow> bool" where
  "future_annotations (ImportFrom l m ns) =
     (m = Some (lit ''__future__'') \<and> (\<exists>a\<in>set ns. alias_name a = lit ''annotations''))"
| "future_annotations _ = False"

fun module_body :: "ast \<Rightarrow> ast list" where
  "module_body (Module b) = b"
| "module_body _ = []"

definition check_ast :: "checkout \<Rightarrow> location \<Rightarrow> pystr \<Rightarrow> bool \<Rightarrow> violation list res" where
  "check_ast co path source require =
     (case parse_source co source of
        ParseRaises e \<Rightarrow> Inl e
      | Unparsable line message \<Rightarrow>
          Inr [make_violation co path (line_or_1 line) (lit ''SYN002'') message]
      | Parsed tree \<Rightarrow>
          Inr ((if require \<and> \<not> list_ex future_annotations (module_body tree)
                then [make_violation co path 1 (lit ''TYP004'')
                        (lit ''package module must import annotations from __future__'')]
                else []) @
               concat (map (node_violations co path require) (walk [Syntax tree]))))"

section \<open>The report\<close>

definition inspect_python_file :: "checkout \<Rightarrow> location \<Rightarrow> bool \<Rightarrow> violation list res" where
  "inspect_python_file co path require =
     (case read_text co path of
        Inl message \<Rightarrow>
          Inr [make_violation co path 1 (lit ''TXT000'') (lit ''failed to read UTF-8 source: '' @ message)]
      | Inr source \<Rightarrow>
          bindE (check_text co path source) (\<lambda>vs.
          bindE (check_ast co path source require) (\<lambda>ws. Inr (vs @ ws))))"

definition repository_python_files :: "checkout \<Rightarrow> (location \<times> bool) list" where
  "repository_python_files co =
     map (\<lambda>p. (p, True)) (sort (rglob_python co (package_root co))) @
     map (\<lambda>name. (repository_root co @ [name], False))
       [lit ''check_green.py'', lit ''check_source_quality.py'', lit ''demo.py'']"

definition file_violations :: "checkout \<Rightarrow> location \<times> bool \<Rightarrow> violation list res" where
  "file_violations co file =
     (let (path, require) = file in
      if \<not> is_file co path
      then Inr [make_violation co path 1 (lit ''REP001'') (lit ''required Python file is missing'')]
      else inspect_python_file co path require)"

definition collect_repository_violations :: "checkout \<Rightarrow> violation list res" where
  "collect_repository_violations co =
     bindE (sequenceE (map (file_violations co) (repository_python_files co))) (\<lambda>vs.
     Inr (sort (concat vs)))"

text \<open>The exit code of \<^verbatim>\<open>main\<close> with the lines it prints to the error and to the standard output\<close>

record report =
  exit_code :: nat
  stderr_lines :: "pystr list"
  stdout_lines :: "pystr list"

definition source_quality_main :: "checkout \<Rightarrow> report res" where
  "source_quality_main co =
     bindE (collect_repository_violations co) (\<lambda>violations.
     if violations \<noteq> []
     then Inr \<lparr>exit_code = 1,
                stderr_lines = lit ''SOURCE QUALITY CHECK FAILED'' # map render violations,
                stdout_lines = []\<rparr>
     else Inr \<lparr>exit_code = 0, stderr_lines = [],
                stdout_lines = [lit ''SOURCE QUALITY CHECK PASSED ('' @
                  dec_nat (length (repository_python_files co)) @ lit '' files)'']\<rparr>)"

section \<open>What an accepted file is\<close>

text \<open>The rules as conditions, without positions and messages.\<close>

definition typed_function :: "arguments \<Rightarrow> ast option \<Rightarrow> bool" where
  "typed_function args returns \<longleftrightarrow>
     (\<forall>p\<in>set (posonlyargs args @ regular_args args @ kwonlyargs args).
        arg_name p \<in> {lit ''self'', lit ''cls''} \<or> annotation p \<noteq> None) \<and>
     (\<forall>p\<in>set_option (vararg args) \<union> set_option (kwarg args). annotation p \<noteq> None) \<and>
     returns \<noteq> None \<and>
     (\<forall>d. d \<in> set (defaults args) \<or> Some d \<in> set (kw_defaults args) \<longrightarrow> \<not> has_mutable_default d)"

fun acceptable :: "bool \<Rightarrow> ast_node \<Rightarrow> bool" where
  "acceptable require (Syntax (Import l ns)) =
     (\<forall>a\<in>set ns. import_root (alias_name a) \<notin> set FORBIDDEN_IMPORT_ROOTS)"
| "acceptable require (Syntax (ImportFrom l m ns)) =
     ((\<forall>a\<in>set ns. alias_name a \<noteq> lit ''*'') \<and>
      (\<forall>s. m = Some s \<longrightarrow> import_root s \<notin> set FORBIDDEN_IMPORT_ROOTS))"
| "acceptable require (Syntax (Call l f b)) =
     (\<forall>name. call_name f = Some name \<longrightarrow> name \<notin> set FORBIDDEN_CALLS)"
| "acceptable require (Syntax (Assert l b)) = False"
| "acceptable require (Syntax (ExceptHandler l t b)) = (t \<noteq> None)"
| "acceptable require (Syntax (FunctionDef l n as b ds r ts)) = (require \<longrightarrow> typed_function as r)"
| "acceptable require _ = True"

definition line_ok :: "pystr \<Rightarrow> bool" where
  "line_ok line \<longleftrightarrow> 9 \<notin> set line \<and> rstrip line = line \<and> length line \<le> MAX_LINE_LENGTH"

definition token_ok :: "checkout \<Rightarrow> token \<Rightarrow> bool" where
  "token_ok co tok \<longleftrightarrow> (token_kind tok = COMMENT \<longrightarrow>
     (\<forall>marker\<in>set FORBIDDEN_COMMENT_MARKERS. \<not> sublist marker (casefold co (token_string tok))))"

lemma set_concat_list_of: "d \<in> set (concat (map list_of ds)) \<longleftrightarrow> Some d \<in> set ds"
  by (induction ds) auto

lemma map_filter_Nil: "map f (filter P xs) = [] \<longleftrightarrow> (\<forall>x\<in>set xs. \<not> P x)"
  by (auto simp: filter_empty_conv)

lemma function_violations_Nil:
  "function_violations co path l n as r = [] \<longleftrightarrow> typed_function as r"
  unfolding function_violations_def typed_function_def append_is_Nil_conv map_filter_Nil
  by (auto simp: unannotated_def set_concat_list_of)

lemma import_violation_Nil:
  "import_violation co path l root = [] \<longleftrightarrow> root \<notin> set FORBIDDEN_IMPORT_ROOTS"
  by (simp add: import_violation_def)

lemma import_root_Nil: "import_root [] \<notin> set FORBIDDEN_IMPORT_ROOTS"
  by (simp add: import_root_def FORBIDDEN_IMPORT_ROOTS_def lit_def)

lemma node_violations_Nil: "node_violations co path require n = [] \<longleftrightarrow> acceptable require n"
  by (cases "(require, n)" rule: acceptable.cases)
    (auto simp: import_violation_Nil import_root_Nil function_violations_Nil split: option.splits)

lemma line_violations_Nil: "line_violations co path numbered = [] \<longleftrightarrow> line_ok (snd numbered)"
  by (cases numbered) (auto simp: line_violations_def line_ok_def)

lemma token_violations_Nil: "token_violations co path tok = [] \<longleftrightarrow> token_ok co tok"
  by (auto simp: token_violations_def token_ok_def Let_def filter_empty_conv)

lemma all_lines: "(\<forall>x\<in>set (enumerate n ls). P (snd x)) \<longleftrightarrow> (\<forall>l\<in>set ls. P l)"
  by (induction ls arbitrary: n) auto

lemma check_text_Nil:
  "check_text co path source = Inr [] \<longleftrightarrow>
     (source = [] \<or> last source = 10) \<and> (\<forall>line\<in>set (splitlines source). line_ok line) \<and>
     (\<exists>tokens. generate_tokens co (splitlines_keepends source) = (tokens, TokensDone) \<and>
        (\<forall>tok\<in>set tokens. token_ok co tok))"
proof (cases "generate_tokens co (splitlines_keepends source)")
  case (Pair tokens ending)
  then show ?thesis
    by (cases ending)
      (auto simp: check_text_def Let_def line_violations_Nil all_lines token_violations_Nil)
qed

lemma check_ast_Nil:
  "check_ast co path source require = Inr [] \<longleftrightarrow>
     (\<exists>tree. parse_source co source = Parsed tree \<and>
        (require \<longrightarrow> list_ex future_annotations (module_body tree)) \<and>
        (\<forall>n. descends (Syntax tree) n \<longrightarrow> acceptable require n))"
  by (cases "parse_source co source")
    (auto simp: check_ast_def node_violations_Nil walk_all simp del: walk.simps)

lemma inspect_Nil:
  "inspect_python_file co path require = Inr [] \<longleftrightarrow>
     (\<exists>source. read_text co path = Inr source \<and> check_text co path source = Inr [] \<and>
        check_ast co path source require = Inr [])"
  by (cases "read_text co path") (auto simp: inspect_python_file_def res_simps)

lemma sequenceE_values:
  "sequenceE (map f xs) = Inr ys \<Longrightarrow> map Inr ys = map f xs"
  by (induction xs arbitrary: ys) (auto simp: res_simps)

section \<open>Properties\<close>

definition sample_checkout :: "checkout" where
  "sample_checkout = \<lparr>repository_root = [lit ''repo''], resolve = (\<lambda>p. p),
     rglob_python = (\<lambda>p. [p @ [lit ''b.py''], p @ [lit ''a.py'']]), is_file = (\<lambda>p. True),
     read_text = (\<lambda>p. Inr (lit ''x'' @ [10])), generate_tokens = (\<lambda>ls. ([], TokensDone)),
     parse_source = (\<lambda>s. Parsed (Module [ImportFrom 1 (Some (lit ''__future__'')) [Alias (lit ''annotations'')]])),
     casefold = (\<lambda>s. s)\<rparr>"

lemma sample_accepted: "inspect_python_file sample_checkout path True = Inr []"
  by (simp add: inspect_python_file_def sample_checkout_def check_text_def check_ast_def
      splitlines_def splitlines_keepends_def line_break_def lit_def line_violations_def rstrip_def
      is_space_def MAX_LINE_LENGTH_def import_violation_def import_root_def FORBIDDEN_IMPORT_ROOTS_def)

lemma sample_accepted_script: "inspect_python_file sample_checkout path False = Inr []"
  by (simp add: inspect_python_file_def sample_checkout_def check_text_def check_ast_def
      splitlines_def splitlines_keepends_def line_break_def lit_def line_violations_def rstrip_def
      is_space_def MAX_LINE_LENGTH_def import_violation_def import_root_def FORBIDDEN_IMPORT_ROOTS_def)

text \<open>
  C39. A file is accepted exactly when it keeps every rule: it is readable, ends in a line feed,
  no line has a tab, trailing white space or more than 100 characters, no comment has one of the
  markers, it parses, a package module imports the future annotations, and no node of the tree, at
  any depth, imports a forbidden module, calls a forbidden function, asserts, catches everything,
  imports all names or, in a package module, defines a function without annotations or with a
  mutable default.
\<close>

theorem source_accepted:
  "inspect_python_file co path require = Inr [] \<longleftrightarrow>
     (\<exists>source tree tokens. read_text co path = Inr source \<and> parse_source co source = Parsed tree \<and>
        generate_tokens co (splitlines_keepends source) = (tokens, TokensDone) \<and>
        (source = [] \<or> last source = 10) \<and> (\<forall>line\<in>set (splitlines source). line_ok line) \<and>
        (\<forall>tok\<in>set tokens. token_ok co tok) \<and>
        (require \<longrightarrow> list_ex future_annotations (module_body tree)) \<and>
        (\<forall>n. descends (Syntax tree) n \<longrightarrow> acceptable require n))"
  unfolding inspect_Nil check_text_Nil check_ast_Nil by blast

theorem source_accepted_witness:
  "inspect_python_file sample_checkout [lit ''a.py''] True = Inr [] \<and>
   (\<exists>tree. parse_source sample_checkout (lit ''x'' @ [10]) = Parsed tree \<and>
      (\<forall>n. descends (Syntax tree) n \<longrightarrow> acceptable True n))"
proof -
  have "read_text sample_checkout [lit ''a.py''] = Inr (lit ''x'' @ [10])" by (simp add: sample_checkout_def)
  then show ?thesis
    using source_accepted [of sample_checkout "[lit ''a.py'']" True] sample_accepted [of "[lit ''a.py'']"] by auto
qed

text \<open>The report on violations that were found without an exception\<close>

lemma sort_Nil [simp]: "sort xs = [] \<longleftrightarrow> xs = []"
  by (metis length_0_conv length_sort)

lemma sequence_of_Nil: "(\<exists>vss. sequenceE ms = Inr vss \<and> concat vss = []) \<longleftrightarrow> (\<forall>m\<in>set ms. m = Inr [])"
  by (induction ms) (auto simp: res_simps)

lemma source_quality_passes:
  "(\<exists>r. source_quality_main co = Inr r \<and> exit_code r = 0) \<longleftrightarrow>
     (\<forall>f\<in>set (repository_python_files co). file_violations co f = Inr [])"
proof -
  let ?ms = "map (file_violations co) (repository_python_files co)"
  have "(\<exists>r. source_quality_main co = Inr r \<and> exit_code r = 0) \<longleftrightarrow>
      (\<exists>vss. sequenceE ?ms = Inr vss \<and> concat vss = [])"
    by (cases "sequenceE ?ms")
      (simp_all add: source_quality_main_def collect_repository_violations_def del: concat_eq_Nil_conv)
  then show ?thesis using sequence_of_Nil [of ?ms] by simp
qed

lemma sample_file_accepted: "file_violations sample_checkout f = Inr []"
  using sample_accepted [of "fst f"] sample_accepted_script [of "fst f"]
  by (cases f; cases "snd f") (simp_all add: file_violations_def sample_checkout_def)

text \<open>
  C40. The report is complete.  It covers the Python files below the package directory, in order and
  as package modules, and the three scripts.  When \<^verbatim>\<open>main\<close> returns, the exit code is 0 exactly if
  every one of these files is there and accepted.  Otherwise it is 1 and the lines that are printed
  are, in sorted order and each as often as it was found, the violations of the files that are there
  and one violation for every file that is missing.
\<close>

theorem quality_report_complete:
  assumes "source_quality_main co = Inr r"
  shows "(exit_code r = 0 \<longleftrightarrow>
      (\<forall>p\<in>set (rglob_python co (package_root co)). is_file co p \<and> inspect_python_file co p True = Inr []) \<and>
      (\<forall>name\<in>{lit ''check_green.py'', lit ''check_source_quality.py'', lit ''demo.py''}.
         is_file co (repository_root co @ [name]) \<and>
         inspect_python_file co (repository_root co @ [name]) False = Inr [])) \<and>
    (exit_code r \<noteq> 0 \<longrightarrow> exit_code r = 1 \<and>
       (\<exists>vs found. stderr_lines r = lit ''SOURCE QUALITY CHECK FAILED'' # map render vs \<and> sorted vs \<and>
          mset vs = mset (concat found) \<and>
          list_all2 (\<lambda>(p, require) ws.
              if is_file co p then inspect_python_file co p require = Inr ws
              else ws = [Violation (relative_path co p) 1 (lit ''REP001'')
                           (lit ''required Python file is missing'')])
            (map (\<lambda>p. (p, True)) (sort (rglob_python co (package_root co))) @
             map (\<lambda>name. (repository_root co @ [name], False))
               [lit ''check_green.py'', lit ''check_source_quality.py'', lit ''demo.py''])
            found))"
  (is "(_ \<longleftrightarrow> ?accepted) \<and> (_ \<longrightarrow> _ \<and> ?printed)")
proof -
  obtain vss where vss: "sequenceE (map (file_violations co) (repository_python_files co)) = Inr vss"
    and all: "collect_repository_violations co = Inr (sort (concat vss))"
    using assms by (auto simp: source_quality_main_def collect_repository_violations_def res_simps)
  have per_file: "list_all2 (\<lambda>f ws. file_violations co f = Inr ws) (repository_python_files co) vss"
    using sequenceE_values [OF vss] by (simp add: list_all2_conv_all_nth list_eq_iff_nth_eq)
  have found: "list_all2 (\<lambda>(p, require) ws.
      if is_file co p then inspect_python_file co p require = Inr ws
      else ws = [Violation (relative_path co p) 1 (lit ''REP001'') (lit ''required Python file is missing'')])
    (repository_python_files co) vss"
    by (rule list_all2_mono [OF per_file])
      (auto simp: file_violations_def make_violation_def split: prod.splits if_splits)
  have failed: "exit_code r = 1" "stderr_lines r = lit ''SOURCE QUALITY CHECK FAILED'' # map render (sort (concat vss))"
    if "exit_code r \<noteq> 0"
    using assms that by (auto simp: source_quality_main_def all split: if_splits)
  have accepted: "file_violations co (p, b) = Inr [] \<longleftrightarrow> is_file co p \<and> inspect_python_file co p b = Inr []"
    for p b by (simp add: file_violations_def)
  have "exit_code r = 0 \<longleftrightarrow>
      (\<forall>f\<in>set (repository_python_files co). file_violations co f = Inr [])"
    using source_quality_passes [of co] assms by auto
  then have passed: "exit_code r = 0 \<longleftrightarrow> ?accepted"
    by (simp add: repository_python_files_def accepted ball_Un conj_ac)
  show ?thesis
  proof (intro conjI impI passed)
    assume fail: "exit_code r \<noteq> 0"
    show "exit_code r = 1" by (rule failed(1) [OF fail])
    show ?printed
      using failed(2) [OF fail] found unfolding repository_python_files_def
      by (intro exI [of _ "sort (concat vss)"] exI [of _ vss] conjI) simp_all
  qed
qed

theorem quality_report_complete_witness:
  "\<exists>r. source_quality_main sample_checkout = Inr r \<and> exit_code r = 0 \<and>
     is_file sample_checkout (repository_root sample_checkout @ [lit ''demo.py'']) \<and>
     (\<forall>p\<in>set (rglob_python sample_checkout (package_root sample_checkout)).
        inspect_python_file sample_checkout p True = Inr [])"
proof -
  obtain r where r: "source_quality_main sample_checkout = Inr r" "exit_code r = 0"
    using source_quality_passes [of sample_checkout] sample_file_accepted by blast
  with quality_report_complete [OF r(1)] show ?thesis by blast
qed

end
