(* ===== verification/Demo.thy ===== *)
theory Demo
  imports Agreement
begin

text \<open>
  \<^verbatim>\<open>demo.py\<close>: two fresh identities, a handshake in which every message crosses the wire, one
  message, and the text that is printed.  The private keys that the library draws are arguments.
\<close>

text \<open>A message that the holder of the first session sends to the holder of the second.\<close>

definition deliver :: "crypto \<Rightarrow> runtime \<Rightarrow> bytes \<Rightarrow> SessionState \<times> SessionState \<Rightarrow> bytes res" where
  "deliver c rt message sessions =
     bindE (fst (encrypt c rt (PBytes message) (fst sessions))) (\<lambda>packet.
     fst (decrypt c rt (PBytes packet) (snd sessions)))"

record drawn_keys =
  alice_signing :: bytes
  alice_exchange :: bytes
  bob_signing :: bytes
  bob_exchange :: bytes
  alice_ephemeral :: bytes
  bob_ephemeral :: bytes

text \<open>
  Alice and Bob are generated, shake hands over the wire with one supplemental secret, and Alice
  sends a message: what Bob receives.
\<close>

definition converse :: "crypto \<Rightarrow> runtime \<Rightarrow> drawn_keys \<Rightarrow> bytes \<Rightarrow> bytes \<Rightarrow> bytes res" where
  "converse c rt keys supplemental message =
     bindE (generate_identity rt (alice_signing keys) (alice_exchange keys) (PStr (lit ''alice'')))
       (\<lambda>alice.
     bindE (generate_identity rt (bob_signing keys) (bob_exchange keys) (PStr (lit ''bob''))) (\<lambda>bob.
     bindE (run_handshake c rt (alice_ephemeral keys) (bob_ephemeral keys) alice bob AES_GCM_SIV
             supplemental supplemental) (\<lambda>sessions.
     deliver c rt message sessions)))"

text \<open>The printed text is the result of \<^verbatim>\<open>main\<close>.\<close>

definition demo_main :: "crypto \<Rightarrow> runtime \<Rightarrow> drawn_keys \<Rightarrow> pystr res" where
  "demo_main c rt keys =
     bindE (converse c rt keys (blit ''future-pq-kem-secret'') (blit ''CypherSyntax demo message''))
       decode_utf8"

lemma deliver_in_order:
  assumes "crypto_correct c" "runtime_ok rt" "session_ok rt a" "mirrored a b"
    and "send_sequence a = 0" "replay_window b = default_window" "plaintext_ok (suite a) m"
  shows "deliver c rt m (a, b) = Inr m"
  using in_order_run [OF assms(1-6), of "[m]"] assms(7)
  by (auto simp: deliver_def MAX_MESSAGE_SEQUENCE_def split: sum.splits)

lemma mirrored_sym: "mirrored a b \<longleftrightarrow> mirrored b a"
  by (auto simp: mirrored_def)

text \<open>After a handshake the sessions carry messages, in both directions.\<close>

lemma handshake_delivers:
  assumes "crypto_correct c" "runtime_ok rt" "name_ok rt (id_name alice)" "name_ok rt (id_name bob)"
    and "id_name alice \<noteq> id_name bob" "x_public c eb \<noteq> x_public c ea"
    and "plaintext_ok su m" "plaintext_ok su m'"
  shows "\<exists>sa sb. run_handshake c rt ea eb alice bob su supp supp = Inr (sa, sb) \<and>
    deliver c rt m (sa, sb) = Inr m \<and> deliver c rt m' (sb, sa) = Inr m'"
proof -
  obtain sa sb where run: "run_handshake c rt ea eb alice bob su supp supp = Inr (sa, sb)"
    and s: "mirrored sa sb" "session_ok rt sa" "session_ok rt sb" "send_sequence sa = 0"
      "send_sequence sb = 0" "suite sa = su" "replay_window sa = default_window"
      "replay_window sb = default_window"
    using honest_run [OF assms(1-6)] by blast
  have "suite sb = su" using s(1,6) by (simp add: mirrored_def)
  then have "deliver c rt m' (sb, sa) = Inr m'"
    using deliver_in_order [OF assms(1,2) s(3) mirrored_sym [THEN iffD1, OF s(1)] s(5,7)] assms(8) by simp
  moreover have "deliver c rt m (sa, sb) = Inr m"
    using deliver_in_order [OF assms(1,2) s(2,1,4,8)] s(6) assms(7) by simp
  ultimately show ?thesis using run by blast
qed

lemma converse_delivers:
  assumes "crypto_correct c" "runtime_ok rt"
    and "x_public c (bob_ephemeral keys) \<noteq> x_public c (alice_ephemeral keys)"
    and "plaintext_ok AES_GCM_SIV m"
  shows "converse c rt keys supp m = Inr m"
proof -
  have names: "name_ok rt (lit ''alice'')" "name_ok rt (lit ''bob'')"
    "\<not> path_component (lit ''alice'')" "\<not> path_component (lit ''bob'')"
    by (simp_all add: name_ok_plain MAX_PARTICIPANT_NAME_BYTES_def lit_def path_component_def)
  have generate: "generate_identity rt s x (PStr n) =
      Inr \<lparr>id_name = n, id_signing_private = s, id_exchange_private = x\<rparr>"
    if "name_ok rt n" "\<not> path_component n" for s x n
    using that by (simp add: generate_identity_def make_identity_def
        validate_identity_name_eq_Inr [THEN iffD2])
  let ?alice = "\<lparr>id_name = lit ''alice'', id_signing_private = alice_signing keys,
    id_exchange_private = alice_exchange keys\<rparr>"
  let ?bob = "\<lparr>id_name = lit ''bob'', id_signing_private = bob_signing keys,
    id_exchange_private = bob_exchange keys\<rparr>"
  have "name_ok rt (id_name ?alice)" "name_ok rt (id_name ?bob)" "id_name ?alice \<noteq> id_name ?bob"
    using names by simp_all
  then obtain sa sb where "run_handshake c rt (alice_ephemeral keys) (bob_ephemeral keys)
      ?alice ?bob AES_GCM_SIV supp supp = Inr (sa, sb)" "deliver c rt m (sa, sb) = Inr m"
    using handshake_delivers [OF assms(1,2) _ _ _ assms(3)] assms(4) by blast
  then show ?thesis by (simp add: converse_def generate names)
qed

lemma demo_main_delivers:
  assumes "crypto_correct c" "runtime_ok rt"
    and "x_public c (bob_ephemeral keys) \<noteq> x_public c (alice_ephemeral keys)"
  shows "demo_main c rt keys = Inr (lit ''CypherSyntax demo message'')"
proof -
  let ?m = "blit ''CypherSyntax demo message''"
  have "converse c rt keys (blit ''future-pq-kem-secret'') ?m = Inr ?m"
    by (rule converse_delivers [OF assms]) (simp add: plaintext_ok_def protocol_constants blit_def)
  moreover have "utf8_encode (lit ''CypherSyntax demo message'') = Inr ?m"
    using utf8_encode_ascii [of "lit ''CypherSyntax demo message''"] by (simp add: lit_def blit_def to_byte_def)
  ultimately show ?thesis
    using utf8_decode_encode by (simp add: demo_main_def decode_utf8_def)
qed

text \<open>
  C24. The demonstration works: whatever private keys are drawn, as long as the two ephemeral
  public keys differ, \<^verbatim>\<open>demo.py\<close> completes the handshake over the wire and prints its message.
\<close>

theorem demo_prints_message:
  assumes "crypto_correct c" "runtime_ok rt"
    and "x_public c (bob_ephemeral keys) \<noteq> x_public c (alice_ephemeral keys)"
  shows "demo_main c rt keys = Inr (lit ''CypherSyntax demo message'')"
  using assms by (rule demo_main_delivers)

theorem demo_prints_message_witness:
  "demo_main toy_crypto sample_runtime
     \<lparr>alice_signing = [1], alice_exchange = [2], bob_signing = [3], bob_exchange = [4],
      alice_ephemeral = [11], bob_ephemeral = [12]\<rparr> = Inr (lit ''CypherSyntax demo message'')"
  by (rule demo_prints_message [OF toy_crypto_correct sample_runtime_ok])
    (simp add: toy_crypto_def fit_def)

end
