(* ===== verification/GreenCheck.thy ===== *)
theory GreenCheck
  imports WheelSafety SourceQuality Demo
begin

text \<open>
  \<^verbatim>\<open>check_green.py\<close>: the gate of the repository, from the environment to the smoke test of the
  installed wheel.  Every program that it runs is an invocation with a command, a directory and
  changed environment variables; its exit status, and everything else the script learns from the
  system, is an argument.  The progress lines on the standard output are left out; the log has the
  label of every step that was begun.  A new temporary directory is assumed to be usable.
\<close>

section \<open>The surroundings\<close>

record invocation =
  command :: "pystr list"
  directory :: location
  variables :: "(pystr \<times> pystr) list"

record gate =
  checkout_root :: location
  python_version :: "nat list"
  executable :: pystr
  find_spec :: "pystr \<Rightarrow> bool"
  spawn :: "invocation \<Rightarrow> int res"
  source_files :: "location \<Rightarrow> location list"
  parse_310 :: "location \<Rightarrow> unit res"
  python_path :: "pystr option"
  temporary_root :: location
  built_wheels :: "(location \<times> zip_entry list res) list"
  wheel_checks :: "wheel_surroundings"

definition MINIMUM_PYTHON :: "nat list" where
  "MINIMUM_PYTHON = [3, 10]"

definition REQUIRED_MODULES :: "pystr list" where
  "REQUIRED_MODULES =
     [lit ''coverage'', lit ''cryptography'', lit ''pytest'', lit ''pytest_cov'', lit ''setuptools'']"

text \<open>\<^verbatim>\<open>str(path)\<close> of an absolute path\<close>

definition path_text :: "location \<Rightarrow> pystr" where
  "path_text p = lit ''/'' @ slash_separated p"

text \<open>\<^verbatim>\<open>subprocess.list2cmdline\<close>: the backslashes before a quote are doubled.\<close>

fun escape_argument :: "nat \<Rightarrow> pystr \<Rightarrow> pystr \<times> nat" where
  "escape_argument n [] = (replicate n 92, n)"
| "escape_argument n (c # s) =
     (if c = 92 then escape_argument (Suc n) s
      else if c = 34 then apfst (\<lambda>t. replicate (2 * n) 92 @ [92, 34] @ t) (escape_argument 0 s)
      else apfst (\<lambda>t. replicate n 92 @ c # t) (escape_argument 0 s))"

definition quote_argument :: "pystr \<Rightarrow> pystr" where
  "quote_argument a =
     (if 32 \<in> set a \<or> 9 \<in> set a \<or> a = []
      then [34] @ fst (escape_argument 0 a) @ replicate (snd (escape_argument 0 a)) 92 @ [34]
      else fst (escape_argument 0 a))"

fun spaced :: "pystr list \<Rightarrow> pystr" where
  "spaced [] = []"
| "spaced [x] = x"
| "spaced (x # xs) = x @ [32] @ spaced xs"

definition format_command :: "pystr list \<Rightarrow> pystr" where
  "format_command args = spaced (map quote_argument args)"

section \<open>Steps\<close>

text \<open>A step with the labels of the steps that it begins\<close>

type_synonym logged = "unit res \<times> pystr list"

definition then_step :: "logged \<Rightarrow> logged \<Rightarrow> logged" where
  "then_step a b =
     (case fst a of Inl e \<Rightarrow> a | Inr _ \<Rightarrow> (fst b, snd a @ snd b))"

definition quiet :: "unit res \<Rightarrow> logged" where
  "quiet m = (m, [])"

definition run_step :: "gate \<Rightarrow> pystr \<Rightarrow> invocation \<Rightarrow> logged" where
  "run_step g label call =
     (bindE (spawn g call) (\<lambda>returncode.
        raise_if (returncode \<noteq> 0)
          (green_error (label @ lit '' failed with exit code '' @ dec_int returncode @ lit '': '' @
             format_command (command call)))),
      [label])"

definition check_environment :: "gate \<Rightarrow> logged" where
  "check_environment g =
     (thenE (raise_if (python_version g < MINIMUM_PYTHON)
              (green_error (lit ''Python 3.10 or newer is required'')))
     (let missing = filter (\<lambda>name. \<not> find_spec g name) REQUIRED_MODULES in
      raise_if (missing \<noteq> [])
        (green_error (lit ''missing development dependencies: '' @ comma_separated (sort missing) @
           lit ''. Install the project with: python -m pip install -e .[dev]''))),
      [lit ''Environment''])"

text \<open>\<^verbatim>\<open>path.relative_to(REPOSITORY_ROOT).as_posix()\<close> of a path below the root\<close>

definition below_root :: "gate \<Rightarrow> location \<Rightarrow> pystr" where
  "below_root g path = slash_separated (drop (length (checkout_root g)) path)"

definition grammar_paths :: "gate \<Rightarrow> location list" where
  "grammar_paths g =
     sort (source_files g (checkout_root g @ [lit ''src''])) @
     sort (source_files g (checkout_root g @ [lit ''tests''])) @
     map (\<lambda>name. checkout_root g @ [name])
       [lit ''check_green.py'', lit ''check_source_quality.py'', lit ''demo.py'']"

fun check_grammar :: "gate \<Rightarrow> location list \<Rightarrow> unit res" where
  "check_grammar g [] = Inr ()"
| "check_grammar g (path # paths) =
     thenE (wrap_exn [OSError, UnicodeError, SyntaxError]
              (\<lambda>e. green_error (lit ''Python 3.10 grammar validation failed for '' @
                 below_root g path @ lit '': '' @ msg e))
              (parse_310 g path))
       (check_grammar g paths)"

definition validate_python_310_grammar :: "gate \<Rightarrow> logged" where
  "validate_python_310_grammar g =
     (check_grammar g (grammar_paths g), [lit ''Validate Python 3.10 grammar compatibility''])"

text \<open>\<^verbatim>\<open>os.pathsep.join(part for part in (first, existing) if part)\<close>\<close>

definition path_variable :: "gate \<Rightarrow> location \<Rightarrow> pystr" where
  "path_variable g first =
     path_text first @
     (case python_path g of None \<Rightarrow> [] | Some p \<Rightarrow> if p = [] then [] else lit '':'' @ p)"

definition python :: "gate \<Rightarrow> string list \<Rightarrow> invocation" where
  "python g args =
     \<lparr>command = executable g # map lit args, directory = checkout_root g, variables = []\<rparr>"

section \<open>The wheel\<close>

text \<open>Text with a back quote for each single quote\<close>

definition quoted :: "string \<Rightarrow> pystr" where
  "quoted s = map (\<lambda>c. if c = 96 then 39 else c) (lit s)"

fun newline_separated :: "pystr list \<Rightarrow> pystr" where
  "newline_separated [] = []"
| "newline_separated [x] = x"
| "newline_separated (x # xs) = x @ [10] @ newline_separated xs"

definition smoke_code :: "pystr" where
  "smoke_code = newline_separated
     [quoted ''from pathlib import Path'',
      quoted ''import os'',
      quoted ''import cyphersyntax'',
      quoted ''from cyphersyntax import ('',
      quoted ''    AeadSuite,'',
      quoted ''    HandshakeConfirmation,'',
      quoted ''    HandshakeOffer,'',
      quoted ''    HandshakeResponse,'',
      quoted ''    Identity,'',
      quoted ''    SessionFactory,'',
      quoted '')'',
      quoted ''install_root = Path(os.environ[`CYPHERSYNTAX_INSTALL_ROOT`]).resolve()'',
      quoted ''module_path = Path(cyphersyntax.__file__).resolve()'',
      quoted ''if install_root not in module_path.parents:'',
      quoted ''    raise RuntimeError('',
      quoted ''        f`package imported outside isolated target: {module_path}`'',
      quoted ''    )'',
      quoted ''marker_path = module_path.with_name(`py.typed`)'',
      quoted ''if not marker_path.is_file():'',
      quoted ''    raise RuntimeError(`installed wheel is missing the PEP 561 marker`)'',
      quoted ''if cyphersyntax.__version__ != `0.1.0`:'',
      quoted ''    raise RuntimeError(`installed wheel reports an unexpected version`)'',
      quoted ''alice = Identity.generate(`alice`)'',
      quoted ''bob = Identity.generate(`bob`)'',
      quoted ''pending_alice = SessionFactory.initiator('',
      quoted ''    local_identity=alice,'',
      quoted ''    remote_name=bob.name,'',
      quoted ''    remote_signing_public_key=bob.ed25519_public_bytes(),'',
      quoted ''    suite=AeadSuite.AES_GCM_SIV,'',
      quoted '')'',
      quoted ''received_offer = HandshakeOffer.from_bytes('',
      quoted ''    pending_alice.offer.to_bytes()'',
      quoted '')'',
      quoted ''response, pending_bob = SessionFactory.responder('',
      quoted ''    local_identity=bob,'',
      quoted ''    remote_signing_public_key=alice.ed25519_public_bytes(),'',
      quoted ''    offer=received_offer,'',
      quoted '')'',
      quoted ''received_response = HandshakeResponse.from_bytes('',
      quoted ''    response.to_bytes()'',
      quoted '')'',
      quoted ''confirmation, alice_session = pending_alice.complete('',
      quoted ''    received_response'',
      quoted '')'',
      quoted ''received_confirmation = HandshakeConfirmation.from_bytes('',
      quoted ''    confirmation.to_bytes()'',
      quoted '')'',
      quoted ''bob_session = pending_bob.complete(received_confirmation)'',
      quoted ''packet = alice_session.encrypt(b`installed-wheel-smoke-test`)'',
      quoted ''if bob_session.decrypt(packet) != b`installed-wheel-smoke-test`:'',
      quoted ''    raise RuntimeError('',
      quoted ''        `installed wheel failed encryption round trip`'',
      quoted ''    )'']"

definition build_invocation :: "gate \<Rightarrow> invocation" where
  "build_invocation g =
     \<lparr>command = executable g # map lit [''-m'', ''pip'', ''wheel'', ''--disable-pip-version-check'',
        ''--no-deps'', ''--no-build-isolation'', ''--wheel-dir''] @
        [path_text (temporary_root g @ [lit ''wheel'']), lit ''.''],
      directory = checkout_root g, variables = []\<rparr>"

definition install_invocation :: "gate \<Rightarrow> location \<Rightarrow> invocation" where
  "install_invocation g wheel =
     \<lparr>command = executable g # map lit [''-m'', ''pip'', ''install'', ''--disable-pip-version-check'',
        ''--no-deps'', ''--no-compile'', ''--target''] @
        [path_text (temporary_root g @ [lit ''installed'']), path_text wheel],
      directory = checkout_root g, variables = []\<rparr>"

definition smoke_invocation :: "gate \<Rightarrow> invocation" where
  "smoke_invocation g =
     (let install_directory = temporary_root g @ [lit ''installed''] in
      \<lparr>command = [executable g, lit ''-c'', smoke_code],
       directory = temporary_root g @ [lit ''smoke''],
       variables = [(lit ''CYPHERSYNTAX_INSTALL_ROOT'', path_text install_directory),
         (lit ''PYTHONPATH'', path_variable g install_directory)]\<rparr>)"

text \<open>\<^verbatim>\<open>sorted(wheel_directory.glob("*.whl"))\<close>, of which there must be one\<close>

definition validate_built :: "gate \<Rightarrow> logged" where
  "validate_built g =
     (case built_wheels g of
        [(wheel, opened)] \<Rightarrow>
          then_step (validate_wheel (wheel_checks g) opened, [lit ''Validate wheel contents and metadata''])
         (then_step (run_step g (lit ''Install wheel into isolated target'') (install_invocation g wheel))
            (run_step g (lit ''Smoke-test installed wheel'') (smoke_invocation g)))
      | wheels \<Rightarrow>
          quiet (Inl (green_error (lit ''expected exactly one wheel artifact, found '' @
            dec_nat (length wheels)))))"

definition build_and_validate_wheel :: "gate \<Rightarrow> logged" where
  "build_and_validate_wheel g = then_step (run_step g (lit ''Build wheel'') (build_invocation g)) (validate_built g)"

section \<open>The gate\<close>

definition compile_invocation :: "gate \<Rightarrow> invocation" where
  "compile_invocation g =
     python g [''-m'', ''compileall'', ''-q'', ''-f'', ''src'', ''tests'', ''demo.py'',
       ''check_green.py'', ''check_source_quality.py'']"

definition demo_invocation :: "gate \<Rightarrow> invocation" where
  "demo_invocation g =
     (python g [''demo.py''])\<lparr>variables :=
        [(lit ''PYTHONPATH'', path_variable g (checkout_root g @ [lit ''src'']))]\<rparr>"

definition gate_steps :: "gate \<Rightarrow> logged" where
  "gate_steps g =
     then_step (check_environment g)
    (then_step (run_step g (lit ''Compile all Python sources'') (compile_invocation g))
    (then_step (validate_python_310_grammar g)
    (then_step (run_step g (lit ''Run repository-native static source assurance'')
       (python g [''check_source_quality.py'']))
    (then_step (run_step g (lit ''Run strict test and coverage gate'') (python g [''-m'', ''pytest'']))
    (then_step (run_step g (lit ''Run source-tree demo'') (demo_invocation g))
       (build_and_validate_wheel g))))))"

text \<open>\<^verbatim>\<open>main\<close>: the exit code, or the exception that is not caught, with the log\<close>

definition green_main :: "gate \<Rightarrow> nat res \<times> pystr list" where
  "green_main g =
     (case gate_steps g of
        (Inr _, steps) \<Rightarrow> (Inr 0, steps)
      | (Inl e, steps) \<Rightarrow> (if isinstance_of e [GreenCheckError] then Inr 1 else Inl e, steps))"

section \<open>The smoke test\<close>

text \<open>
  What the program \<^const>\<open>smoke_code\<close> does, run on an installation: where the package was imported
  from, whether the marker file is beside it and which version it reports.
\<close>

record installation =
  module_path :: location
  install_root :: location
  marker_is_file :: bool
  reported_version :: pystr

definition smoke_test :: "crypto \<Rightarrow> runtime \<Rightarrow> drawn_keys \<Rightarrow> installation \<Rightarrow> unit res" where
  "smoke_test c rt keys inst =
     thenE (raise_if (\<not> strict_prefix (install_root inst) (module_path inst))
             (Exn RuntimeError (lit ''package imported outside isolated target: '' @
                path_text (module_path inst))))
    (thenE (raise_if (\<not> marker_is_file inst)
             (Exn RuntimeError (lit ''installed wheel is missing the PEP 561 marker'')))
    (thenE (raise_if (reported_version inst \<noteq> lit ''0.1.0'')
             (Exn RuntimeError (lit ''installed wheel reports an unexpected version'')))
    (bindE (converse c rt keys [] (blit ''installed-wheel-smoke-test'')) (\<lambda>received.
     raise_if (received \<noteq> blit ''installed-wheel-smoke-test'')
       (Exn RuntimeError (lit ''installed wheel failed encryption round trip''))))))"

text \<open>
  The exit status of a Python program: what \<^verbatim>\<open>SystemExit\<close> carries, or 1 after an exception that is
  not caught.
\<close>

definition process_status :: "int res \<Rightarrow> int" where
  "process_status m = (case m of Inl e \<Rightarrow> 1 | Inr status \<Rightarrow> status)"

section \<open>When the gate passes\<close>

lemma then_step_accept: "fst (then_step a b) = Inr () \<longleftrightarrow> fst a = Inr () \<and> fst b = Inr ()"
  by (cases "fst a") (simp_all add: then_step_def)

lemma quiet_accept [simp]: "fst (quiet m) = m"
  by (simp add: quiet_def)

lemma run_step_accept: "fst (run_step g label call) = Inr () \<longleftrightarrow> spawn g call = Inr 0"
  by (cases "spawn g call") (simp_all add: run_step_def raise_if_eq_Inr)

lemma check_grammar_accept: "check_grammar g ps = Inr () \<longleftrightarrow> (\<forall>p\<in>set ps. parse_310 g p = Inr ())"
  by (induction ps) (auto simp: accept_simps wrap_exn_eq_Inr)

lemma check_environment_accept:
  "fst (check_environment g) = Inr () \<longleftrightarrow>
     MINIMUM_PYTHON \<le> python_version g \<and> (\<forall>m\<in>set REQUIRED_MODULES. find_spec g m)"
  by (auto simp: check_environment_def accept_simps Let_def filter_empty_conv)

lemma set_grammar_paths:
  "set (grammar_paths g) = set (source_files g (checkout_root g @ [lit ''src''])) \<union>
     set (source_files g (checkout_root g @ [lit ''tests''])) \<union>
     {checkout_root g @ [lit ''check_green.py''], checkout_root g @ [lit ''check_source_quality.py''],
      checkout_root g @ [lit ''demo.py'']}"
  by (auto simp: grammar_paths_def)

text \<open>The programs that the gate runs\<close>

definition invocations :: "gate \<Rightarrow> location \<Rightarrow> invocation list" where
  "invocations g wheel =
     [compile_invocation g, python g [''check_source_quality.py''], python g [''-m'', ''pytest''],
      demo_invocation g, build_invocation g, install_invocation g wheel, smoke_invocation g]"

definition gate_labels :: "pystr list" where
  "gate_labels = map lit
     [''Environment'', ''Compile all Python sources'', ''Validate Python 3.10 grammar compatibility'',
      ''Run repository-native static source assurance'', ''Run strict test and coverage gate'',
      ''Run source-tree demo'', ''Build wheel'', ''Validate wheel contents and metadata'',
      ''Install wheel into isolated target'', ''Smoke-test installed wheel'']"

lemma green_main_accept: "fst (green_main g) = Inr 0 \<longleftrightarrow> fst (gate_steps g) = Inr ()"
  by (cases "gate_steps g") (auto simp: green_main_def split: sum.splits)

text \<open>
  What each step checks, in order, with the label it prints; the count of the wheels has none.  The
  steps that are begun are those up to the first that fails, which is the last one.
\<close>

definition gate_conditions :: "gate \<Rightarrow> (pystr list \<times> bool) list" where
  "gate_conditions g =
     [([lit ''Environment''],
        MINIMUM_PYTHON \<le> python_version g \<and> (\<forall>m\<in>set REQUIRED_MODULES. find_spec g m)),
      ([lit ''Compile all Python sources''], spawn g (compile_invocation g) = Inr 0),
      ([lit ''Validate Python 3.10 grammar compatibility''],
        \<forall>p\<in>set (grammar_paths g). parse_310 g p = Inr ()),
      ([lit ''Run repository-native static source assurance''],
        spawn g (python g [''check_source_quality.py'']) = Inr 0),
      ([lit ''Run strict test and coverage gate''], spawn g (python g [''-m'', ''pytest'']) = Inr 0),
      ([lit ''Run source-tree demo''], spawn g (demo_invocation g) = Inr 0),
      ([lit ''Build wheel''], spawn g (build_invocation g) = Inr 0),
      ([], length (built_wheels g) = 1),
      ([lit ''Validate wheel contents and metadata''],
        \<forall>(wheel, opened)\<in>set (built_wheels g). validate_wheel (wheel_checks g) opened = Inr ()),
      ([lit ''Install wheel into isolated target''],
        \<forall>(wheel, opened)\<in>set (built_wheels g). spawn g (install_invocation g wheel) = Inr 0),
      ([lit ''Smoke-test installed wheel''], spawn g (smoke_invocation g) = Inr 0)]"

fun begun :: "(pystr list \<times> bool) list \<Rightarrow> pystr list" where
  "begun [] = []"
| "begun ((labels, holds) # cs) = labels @ (if holds then begun cs else [])"

lemma begun_append: "begun (cs @ ds) = begun cs @ (if \<forall>c\<in>set cs. snd c then begun ds else [])"
  by (induction cs rule: begun.induct) auto

lemma begun_all: "\<forall>c\<in>set cs. snd c \<Longrightarrow> begun cs = concat (map fst cs)"
  by (induction cs rule: begun.induct) auto

text \<open>A step that checks the conditions one after the other\<close>

definition follows :: "(pystr list \<times> bool) list \<Rightarrow> logged \<Rightarrow> bool" where
  "follows cs a \<longleftrightarrow> snd a = begun cs \<and> (fst a = Inr () \<longleftrightarrow> (\<forall>c\<in>set cs. snd c))"

lemma follows_then: "follows cs a \<Longrightarrow> follows ds b \<Longrightarrow> follows (cs @ ds) (then_step a b)"
  by (cases "fst a") (auto simp: follows_def then_step_def begun_append)

lemma follows_one:
  "follows [([l], spawn g call = Inr 0)] (run_step g l call)"
  "follows [([l], m = Inr ())] (m, [l])"
  by (simp_all add: follows_def run_step_accept) (simp add: run_step_def)

lemma validate_built_accept:
  "fst (validate_built g) = Inr () \<longleftrightarrow>
     (\<exists>wheel opened. built_wheels g = [(wheel, opened)] \<and>
        validate_wheel (wheel_checks g) opened = Inr () \<and>
        spawn g (install_invocation g wheel) = Inr 0 \<and> spawn g (smoke_invocation g) = Inr 0)"
  by (auto simp: validate_built_def then_step_accept run_step_accept split: list.splits)

lemma gate_steps_accept:
  "fst (gate_steps g) = Inr () \<longleftrightarrow>
     MINIMUM_PYTHON \<le> python_version g \<and> (\<forall>m\<in>set REQUIRED_MODULES. find_spec g m) \<and>
     (\<forall>p\<in>set (grammar_paths g). parse_310 g p = Inr ()) \<and>
     (\<exists>wheel opened. built_wheels g = [(wheel, opened)] \<and>
        validate_wheel (wheel_checks g) opened = Inr () \<and>
        (\<forall>call\<in>set (invocations g wheel). spawn g call = Inr 0))"
  by (auto simp: gate_steps_def then_step_accept run_step_accept check_environment_accept
      validate_python_310_grammar_def check_grammar_accept build_and_validate_wheel_def
      validate_built_accept invocations_def)

lemma built_follows: "follows (drop 7 (gate_conditions g)) (validate_built g)"
proof (cases "\<exists>wheel opened. built_wheels g = [(wheel, opened)]")
  case True
  then obtain wheel opened where w: "built_wheels g = [(wheel, opened)]" by blast
  have "drop 7 (gate_conditions g) = ([], True) #
      [([lit ''Validate wheel contents and metadata''], validate_wheel (wheel_checks g) opened = Inr ())] @
      [([lit ''Install wheel into isolated target''], spawn g (install_invocation g wheel) = Inr 0)] @
      [([lit ''Smoke-test installed wheel''], spawn g (smoke_invocation g) = Inr 0)]"
    by (simp add: gate_conditions_def w)
  moreover have "follows ([([lit ''Validate wheel contents and metadata''],
        validate_wheel (wheel_checks g) opened = Inr ())] @
      [([lit ''Install wheel into isolated target''], spawn g (install_invocation g wheel) = Inr 0)] @
      [([lit ''Smoke-test installed wheel''], spawn g (smoke_invocation g) = Inr 0)]) (validate_built g)"
    unfolding validate_built_def w by (simp only: list.case prod.case) (intro follows_then follows_one)
  ultimately show ?thesis by (simp add: follows_def)
next
  case False
  then have "length (built_wheels g) \<noteq> 1" by (auto simp: length_Suc_conv)
  moreover from False have "\<exists>e. validate_built g = quiet (Inl e)"
    by (auto simp: validate_built_def split: list.splits)
  ultimately show ?thesis by (auto simp: follows_def quiet_def gate_conditions_def)
qed

lemma gate_follows: "follows (gate_conditions g) (gate_steps g)"
proof -
  have environment: "follows [([lit ''Environment''],
      MINIMUM_PYTHON \<le> python_version g \<and> (\<forall>m\<in>set REQUIRED_MODULES. find_spec g m))] (check_environment g)"
    using check_environment_accept [of g] by (simp add: follows_def) (simp add: check_environment_def)
  have grammar: "follows [([lit ''Validate Python 3.10 grammar compatibility''],
      \<forall>p\<in>set (grammar_paths g). parse_310 g p = Inr ())] (validate_python_310_grammar g)"
    by (simp add: follows_def validate_python_310_grammar_def check_grammar_accept)
  have split: "gate_conditions g =
      [([lit ''Environment''],
        MINIMUM_PYTHON \<le> python_version g \<and> (\<forall>m\<in>set REQUIRED_MODULES. find_spec g m))] @
      [([lit ''Compile all Python sources''], spawn g (compile_invocation g) = Inr 0)] @
      [([lit ''Validate Python 3.10 grammar compatibility''],
        \<forall>p\<in>set (grammar_paths g). parse_310 g p = Inr ())] @
      [([lit ''Run repository-native static source assurance''],
        spawn g (python g [''check_source_quality.py'']) = Inr 0)] @
      [([lit ''Run strict test and coverage gate''], spawn g (python g [''-m'', ''pytest'']) = Inr 0)] @
      [([lit ''Run source-tree demo''], spawn g (demo_invocation g) = Inr 0)] @
      [([lit ''Build wheel''], spawn g (build_invocation g) = Inr 0)] @ drop 7 (gate_conditions g)"
    by (simp add: gate_conditions_def)
  show ?thesis
    by (subst split, unfold gate_steps_def build_and_validate_wheel_def)
      (intro follows_then follows_one environment grammar built_follows)
qed

lemma process_status_0:
  "process_status (bindE m (\<lambda>x. Inr (f x))) = 0 \<longleftrightarrow> (\<exists>x. m = Inr x \<and> f x = 0)"
  by (cases m) (simp_all add: process_status_def)

section \<open>Properties\<close>

definition passing_gate :: "gate" where
  "passing_gate =
     \<lparr>checkout_root = [lit ''repo''], python_version = [3, 11, 10], executable = lit ''/usr/bin/python3'',
      find_spec = (\<lambda>m. True), spawn = (\<lambda>call. Inr 0), source_files = (\<lambda>p. []),
      parse_310 = (\<lambda>p. Inr ()), python_path = None, temporary_root = [lit ''tmp''],
      built_wheels = [([lit ''tmp'', lit ''wheel'', lit ''x.whl''], Inr sample_infos)],
      wheel_checks = sample_surroundings\<rparr>"

text \<open>
  C36. The gate passes exactly when everything it checks is in order: the exit code is 0 if and
  only if the Python is recent enough, the development modules are there, every source parses,
  every program it runs succeeds (the compiler, the source rules, the tests, the demonstration, the
  build, the installation and the smoke test), and exactly one wheel was built and passes its
  check.  Otherwise it is 1, unless an exception other than \<open>GreenCheckError\<close> comes out.  The steps
  are begun in the fixed order up to and with the first whose condition fails, and none after it;
  all of them when the gate passes.
\<close>

theorem gate_passes:
  "(fst (green_main g) = Inr 0 \<longleftrightarrow>
     MINIMUM_PYTHON \<le> python_version g \<and> (\<forall>m\<in>set REQUIRED_MODULES. find_spec g m) \<and>
     (\<forall>p\<in>set (grammar_paths g). parse_310 g p = Inr ()) \<and>
     (\<exists>wheel opened. built_wheels g = [(wheel, opened)] \<and>
        validate_wheel (wheel_checks g) opened = Inr () \<and>
        (\<forall>call\<in>set (invocations g wheel). spawn g call = Inr 0))) \<and>
   (fst (green_main g) \<noteq> Inr 0 \<longrightarrow> fst (green_main g) = Inr 1 \<or>
      (\<exists>e. fst (green_main g) = Inl e \<and> \<not> isinstance_of e [GreenCheckError])) \<and>
   snd (green_main g) = begun (gate_conditions g) \<and>
   (fst (green_main g) = Inr 0 \<longrightarrow> snd (green_main g) = gate_labels)"
proof -
  have log: "snd (green_main g) = begun (gate_conditions g)"
    using gate_follows [of g]
    by (cases "gate_steps g") (simp add: green_main_def follows_def split: sum.splits)
  have failed: "fst (green_main g) = Inr 1 \<or>
      (\<exists>e. fst (green_main g) = Inl e \<and> \<not> isinstance_of e [GreenCheckError])"
    if "fst (green_main g) \<noteq> Inr 0"
    using that by (cases "gate_steps g") (auto simp: green_main_def split: sum.splits)
  have labels: "snd (green_main g) = gate_labels" if "fst (green_main g) = Inr 0"
  proof -
    have "\<forall>c\<in>set (gate_conditions g). snd c"
      using that gate_follows [of g] green_main_accept [of g] by (simp add: follows_def)
    then show ?thesis unfolding log begun_all by (simp add: gate_conditions_def gate_labels_def)
  qed
  show ?thesis
    using log failed labels unfolding green_main_accept [of g] gate_steps_accept [of g] by blast
qed

theorem gate_passes_witness:
  "fst (green_main passing_gate) = Inr 0 \<and> snd (green_main passing_gate) = gate_labels"
proof -
  have "MINIMUM_PYTHON \<le> python_version passing_gate" "\<forall>m\<in>set REQUIRED_MODULES. find_spec passing_gate m"
    "\<forall>p\<in>set (grammar_paths passing_gate). parse_310 passing_gate p = Inr ()"
    by (simp_all add: passing_gate_def MINIMUM_PYTHON_def)
  moreover have "\<exists>wheel opened. built_wheels passing_gate = [(wheel, opened)] \<and>
      validate_wheel (wheel_checks passing_gate) opened = Inr () \<and>
      (\<forall>call\<in>set (invocations passing_gate wheel). spawn passing_gate call = Inr 0)"
    using sample_wheels_accepted(1) by (simp add: passing_gate_def)
  ultimately show ?thesis using gate_passes [of passing_gate] by blast
qed

text \<open>
  The smoke test passes on an installation exactly when the package comes from it, with its marker
  and version: the handshake and the message never fail.
\<close>

lemma smoke_test_passes:
  assumes "crypto_correct c" "runtime_ok rt"
    and "x_public c (bob_ephemeral keys) \<noteq> x_public c (alice_ephemeral keys)"
  shows "smoke_test c rt keys inst = Inr () \<longleftrightarrow>
    strict_prefix (install_root inst) (module_path inst) \<and> marker_is_file inst \<and>
    reported_version inst = lit ''0.1.0''"
proof -
  have "converse c rt keys [] (blit ''installed-wheel-smoke-test'') = Inr (blit ''installed-wheel-smoke-test'')"
    by (rule converse_delivers [OF assms]) (simp add: plaintext_ok_def protocol_constants blit_def)
  then show ?thesis by (auto simp: smoke_test_def accept_simps)
qed

end
