(* ===== verification/Spec2Isabelle.thy ===== *)
theory Spec2Isabelle
  imports Agreement Concurrency IdentityStore GreenCheck
begin

text \<open>
  A verification development for CypherSyntax, a Python library for authenticated sessions between
  two parties: a signed handshake, encrypted messages with replay protection, identities kept in
  encrypted files, and the release gate of the repository.

  \<^bold>\<open>The program and how its parts interact.\<close>  Two holders of an \<^verbatim>\<open>Identity\<close> run a handshake of three
  messages (offer, response, confirmation) through \<^verbatim>\<open>SessionFactory\<close>.  Each message is validated
  by its constructor and parser (\<^verbatim>\<open>handshake.py\<close>), signed by the identity keys
  (\<^verbatim>\<open>identity.py\<close>), and the shared secrets go through the key schedule (\<^verbatim>\<open>kdf.py\<close>).  Both sides
  end with a \<^verbatim>\<open>SecureSession\<close> (\<^verbatim>\<open>session.py\<close>) whose messages travel as JSON envelopes
  (\<^verbatim>\<open>wire.py\<close>) under a key and nonce of their own for each sequence number, and which refuses
  replays by a sliding window (\<^verbatim>\<open>replay.py\<close>); two locks make its operations usable from many
  threads.  An identity is saved as a JSON object in an \<^verbatim>\<open>EncryptedStore\<close> (\<^verbatim>\<open>store.py\<close>), which
  replaces its file atomically (\<^verbatim>\<open>persistence.py\<close>).  Beside the package stand \<^verbatim>\<open>demo.py\<close>, the
  source rules \<^verbatim>\<open>check_source_quality.py\<close> and the gate \<^verbatim>\<open>check_green.py\<close>, which runs the others
  and checks the wheel that it builds.

  \<^bold>\<open>The theories.\<close>  The package files are under \<^verbatim>\<open>src/src/cyphersyntax/\<close>, the scripts under
  \<^verbatim>\<open>src/\<close>.

  The Python runtime, as far as the sources use it:
  \<^item> \<open>Prelude\<close>: bytes, text, the result type \<open>res\<close> with exceptions as values, its sequencing
    \<open>bindE\<close>, \<open>thenE\<close>, \<open>catchE\<close>, \<open>wrap_exn\<close>, and the collection \<open>res_simps\<close> of lemmas that say when
    a sequence of statements returns.
  \<^item> \<open>Errors\<close>: the exception classes of \<^verbatim>\<open>errors.py\<close> and of the library, their bases and the test
    of an except clause; \<open>raises_only\<close> and \<open>raises_among\<close> with the rules \<open>raises_intros\<close>.
  \<^item> \<open>PyValues\<close>, \<open>PyText\<close>: Python values, code points, UTF-8, decimal and hexadecimal notation.
  \<^item> \<open>JsonEncode\<close>, \<open>JsonDecode\<close>, \<open>JsonRoundTrip\<close>: \<^verbatim>\<open>json.dumps\<close> and \<^verbatim>\<open>json.loads\<close> with their hooks;
    the decoder undoes the encoder on canonical values.
  \<^item> \<open>Sha256\<close>: SHA-256 and HMAC on 32-bit words.  \<open>PyFormats\<close>: lines, URL-safe Base64, the CSV
    reader, message headers.  \<open>PyAst\<close>: syntax trees and \<^verbatim>\<open>ast.walk\<close>.  \<open>Filesystem\<close>: directories,
    inodes, descriptors, the disk, and what a restart may find.

  The package:
  \<^item> \<open>Protocol\<close> (\<^verbatim>\<open>protocol.py\<close>): constants, the check of sequence numbers, and the length-prefixed
    fields that several modules use.
  \<^item> \<open>Wire\<close> (\<^verbatim>\<open>wire.py\<close>): the record \<open>MessageEnvelope\<close>, \<open>make_envelope\<close>, \<open>associated_data\<close>,
    \<open>to_bytes\<close>, \<open>from_bytes\<close>.
  \<^item> \<open>Replay\<close> (\<^verbatim>\<open>replay.py\<close>): the record \<open>ReplayWindow\<close> and its operations.
  \<^item> \<open>Crypto\<close>: the \<^verbatim>\<open>cryptography\<close> package as a record of parameters.  \<open>Kdf\<close> (\<^verbatim>\<open>kdf.py\<close>).
  \<^item> \<open>Handshake\<close>, \<open>HandshakeCodec\<close>, \<open>Transcript\<close> (\<^verbatim>\<open>handshake.py\<close>): the three messages and their
    checks; their wire form; what is signed.
  \<^item> \<open>Identity\<close>, \<open>IdentityStore\<close> (\<^verbatim>\<open>identity.py\<close>): the identity in memory and in its file.
  \<^item> \<open>Session\<close> (\<^verbatim>\<open>session.py\<close>): \<open>encrypt\<close>, \<open>decrypt\<close>, both sides of the handshake.  \<open>Channel\<close>: two
    sessions that talk.  \<open>Agreement\<close>: the handshake as a protocol.  \<open>Concurrency\<close>: \<open>encrypt\<close>
    and \<open>decrypt\<close> as steps of threads, one for taking or releasing a lock and one for each access to
    shared state, where some accesses in a row under one lock are a single step.
  \<^item> \<open>Persistence\<close>, \<open>AtomicWrite\<close> (\<^verbatim>\<open>persistence.py\<close>): passphrases, every call of
    \<open>atomic_write_bytes\<close> with a Hoare triple for all its ends; what the replacement guarantees.
  \<^item> \<open>Store\<close>, \<open>StoreSafety\<close> (\<^verbatim>\<open>store.py\<close>): sealing and opening, saving and loading.

  The scripts:
  \<^item> \<open>Demo\<close> (\<^verbatim>\<open>demo.py\<close>), \<open>SourceQuality\<close> (\<^verbatim>\<open>check_source_quality.py\<close>), \<open>Wheel\<close>, \<open>WheelSafety\<close> and
    \<open>GreenCheck\<close> (\<^verbatim>\<open>check_green.py\<close>).

  \<^bold>\<open>How the code is represented.\<close>  A dataclass or object is a record of its attributes; an exception
  is the left part of a result; an object with state is returned changed, beside the result.  Every
  integer of the sources is Python's unbounded \<open>int\<close>; bytes are 8-bit words.  Arguments whose type
  the sources test at run time are of type \<open>pyval\<close>, so that the branches on a wrong type are there.
  File operations are functions on a \<open>machine\<close> whose script gives every system call its fate: it
  works, it fails, or the machine stops there.  Randomness (keys, salts, nonces, temporary names)
  is an argument of the operation that draws it.

  \<^bold>\<open>Interfaces.\<close>  Locales state what one part relies on in another, and are interpreted on the
  model's own operations:
  \<^item> \<open>prefix_code\<close> (fields that determine themselves): the key schedule's and the handshake's fields.
  \<^item> \<open>pairs_hook\<close> (the hook of the JSON parser): the hooks of \<^verbatim>\<open>wire.py\<close>, \<^verbatim>\<open>handshake.py\<close> and
    \<^verbatim>\<open>store.py\<close>.
  \<^item> \<open>replay_filter\<close> (what is recorded is refused): the sliding window.
  \<^item> \<open>file_replacement\<close> (what a client of the replacement relies on): \<open>atomic_write_bytes\<close>; extended
    by \<open>sealed_file\<close> (an object that is sealed into a file): the encrypted store; it is a
    \<open>kept_object\<close>, the interface on which the persisted identity is proved.

  \<^bold>\<open>What is shown.\<close>
  \<^item> Handshake: an honest run ends with two matching sessions; a completed side has a partner run of
    the trusted identity that agrees on the messages and the keys; a pending handshake gives at most
    one session; what is signed determines what it was made of, and the kinds of signature are apart.
  \<^item> Messages: the two sides of a channel behave like an abstract receiver that remembers every
    sequence it accepted; conversations of up to \<open>2 ^ 64\<close> messages arrive; failures change nothing;
    keys and nonces are distinct.  With threads: calls are linearizable, sequences unique, and the
    locks cannot deadlock.
  \<^item> Formats: round trips, and the parsers accept exactly the canonical bytes; which exceptions come
    out.
  \<^item> Files: a reader finds the old or the new file, also after a crash at any call; what has returned
    is durable, except on Windows and below directories that were only just made; nothing is left
    behind by one failure, and it is told which \<open>OSError\<close> is not wrapped.  Identities are loaded as
    saved, and so are objects of JSON's own terms in a store; of other objects that \<^verbatim>\<open>save\<close> accepts
    (tuples, nested keys that are no strings) it is shown that loading never gives an object of
    another encoding, but it may refuse them.
  \<^item> Scripts: the demonstration prints its message; the source rules and the gate accept exactly what
    they promise, and the gate stops at the first step that fails; an accepted wheel is confined, complete and pinned by its record.  The last
    section joins the gate with the models of the programs that it runs.

  \<^bold>\<open>Hypotheses.\<close>  \<open>crypto_correct\<close> is the documented behaviour of the ciphers, signatures, key exchange
  and lengths; the authentication theorems assume, of the run in question, that the signature that
  verifies was made by the holder of the key, and that HKDF does not collide where distinct keys are
  claimed.  \<open>toy_crypto\<close> is an instance on which the witnesses run.  \<open>runtime\<close> holds what differs
  between Python builds: which characters are printable, the recursion depths of the JSON module and
  the notation of floats.  The tokenizer, the parser and case folding, the answers of the operating
  system and the exit statuses of the programs that the gate runs are arguments.

  \<^bold>\<open>Bounds and fuel.\<close>  The JSON scanner has fuel of twice the length of the text and one; it is proved
  that it never runs out, since every two nested calls consume a character.  The kernel follows at
  most 40 symbolic links.  Integers print with at most 4300 digits and a CSV field has at most
  131072 characters, as in CPython.  A call of \<open>encrypt\<close> or \<open>decrypt\<close> returns after at most nine
  steps.  All other recursions have termination proofs.

  \<^bold>\<open>Not modelled.\<close>  \<^verbatim>\<open>__init__.py\<close> only names what the package exports.  The tests are not modelled.
  Left out of modelled files, as they do not influence a result: \<^verbatim>\<open>__repr__\<close>, abstract base classes
  and protocols for type checkers, assertions that cannot fail, progress lines on the standard
  output.  Permission bits have no effect in the model of the file system.  Time and memory
  (the cost of scrypt, say) are not modelled, nor are secrecy and computational security: the
  theorems say what is authenticated and kept apart, not what an observer learns.
\<close>

section \<open>The gate with the programs that it runs\<close>

text \<open>
  The release gate runs the source check, the demonstration and the smoke test as programs of their
  own; \<open>programs_of\<close> says that what it sees of them is the exit status of the modelled ones, on the
  checkout \<open>co\<close> and the installation \<open>inst\<close>.
\<close>

definition programs_of ::
    "crypto \<Rightarrow> runtime \<Rightarrow> drawn_keys \<Rightarrow> drawn_keys \<Rightarrow> checkout \<Rightarrow> installation \<Rightarrow> gate \<Rightarrow> bool" where
  "programs_of c rt keys keys' co inst g \<longleftrightarrow>
     spawn g (python g [''check_source_quality.py'']) =
       Inr (process_status (bindE (source_quality_main co) (\<lambda>r. Inr (int (exit_code r))))) \<and>
     spawn g (demo_invocation g) = Inr (process_status (bindE (demo_main c rt keys) (\<lambda>_. Inr 0))) \<and>
     spawn g (smoke_invocation g) = Inr (process_status (bindE (smoke_test c rt keys' inst) (\<lambda>_. Inr 0)))"

text \<open>
  C35. The gate from end to end: with its own programs behind it, and whatever private keys they
  draw, the gate exits with 0 exactly when the Python is recent and complete, every source parses,
  every file of the repository keeps the source rules, the compiler, the tests, the build and the
  installation succeed, the one wheel that was built passes its check, and the package that was
  installed from it is the one that is imported, with its marker and version.  The demonstration
  and the cryptographic part of the smoke test never stand in the way.
\<close>

theorem gate_end_to_end:
  assumes "crypto_correct c" "runtime_ok rt" "programs_of c rt keys keys' co inst g"
    and "x_public c (bob_ephemeral keys) \<noteq> x_public c (alice_ephemeral keys)"
    and "x_public c (bob_ephemeral keys') \<noteq> x_public c (alice_ephemeral keys')"
  shows "fst (green_main g) = Inr 0 \<longleftrightarrow>
    MINIMUM_PYTHON \<le> python_version g \<and> (\<forall>m\<in>set REQUIRED_MODULES. find_spec g m) \<and>
    (\<forall>p\<in>set (grammar_paths g). parse_310 g p = Inr ()) \<and>
    (\<forall>f\<in>set (repository_python_files co). file_violations co f = Inr []) \<and>
    (\<exists>wheel opened. built_wheels g = [(wheel, opened)] \<and>
       validate_wheel (wheel_checks g) opened = Inr () \<and>
       (\<forall>call\<in>{compile_invocation g, python g [''-m'', ''pytest''], build_invocation g,
          install_invocation g wheel}. spawn g call = Inr 0)) \<and>
    strict_prefix (install_root inst) (module_path inst) \<and> marker_is_file inst \<and>
    reported_version inst = lit ''0.1.0''"
proof -
  have demo: "spawn g (demo_invocation g) = Inr 0"
    using assms(3) demo_main_delivers [OF assms(1,2,4)]
    by (simp add: programs_of_def process_status_def)
  have quality: "spawn g (python g [''check_source_quality.py'']) = Inr 0 \<longleftrightarrow>
      (\<forall>f\<in>set (repository_python_files co). file_violations co f = Inr [])"
    using assms(3) source_quality_passes [of co] by (simp add: programs_of_def process_status_0)
  have smoke: "spawn g (smoke_invocation g) = Inr 0 \<longleftrightarrow>
      strict_prefix (install_root inst) (module_path inst) \<and> marker_is_file inst \<and>
      reported_version inst = lit ''0.1.0''"
    using assms(3) smoke_test_passes [OF assms(1,2,5), of inst]
    by (simp add: programs_of_def process_status_0)
  show ?thesis
    unfolding green_main_accept gate_steps_accept invocations_def using demo quality smoke by auto
qed

definition sample_keys :: drawn_keys where
  "sample_keys = \<lparr>alice_signing = [1], alice_exchange = [2], bob_signing = [3], bob_exchange = [4],
     alice_ephemeral = [11], bob_ephemeral = [12]\<rparr>"

definition sample_installation :: installation where
  "sample_installation =
     \<lparr>module_path = [lit ''tmp'', lit ''installed'', lit ''cyphersyntax'', lit ''__init__.py''],
      install_root = [lit ''tmp'', lit ''installed''], marker_is_file = True,
      reported_version = lit ''0.1.0''\<rparr>"

theorem gate_end_to_end_witness:
  "fst (green_main passing_gate) = Inr 0 \<and>
   programs_of toy_crypto sample_runtime sample_keys sample_keys sample_checkout sample_installation
     passing_gate"
proof -
  have keys: "x_public toy_crypto (bob_ephemeral sample_keys) \<noteq> x_public toy_crypto (alice_ephemeral sample_keys)"
    by (simp add: sample_keys_def toy_crypto_def fit_def)
  have installed: "strict_prefix (install_root sample_installation) (module_path sample_installation)"
    "marker_is_file sample_installation" "reported_version sample_installation = lit ''0.1.0''"
    by (simp_all add: sample_installation_def strict_prefix_def)
  have spawn: "spawn passing_gate call = Inr 0" for call by (simp add: passing_gate_def)
  have p: "programs_of toy_crypto sample_runtime sample_keys sample_keys sample_checkout
      sample_installation passing_gate"
    using source_quality_passes [of sample_checkout] sample_file_accepted
      demo_main_delivers [OF toy_crypto_correct sample_runtime_ok keys]
      smoke_test_passes [OF toy_crypto_correct sample_runtime_ok keys, of sample_installation] installed
    by (auto simp: programs_of_def spawn process_status_def)
  show ?thesis
    using gate_end_to_end [OF toy_crypto_correct sample_runtime_ok p keys keys] p installed
      sample_file_accepted sample_wheels_accepted(1) spawn
    by (simp add: passing_gate_def MINIMUM_PYTHON_def)
qed

end
